theory Spec2Isabelle
  imports Complex_Main
begin

section \<open>JavaScript values, exceptions and loops\<close>

text \<open>
  The 3D automaton core is JavaScript. A grid is an array of arrays of arrays of numbers.
  A cell read beyond the end of the innermost array gives \<open>undefined\<close>, a typed array
  of floats stores \<open>undefined\<close> as \<open>NaN\<close>, so both are values a cell can hold.
  Numbers in cells are integers (the engines only ever write 0, 1 and 2), or an infinity:
  an integer too large for a 32-bit float comes back from the tensor engine as
  \<open>Infinity\<close> or \<open>-Infinity\<close> (\<open>Infinity True\<close> is the positive one).
\<close>

datatype jsval = Undefined | NaN | Num int | Infinity bool

text \<open>The only exception the modelled code can raise: a property read or write on
  \<open>undefined\<close>.\<close>

datatype error = TypeError

type_synonym grid3 = "jsval list list list"

definition bindE :: "error + 'a \<Rightarrow> ('a \<Rightarrow> error + 'b) \<Rightarrow> error + 'b" where
  "bindE m f = (case m of Inl e \<Rightarrow> Inl e | Inr v \<Rightarrow> f v)"

text \<open>A \<open>for\<close> loop over the listed index values: the body updates the loop state or
  throws, and a throw leaves the loop.\<close>

fun for_loop :: "'i list \<Rightarrow> ('i \<Rightarrow> 's \<Rightarrow> error + 's) \<Rightarrow> 's \<Rightarrow> error + 's" where
  "for_loop [] body s = Inr s"
| "for_loop (i # rest) body s = bindE (body i s) (for_loop rest body)"

text \<open>\<open>for (let x = 0; x < n; x++)\<close> runs over \<open>range0 n\<close>.\<close>

definition range0 :: "nat \<Rightarrow> int list" where
  "range0 n = map int [0..<n]"

text \<open>\<open>xs[i]\<close> on an array: \<open>None\<close> is \<open>undefined\<close>.\<close>

definition js_index :: "'a list \<Rightarrow> int \<Rightarrow> 'a option" where
  "js_index xs i = (if 0 \<le> i \<and> i < int (length xs) then Some (xs ! nat i) else None)"

text \<open>\<open>a % b\<close> on integers: the remainder takes the sign of the dividend. (With
  \<open>b = 0\<close> JavaScript gives \<open>NaN\<close>; every use below has \<open>b\<close> a positive array
  length.)\<close>

definition js_rem :: "int \<Rightarrow> int \<Rightarrow> int" where
  "js_rem a b = sgn a * (\<bar>a\<bar> mod \<bar>b\<bar>)"

text \<open>\<open>grid[x][y][z]\<close>: indexing \<open>undefined\<close> throws, a missing innermost element
  reads as \<open>undefined\<close>.\<close>

definition grid_get :: "grid3 \<Rightarrow> int \<Rightarrow> int \<Rightarrow> int \<Rightarrow> error + jsval" where
  "grid_get grid x y z =
     (case js_index grid x of
        None \<Rightarrow> Inl TypeError
      | Some plane \<Rightarrow>
          (case js_index plane y of
             None \<Rightarrow> Inl TypeError
           | Some col \<Rightarrow>
               (case js_index col z of None \<Rightarrow> Inr Undefined | Some v \<Rightarrow> Inr v)))"

text \<open>\<open>col[z] = v\<close> on the innermost array: a negative index only adds a property and
  leaves the elements alone, an index past the end extends the array with holes.\<close>

definition array_set :: "jsval list \<Rightarrow> int \<Rightarrow> jsval \<Rightarrow> jsval list" where
  "array_set col z v =
     (if z < 0 then col
      else if z < int (length col) then col[nat z := v]
      else col @ replicate (nat z - length col) Undefined @ [v])"

text \<open>\<open>grid[x][y][z] = v\<close>.\<close>

definition grid_set :: "grid3 \<Rightarrow> int \<Rightarrow> int \<Rightarrow> int \<Rightarrow> jsval \<Rightarrow> error + grid3" where
  "grid_set grid x y z v =
     (case js_index grid x of
        None \<Rightarrow> Inl TypeError
      | Some plane \<Rightarrow>
          (case js_index plane y of
             None \<Rightarrow> Inl TypeError
           | Some col \<Rightarrow> Inr (grid[nat x := plane[nat y := array_set col z v]])))"

section \<open>Rule table\<close>

text \<open>
  \<open>RULE_DEFINITIONS\<close> is an object literal. Its own properties are the nine rules; a
  lookup \<open>RULE_DEFINITIONS[name]\<close> of any other name continues in \<open>Object.prototype\<close>,
  whose properties are functions and objects without \<open>birth\<close> or \<open>survival\<close>.
\<close>

datatype rule_entry = BS "int list" "int list" | Typed string | Inherited

definition RULE_DEFINITIONS :: "(string \<times> rule_entry) list" where
  "RULE_DEFINITIONS =
     [(''conway3d'', BS [5, 6, 7] [4, 5, 6]),
      (''life3d'', BS [4, 5] [5, 6, 7]),
      (''stability'', BS [4, 5, 6, 7] [3, 4, 5, 6]),
      (''crystal'', BS [5, 6, 7, 8] [5, 6, 7, 8]),
      (''pyroclastic'', BS [4, 5, 6, 7] [6, 7, 8]),
      (''diamoeba3d'', BS [5, 6, 7, 8] [5, 6, 7, 8, 9, 10]),
      (''hyper'', BS [5, 6, 7] [5, 6, 7, 8, 9, 10]),
      (''briansbrain3d'', Typed ''special''),
      (''checkerboard'', Typed ''static'')]"

definition object_prototype_names :: "string list" where
  "object_prototype_names =
     [''constructor'', ''__proto__'', ''hasOwnProperty'', ''isPrototypeOf'',
      ''propertyIsEnumerable'', ''toLocaleString'', ''toString'', ''valueOf'',
      ''__defineGetter__'', ''__defineSetter__'', ''__lookupGetter__'',
      ''__lookupSetter__'']"

text \<open>\<open>RULE_DEFINITIONS[ruleName]\<close>: \<open>None\<close> is \<open>undefined\<close>.\<close>

definition rule_lookup :: "string \<Rightarrow> rule_entry option" where
  "rule_lookup ruleName =
     (case map_of RULE_DEFINITIONS ruleName of
        Some r \<Rightarrow> Some r
      | None \<Rightarrow> if ruleName \<in> set object_prototype_names then Some Inherited else None)"

text \<open>\<open>RULE_DEFINITIONS[ruleName] || RULE_DEFINITIONS.conway3d\<close>: every entry found is
  an object or a function, hence truthy.\<close>

definition resolve_rule :: "string \<Rightarrow> rule_entry" where
  "resolve_rule ruleName =
     (case rule_lookup ruleName of Some r \<Rightarrow> r | None \<Rightarrow> BS [5, 6, 7] [4, 5, 6])"

text \<open>\<open>rule.birth\<close> and \<open>rule.survival\<close>: \<open>None\<close> is \<open>undefined\<close>.\<close>

fun rule_birth :: "rule_entry \<Rightarrow> int list option" where
  "rule_birth (BS b s) = Some b"
| "rule_birth (Typed t) = None"
| "rule_birth Inherited = None"

fun rule_survival :: "rule_entry \<Rightarrow> int list option" where
  "rule_survival (BS b s) = Some s"
| "rule_survival (Typed t) = None"
| "rule_survival Inherited = None"

text \<open>\<open>xs.includes(n)\<close>; on \<open>undefined\<close> the method call throws.\<close>

definition js_includes :: "int list option \<Rightarrow> int \<Rightarrow> error + bool" where
  "js_includes xs n = (case xs of None \<Rightarrow> Inl TypeError | Some ys \<Rightarrow> Inr (n \<in> set ys))"

section \<open>CPU reference engine\<close>

definition createEmpty3DGrid :: "nat \<Rightarrow> nat \<Rightarrow> nat \<Rightarrow> grid3" where
  "createEmpty3DGrid sizeX sizeY sizeZ =
     replicate sizeX (replicate sizeY (replicate sizeZ (Num 0)))"

text \<open>\<open>grid.length\<close>, \<open>grid[0].length\<close>, \<open>grid[0][0].length\<close>.\<close>

definition dims :: "grid3 \<Rightarrow> error + (nat \<times> nat \<times> nat)" where
  "dims grid =
     (case grid of
        [] \<Rightarrow> Inl TypeError
      | plane # _ \<Rightarrow>
          (case plane of
             [] \<Rightarrow> Inl TypeError
           | col # _ \<Rightarrow> Inr (length grid, length plane, length col)))"

text \<open>The 26-neighbour loop, written out twice in the source (in
  \<open>countLiveNeighbors3D\<close> and inside \<open>calculateBriansBrain3D\<close>) with the same body.\<close>

definition neighbor_loop :: "grid3 \<Rightarrow> nat \<times> nat \<times> nat \<Rightarrow> int \<Rightarrow> int \<Rightarrow> int \<Rightarrow> error + int" where
  "neighbor_loop grid sz x y z =
     (case sz of (sizeX, sizeY, sizeZ) \<Rightarrow>
        for_loop [-1, 0, 1] (\<lambda>dx.
          for_loop [-1, 0, 1] (\<lambda>dy.
            for_loop [-1, 0, 1] (\<lambda>dz count.
              if dx = 0 \<and> dy = 0 \<and> dz = 0 then Inr count
              else
                bindE (grid_get grid
                         (js_rem (x + dx + int sizeX) (int sizeX))
                         (js_rem (y + dy + int sizeY) (int sizeY))
                         (js_rem (z + dz + int sizeZ) (int sizeZ)))
                  (\<lambda>v. Inr (if v = Num 1 then count + 1 else count))))) 0)"

definition countLiveNeighbors3D :: "grid3 \<Rightarrow> int \<Rightarrow> int \<Rightarrow> int \<Rightarrow> error + int" where
  "countLiveNeighbors3D grid x y z = bindE (dims grid) (\<lambda>sz. neighbor_loop grid sz x y z)"

text \<open>The triple loop over all cells that every step function uses: \<open>cell x y z\<close>
  computes the value stored into \<open>nextGrid[x][y][z]\<close>, or \<open>None\<close> when the source makes
  no assignment for this cell.\<close>

definition fill_grid ::
  "nat \<times> nat \<times> nat \<Rightarrow> (int \<Rightarrow> int \<Rightarrow> int \<Rightarrow> error + jsval option) \<Rightarrow> grid3 \<Rightarrow> error + grid3" where
  "fill_grid sz cell nextGrid =
     (case sz of (sizeX, sizeY, sizeZ) \<Rightarrow>
        for_loop (range0 sizeX) (\<lambda>x.
          for_loop (range0 sizeY) (\<lambda>y.
            for_loop (range0 sizeZ) (\<lambda>z ng.
              bindE (cell x y z) (\<lambda>r.
                case r of None \<Rightarrow> Inr ng | Some v \<Rightarrow> grid_set ng x y z v)))) nextGrid)"

definition calculateBriansBrain3D :: "grid3 \<Rightarrow> error + grid3" where
  "calculateBriansBrain3D currentGrid =
     bindE (dims currentGrid) (\<lambda>sz.
       case sz of (sizeX, sizeY, sizeZ) \<Rightarrow>
         fill_grid sz
           (\<lambda>x y z.
              bindE (grid_get currentGrid x y z) (\<lambda>cellState.
                if cellState = Num 0 then
                  bindE (neighbor_loop currentGrid sz x y z) (\<lambda>onNeighbors.
                    Inr (Some (if onNeighbors = 2 then Num 1 else Num 0)))
                else if cellState = Num 1 then Inr (Some (Num 2))
                else if cellState = Num 2 then Inr (Some (Num 0))
                else Inr None))
           (createEmpty3DGrid sizeX sizeY sizeZ))"

text \<open>The guard at the head of every step function. \<open>None\<close> is a \<open>null\<close> grid; arrays
  are truthy, so \<open>!currentGrid[0]\<close> holds only when the element is missing.\<close>

fun invalid_grid :: "grid3 option \<Rightarrow> bool" where
  "invalid_grid None = True"
| "invalid_grid (Some []) = True"
| "invalid_grid (Some ([] # _)) = True"
| "invalid_grid (Some (([] # _) # _)) = True"
| "invalid_grid (Some (((_ # _) # _) # _)) = False"

definition calculateNextGeneration3D :: "grid3 option \<Rightarrow> string \<Rightarrow> error + grid3" where
  "calculateNextGeneration3D currentGrid ruleName =
     (if invalid_grid currentGrid then Inr (createEmpty3DGrid 1 1 1)
      else
        let grid = the currentGrid in
        if ruleName = ''briansbrain3d'' then calculateBriansBrain3D grid
        else if ruleName = ''checkerboard'' then
          bindE (dims grid) (\<lambda>sz.
            case sz of (sizeX, sizeY, sizeZ) \<Rightarrow>
              fill_grid sz
                (\<lambda>x y z. bindE (grid_get grid x y z) (\<lambda>v. Inr (Some v)))
                (createEmpty3DGrid sizeX sizeY sizeZ))
        else
          let rule = resolve_rule ruleName;
              birth = rule_birth rule;
              survival = rule_survival rule
          in
          bindE (dims grid) (\<lambda>sz.
            case sz of (sizeX, sizeY, sizeZ) \<Rightarrow>
              fill_grid sz
                (\<lambda>x y z.
                   bindE (countLiveNeighbors3D grid x y z) (\<lambda>liveNeighbors.
                     bindE (grid_get grid x y z) (\<lambda>c.
                       if c = Num 1 then
                         bindE (js_includes survival liveNeighbors) (\<lambda>b.
                           Inr (Some (if b then Num 1 else Num 0)))
                       else
                         bindE (js_includes birth liveNeighbors) (\<lambda>b.
                           Inr (Some (if b then Num 1 else Num 0))))))
                (createEmpty3DGrid sizeX sizeY sizeZ)))"



section \<open>Grids as tables\<close>

text \<open>A grid is rectangular with dimensions \<open>sx\<close>, \<open>sy\<close>, \<open>sz\<close>: \<open>sx\<close> planes of \<open>sy\<close>
  columns of \<open>sz\<close> cells.\<close>

definition rect :: "grid3 \<Rightarrow> nat \<Rightarrow> nat \<Rightarrow> nat \<Rightarrow> bool" where
  "rect g sx sy sz =
     (length g = sx \<and> (\<forall>p \<in> set g. length p = sy \<and> (\<forall>c \<in> set p. length c = sz)))"

text \<open>The coordinates that the loop nests of the step functions visit.\<close>

definition in_range :: "nat \<Rightarrow> nat \<Rightarrow> nat \<Rightarrow> int \<Rightarrow> int \<Rightarrow> int \<Rightarrow> bool" where
  "in_range sx sy sz x y z = (0 \<le> x \<and> x < int sx \<and> 0 \<le> y \<and> y < int sy \<and> 0 \<le> z \<and> z < int sz)"

text \<open>\<open>grid[x][y][z]\<close> for coordinates in range.\<close>

definition cell_of :: "grid3 \<Rightarrow> int \<Rightarrow> int \<Rightarrow> int \<Rightarrow> jsval" where
  "cell_of g x y z = g ! nat x ! nat y ! nat z"

text \<open>The rectangular grid whose cell (x,y,z) is \<open>F x y z\<close>.\<close>

definition tab3 :: "nat \<Rightarrow> nat \<Rightarrow> nat \<Rightarrow> (int \<Rightarrow> int \<Rightarrow> int \<Rightarrow> jsval) \<Rightarrow> grid3" where
  "tab3 sx sy sz F =
     map (\<lambda>x. map (\<lambda>y. map (\<lambda>z. F (int x) (int y) (int z)) [0..<sz]) [0..<sy]) [0..<sx]"

text \<open>The content of a cell of the fresh result grid after the loop body has run for it:
  the value assigned, or the initial 0 when the body assigned nothing.\<close>

definition written :: "jsval option \<Rightarrow> jsval" where
  "written r = (case r of None \<Rightarrow> Num 0 | Some v \<Rightarrow> v)"

text \<open>Rectangular with no axis of length 0.\<close>

definition valid_grid :: "grid3 \<Rightarrow> nat \<Rightarrow> nat \<Rightarrow> nat \<Rightarrow> bool" where
  "valid_grid g sx sy sz = (rect g sx sy sz \<and> 0 < sx \<and> 0 < sy \<and> 0 < sz)"

text \<open>The 26 offsets of the Moore neighbourhood, in the order of the loop nest
  \<open>dx\<close>, \<open>dy\<close>, \<open>dz\<close> of \<open>countLiveNeighbors3D\<close>, the offset (0,0,0) skipped.\<close>

definition neighbor_offsets :: "(int \<times> int \<times> int) list" where
  "neighbor_offsets =
     filter (\<lambda>(dx, dy, dz). \<not> (dx = 0 \<and> dy = 0 \<and> dz = 0))
       (List.product [-1, 0, 1] (List.product [-1, 0, 1] [-1, 0, 1]))"

text \<open>The cell reached from (x,y,z) by an offset, with wraparound on every axis, has
  value 1.\<close>

definition wrapped_alive ::
  "grid3 \<Rightarrow> nat \<Rightarrow> nat \<Rightarrow> nat \<Rightarrow> int \<Rightarrow> int \<Rightarrow> int \<Rightarrow> int \<times> int \<times> int \<Rightarrow> bool" where
  "wrapped_alive g sx sy sz x y z d =
     (case d of (dx, dy, dz) \<Rightarrow>
        cell_of g ((x + dx) mod int sx) ((y + dy) mod int sy) ((z + dz) mod int sz) = Num 1)"

text \<open>The toroidal neighbour count as the specification words it: the number of offsets
  whose wrapped cell has value 1.\<close>

definition toroidal_live_count :: "grid3 \<Rightarrow> nat \<Rightarrow> nat \<Rightarrow> nat \<Rightarrow> int \<Rightarrow> int \<Rightarrow> int \<Rightarrow> int" where
  "toroidal_live_count g sx sy sz x y z =
     int (length (filter (wrapped_alive g sx sy sz x y z) neighbor_offsets))"

text \<open>What one round of the loop nest of \<open>countLiveNeighbors3D\<close> adds to the count.\<close>

definition neighbor_weight ::
  "grid3 \<Rightarrow> nat \<Rightarrow> nat \<Rightarrow> nat \<Rightarrow> int \<Rightarrow> int \<Rightarrow> int \<Rightarrow> int \<Rightarrow> int \<Rightarrow> int \<Rightarrow> int" where
  "neighbor_weight g sx sy sz x y z dx dy dz =
     (if dx = 0 \<and> dy = 0 \<and> dz = 0 then 0
      else if wrapped_alive g sx sy sz x y z (dx, dy, dz) then 1 else 0)"

text \<open>The birth/survival rule on one cell with neighbour count \<open>n\<close>: a cell with value 1
  stays 1 iff \<open>n\<close> is a survival count, any other cell becomes 1 iff \<open>n\<close> is a birth
  count.\<close>

definition bs_next :: "int list \<Rightarrow> int list \<Rightarrow> jsval \<Rightarrow> int \<Rightarrow> jsval" where
  "bs_next birth survival c n =
     (if c = Num 1 then (if n \<in> set survival then Num 1 else Num 0)
      else (if n \<in> set birth then Num 1 else Num 0))"

text \<open>The three-state rule on one cell: 0 becomes 1 on exactly two neighbours with value
  1, 1 becomes 2, anything else becomes 0.\<close>

definition brain_next :: "jsval \<Rightarrow> int \<Rightarrow> jsval" where
  "brain_next c n =
     (if c = Num 0 then (if n = 2 then Num 1 else Num 0)
      else if c = Num 1 then Num 2
      else Num 0)"


text \<open>The cells of an n x n x n grid that some offset reaches from the corner (0,0,0) with
  wraparound.\<close>

definition reachable_from_corner :: "nat \<Rightarrow> int \<Rightarrow> int \<Rightarrow> int \<Rightarrow> bool" where
  "reachable_from_corner n x y z =
     (\<exists>d \<in> set neighbor_offsets.
        case d of (dx, dy, dz) \<Rightarrow> x = dx mod int n \<and> y = dy mod int n \<and> z = dz mod int n)"

text \<open>The coordinate that the offset \<open>d\<close> reaches from coordinate 0 on an axis of length
  \<open>n\<close>, for \<open>n\<close> at least 2.\<close>

definition near_corner :: "nat \<Rightarrow> int \<Rightarrow> int" where
  "near_corner n d = (if d = - 1 then int n - 1 else d)"

text \<open>The n x n x n grid whose only cell with value 1 is the corner (0,0,0).\<close>

definition corner_grid :: "nat \<Rightarrow> grid3" where
  "corner_grid n = tab3 n n n (\<lambda>x y z. if x = 0 \<and> y = 0 \<and> z = 0 then Num 1 else Num 0)"


section \<open>Seeding the grid\<close>

text \<open>A parameter with a default value: \<open>None\<close> is an omitted (or \<open>undefined\<close>)
  argument.\<close>

definition js_default :: "'a \<Rightarrow> 'a option \<Rightarrow> 'a" where
  "js_default d a = (case a of None \<Rightarrow> d | Some v \<Rightarrow> v)"

text \<open>The three axis lines through the centre, written twice in \<open>createInitial3DGrid\<close>
  (for the pattern \<open>cross\<close> and for the composite pattern) with the same body.\<close>

definition cross_lines :: "grid3 \<Rightarrow> int \<Rightarrow> int \<Rightarrow> int \<Rightarrow> int list \<Rightarrow> error + grid3" where
  "cross_lines grid centerX centerY centerZ arm =
     for_loop arm (\<lambda>i g0.
       bindE (grid_set g0 (centerX + i) centerY centerZ (Num 1)) (\<lambda>g1.
         bindE (grid_set g1 centerX (centerY + i) centerZ (Num 1)) (\<lambda>g2.
           grid_set g2 centerX centerY (centerZ + i) (Num 1)))) grid"

text \<open>\<open>Math.random()\<close> is a parameter: \<open>random k\<close> is the value of the \<open>k\<close>-th call. The
  loop state carries the grid and the number of calls made so far.\<close>

definition random_cell ::
  "(nat \<Rightarrow> real) \<Rightarrow> int \<Rightarrow> int \<Rightarrow> int \<Rightarrow> grid3 \<times> nat \<Rightarrow> error + grid3 \<times> nat" where
  "random_cell random x y z s =
     (case s of (g, k) \<Rightarrow>
        if random k < 0.3 then bindE (grid_set g x y z (Num 1)) (\<lambda>g'. Inr (g', Suc k))
        else Inr (g, Suc k))"

text \<open>
  \<open>createInitial3DGrid(sizeX, sizeY, sizeZ, pattern)\<close>, the same text in all four engine
  modules. The sizes are natural numbers; \<open>Math.sqrt\<close> and the comparison with the radius
  are taken over the reals. The loop that closes the function only counts the cells equal
  to 1 for a log line: it reads \<open>grid[x][y][z]\<close> for \<open>x < sizeX\<close> and \<open>y < sizeY\<close>, and no
  branch changes the number of planes or of columns, so it cannot throw and is left out.
\<close>

definition createInitial3DGrid ::
  "(nat \<Rightarrow> real) \<Rightarrow> nat \<Rightarrow> nat \<Rightarrow> nat \<Rightarrow> string option \<Rightarrow> error + grid3" where
  "createInitial3DGrid random sizeX sizeY sizeZ pattern_arg =
     (let pattern = js_default ''checkerboard'' pattern_arg;
          grid = createEmpty3DGrid sizeX sizeY sizeZ;
          centerX = int sizeX div 2;
          centerY = int sizeY div 2;
          centerZ = int sizeZ div 2
      in
      if pattern = ''checkerboard'' \<or> pattern = ''default'' then
        fill_grid (sizeX, sizeY, sizeZ)
          (\<lambda>x y z. Inr (if js_rem (x + y + z) 2 = 0 then Some (Num 1) else None)) grid
      else if pattern = ''cross'' then
        (let arm = min 3 (int sizeX div 4)
         in cross_lines grid centerX centerY centerZ [- arm..arm])
      else if pattern = ''random'' then
        bindE (for_loop (range0 sizeX) (\<lambda>x.
                 for_loop (range0 sizeY) (\<lambda>y.
                   for_loop (range0 sizeZ) (\<lambda>z. random_cell random x y z))) (grid, 0))
          (\<lambda>s. Inr (fst s))
      else if pattern = ''sphere'' then
        (let radius = real (min sizeX (min sizeY sizeZ)) / 4
         in fill_grid (sizeX, sizeY, sizeZ)
              (\<lambda>x y z.
                 let dx = x - centerX; dy = y - centerY; dz = z - centerZ;
                     distance = sqrt (real_of_int (dx * dx + dy * dy + dz * dz))
                 in Inr (if \<bar>distance - radius\<bar> < 0.8 then Some (Num 1) else None))
              grid)
      else
        bindE (cross_lines grid centerX centerY centerZ [-2, -1, 0, 1, 2]) (\<lambda>g1.
          bindE (for_loop [-1, 0, 1] (\<lambda>x.
                   for_loop [-1, 0, 1] (\<lambda>y.
                     for_loop [-1, 0, 1] (\<lambda>z g.
                       if \<bar>x\<bar> + \<bar>y\<bar> + \<bar>z\<bar> \<ge> 2
                       then grid_set g (centerX + x) (centerY + y) (centerZ + z) (Num 1)
                       else Inr g))) g1) (\<lambda>g2.
            bindE (for_loop [centerX - 4..centerX + 4] (\<lambda>x.
                     for_loop [centerY - 4..centerY + 4] (\<lambda>y.
                       for_loop [centerZ - 4..centerZ + 4] (\<lambda>z s.
                         if x \<ge> 0 \<and> x < int sizeX \<and> y \<ge> 0 \<and> y < int sizeY \<and>
                            z \<ge> 0 \<and> z < int sizeZ
                         then random_cell random x y z s
                         else Inr s))) (g2, 0))
              (\<lambda>s. Inr (fst s)))))"

text \<open>A \<open>Math.random\<close> that returns the same value at every call.\<close>

definition fixed_random :: "real \<Rightarrow> nat \<Rightarrow> real" where
  "fixed_random r k = r"


section \<open>Marshalling to the engines' flat buffers\<close>

text \<open>Storing a value into a \<open>Uint32Array\<close> or a \<open>Uint8Array\<close> reduces an integer modulo
  the element's range; \<open>undefined\<close>, \<open>NaN\<close> and the infinities are stored as 0.\<close>

fun to_uint32 :: "jsval \<Rightarrow> nat" where
  "to_uint32 (Num n) = nat (n mod 2 ^ 32)"
| "to_uint32 Undefined = 0"
| "to_uint32 NaN = 0"
| "to_uint32 (Infinity s) = 0"

fun to_uint8 :: "jsval \<Rightarrow> nat" where
  "to_uint8 (Num n) = nat (n mod 256)"
| "to_uint8 Undefined = 0"
| "to_uint8 NaN = 0"
| "to_uint8 (Infinity s) = 0"

text \<open>\<open>v * k\<close> for an integer constant \<open>k\<close>.\<close>

fun js_times :: "jsval \<Rightarrow> int \<Rightarrow> jsval" where
  "js_times (Num n) k = Num (n * k)"
| "js_times Undefined k = NaN"
| "js_times NaN k = NaN"
| "js_times (Infinity s) k = (if k = 0 then NaN else Infinity (s = (0 < k)))"

text \<open>
  A 32-bit float: \<open>NaN\<close>, an infinity (\<open>FInf True\<close> is the positive one), or a finite
  number, given by the rational it denotes. Zero and negative zero are one value: they
  compare equal and round to values that compare equal.
\<close>

datatype f32 = FNaN | FInf bool | Fl rat

text \<open>
  The spacings of the finite 32-bit floats, in ascending order: \<open>2 ^ -149\<close> for the
  subnormal numbers and the first binade, doubling with every binade up to \<open>2 ^ 104\<close>.
  A magnitude below \<open>u * 2 ^ 24\<close> and not below the bound of the spacing before is
  rounded to a multiple of \<open>u\<close>.
\<close>

definition f32_ulps :: "rat list" where
  "f32_ulps = map (\<lambda>k. if k \<le> 149 then 1 / 2 ^ (149 - k) else 2 ^ (k - 149)) [0..<254]"

text \<open>
  Rounding a number to the nearest 32-bit float, ties to the even significand (IEEE 754
  \<open>roundTiesToEven\<close>, the conversion a store into a \<open>Float32Array\<close> performs and the
  rounding of every 32-bit operation). A result of magnitude \<open>2 ^ 128\<close> is an infinity.
\<close>

definition f32_round :: "rat \<Rightarrow> f32" where
  "f32_round x =
     (case find (\<lambda>u. \<bar>x\<bar> < u * 2 ^ 24) f32_ulps of
        None \<Rightarrow> FInf (0 < x)
      | Some u \<Rightarrow>
          let q = \<bar>x\<bar> / u;
              n = \<lfloor>q\<rfloor>;
              m = (if q - of_int n > 1 / 2 \<or> (q - of_int n = 1 / 2 \<and> odd n) then n + 1 else n)
          in if of_int m * u \<ge> 2 ^ 128 then FInf (0 < x) else Fl (sgn x * (of_int m * u)))"

text \<open>Storing a cell into a \<open>Float32Array\<close>.\<close>

fun to_float32 :: "jsval \<Rightarrow> f32" where
  "to_float32 (Num n) = f32_round (of_int n)"
| "to_float32 Undefined = FNaN"
| "to_float32 NaN = FNaN"
| "to_float32 (Infinity s) = FInf s"

text \<open>The compute-buffer engine (\<open>setupBuffers\<close>, and again in
  \<open>computeNextGenerationWebGPU\<close>): \<open>cellStateArray[cellIndex++] = grid[x][y][z]\<close> in the
  loop nest z, y, x.\<close>

definition webgpu_cell_data :: "grid3 \<Rightarrow> nat \<times> nat \<times> nat \<Rightarrow> error + nat list" where
  "webgpu_cell_data grid gridSize =
     (case gridSize of (sizeX, sizeY, sizeZ) \<Rightarrow>
        bindE (for_loop (range0 sizeZ) (\<lambda>z.
                 for_loop (range0 sizeY) (\<lambda>y.
                   for_loop (range0 sizeX) (\<lambda>x s.
                     case s of (cellStateArray, cellIndex) \<Rightarrow>
                       bindE (grid_get grid x y z) (\<lambda>v.
                         Inr (cellStateArray[cellIndex := to_uint32 v], Suc cellIndex)))))
                (replicate (sizeX * sizeY * sizeZ) 0, 0))
          (\<lambda>s. Inr (fst s)))"

text \<open>The tensor engine (\<open>initialize\<close>, and again in \<open>updateGrid\<close>):
  \<open>flatData[i++] = gridData[x][y][z]\<close> in the loop nest x, y, z.\<close>

definition tf_flat_data :: "grid3 \<Rightarrow> nat \<times> nat \<times> nat \<Rightarrow> error + f32 list" where
  "tf_flat_data gridData sz =
     (case sz of (sizeX, sizeY, sizeZ) \<Rightarrow>
        bindE (for_loop (range0 sizeX) (\<lambda>x.
                 for_loop (range0 sizeY) (\<lambda>y.
                   for_loop (range0 sizeZ) (\<lambda>z s.
                     case s of (flatData, i) \<Rightarrow>
                       bindE (grid_get gridData x y z) (\<lambda>v.
                         Inr (flatData[i := to_float32 v], Suc i)))))
                (replicate (sizeX * sizeY * sizeZ) (Fl 0), 0))
          (\<lambda>s. Inr (fst s)))"

text \<open>The texture engine (\<open>initialize\<close>, and again in \<open>calculateNextGeneration3DGPU\<close>):
  four bytes per cell at \<open>index = (z * sliceSize + y * sizeX + x) * 4\<close>, the state times
  255 in the red channel.\<close>

definition texture_data :: "grid3 \<Rightarrow> nat \<times> nat \<times> nat \<Rightarrow> error + nat list" where
  "texture_data gridData sz =
     (case sz of (sizeX, sizeY, sizeZ) \<Rightarrow>
        let totalSize = sizeX * sizeY * sizeZ; sliceSize = sizeX * sizeY in
        for_loop (range0 sizeZ) (\<lambda>z.
          for_loop (range0 sizeY) (\<lambda>y.
            for_loop (range0 sizeX) (\<lambda>x data.
              let index = nat ((z * int sliceSize + y * int sizeX + x) * 4) in
              bindE (grid_get gridData x y z) (\<lambda>v.
                Inr (data[index := to_uint8 (js_times v 255),
                          index + 1 := 0, index + 2 := 0, index + 3 := 255])))))
          (replicate (totalSize * 4) 0))"

text \<open>The list that a loop nest \<open>a\<close>, \<open>b\<close>, \<open>c\<close> with a running index fills: \<open>val a b c\<close> at
  position \<open>a * nb * nc + b * nc + c\<close>.\<close>

definition flat3 :: "nat \<Rightarrow> nat \<Rightarrow> nat \<Rightarrow> (int \<Rightarrow> int \<Rightarrow> int \<Rightarrow> 'a) \<Rightarrow> 'a list" where
  "flat3 na nb nc val =
     concat (map (\<lambda>a. concat (map (\<lambda>b. map (val a b) (range0 nc)) (range0 nb))) (range0 na))"


text \<open>The two flat orders of a cell: z-major (\<open>z * sizeY * sizeX + y * sizeX + x\<close>) and
  x-major (\<open>x * sizeY * sizeZ + y * sizeZ + z\<close>).\<close>

definition z_major_index :: "nat \<Rightarrow> nat \<Rightarrow> int \<Rightarrow> int \<Rightarrow> int \<Rightarrow> nat" where
  "z_major_index sizeX sizeY x y z = nat z * sizeY * sizeX + nat y * sizeX + nat x"

definition x_major_index :: "nat \<Rightarrow> nat \<Rightarrow> int \<Rightarrow> int \<Rightarrow> int \<Rightarrow> nat" where
  "x_major_index sizeY sizeZ x y z = nat x * sizeY * sizeZ + nat y * sizeZ + nat z"


section \<open>Texture-encoded engine: the host side\<close>

text \<open>
  The fragment shaders run on the GPU. What the host hands to a render pass is the shader
  selected, its rule uniforms, the grid dimensions and the bytes of the source texture; what
  it gets back from \<open>readRenderTargetPixels\<close> is a byte buffer. The pass is a parameter
  \<open>gpu\<close> of the model, so every statement below holds for whatever the shaders compute.
\<close>

datatype shader = StandardShader "int list" "int list" | BriansBrainShader | CopyShader

text \<open>\<open>setRule\<close>: the 8-element uniform arrays, indexed by the neighbour count minus 3.
  \<open>birth.join\<close> in the log line throws when \<open>birth\<close> is \<open>undefined\<close>.\<close>

definition rule_uniform :: "int list \<Rightarrow> int list" where
  "rule_uniform vs =
     fold (\<lambda>v arr. if v \<ge> 3 \<and> v \<le> 10 then arr[nat (v - 3) := 1] else arr) vs
       [0, 0, 0, 0, 0, 0, 0, 0]"

definition setRule :: "string \<Rightarrow> error + shader" where
  "setRule ruleName =
     (let rule = resolve_rule ruleName in
      case (rule_birth rule, rule_survival rule) of
        (Some birth, Some survival) \<Rightarrow>
          Inr (StandardShader (rule_uniform birth) (rule_uniform survival))
      | _ \<Rightarrow> Inl TypeError)"

text \<open>The read-back loop of \<open>computeNextGeneration\<close>: a byte above 127 is a 1, any other
  byte (and a missing one) a 0.\<close>

definition gpu_read_back :: "nat \<times> nat \<times> nat \<Rightarrow> nat list \<Rightarrow> error + grid3" where
  "gpu_read_back sz pixelBuffer =
     (case sz of (sizeX, sizeY, sizeZ) \<Rightarrow>
        let sliceSize = sizeX * sizeY in
        for_loop (range0 sizeZ) (\<lambda>z.
          for_loop (range0 sizeY) (\<lambda>y.
            for_loop (range0 sizeX) (\<lambda>x result.
              let index = (z * int sliceSize + y * int sizeX + x) * 4 in
              grid_set result x y z
                (case js_index pixelBuffer index of
                   Some b \<Rightarrow> if b > 127 then Num 1 else Num 0
                 | None \<Rightarrow> Num 0))))
          (createEmpty3DGrid sizeX sizeY sizeZ))"

definition gpu_computeNextGeneration ::
  "(shader \<Rightarrow> nat \<times> nat \<times> nat \<Rightarrow> nat list \<Rightarrow> nat list) \<Rightarrow> string \<Rightarrow> nat \<times> nat \<times> nat \<Rightarrow>
     nat list \<Rightarrow> error + grid3" where
  "gpu_computeNextGeneration gpu currentRule sz texture =
     bindE (if currentRule = ''briansbrain3d'' then Inr BriansBrainShader
            else if currentRule = ''checkerboard'' then Inr CopyShader
            else setRule currentRule)
       (\<lambda>material. gpu_read_back sz (gpu material sz texture))"

definition calculateNextGeneration3DGPU ::
  "(shader \<Rightarrow> nat \<times> nat \<times> nat \<Rightarrow> nat list \<Rightarrow> nat list) \<Rightarrow> grid3 option \<Rightarrow> string \<Rightarrow>
     error + grid3" where
  "calculateNextGeneration3DGPU gpu currentGrid ruleName =
     (if invalid_grid currentGrid then Inr (createEmpty3DGrid 1 1 1)
      else
        let grid = the currentGrid in
        bindE (dims grid) (\<lambda>sz.
          bindE (texture_data grid sz) (\<lambda>data.
            gpu_computeNextGeneration gpu ruleName sz data)))"

section \<open>Tensor-convolution engine\<close>

text \<open>Float operations. A sum or product of finite numbers is the exact result rounded
  to a 32-bit float; an infinity absorbs finite numbers, and the sum of opposite infinities
  and the product of an infinity with zero are \<open>NaN\<close>; \<open>NaN\<close> propagates through sums and
  products and fails every comparison. The comparisons are with the scalars of the source
  (0.25, 0.5, 0.75 and the counts 0 to 26), all of them 32-bit floats.\<close>

fun fadd :: "f32 \<Rightarrow> f32 \<Rightarrow> f32" where
  "fadd (Fl a) (Fl b) = f32_round (a + b)"
| "fadd (Fl a) (FInf s) = FInf s"
| "fadd (FInf s) (Fl b) = FInf s"
| "fadd (FInf s) (FInf t) = (if s = t then FInf s else FNaN)"
| "fadd FNaN _ = FNaN"
| "fadd _ FNaN = FNaN"

fun fmul :: "f32 \<Rightarrow> f32 \<Rightarrow> f32" where
  "fmul (Fl a) (Fl b) = f32_round (a * b)"
| "fmul (Fl a) (FInf s) = (if a = 0 then FNaN else FInf (s = (0 < a)))"
| "fmul (FInf s) (Fl b) = (if b = 0 then FNaN else FInf (s = (0 < b)))"
| "fmul (FInf s) (FInf t) = FInf (s = t)"
| "fmul FNaN _ = FNaN"
| "fmul _ FNaN = FNaN"

fun fgreater :: "f32 \<Rightarrow> rat \<Rightarrow> bool" where
  "fgreater (Fl a) c = (a > c)"
| "fgreater (FInf s) c = s"
| "fgreater FNaN c = False"

fun fless :: "f32 \<Rightarrow> rat \<Rightarrow> bool" where
  "fless (Fl a) c = (a < c)"
| "fless (FInf s) c = (\<not> s)"
| "fless FNaN c = False"

fun fequal :: "f32 \<Rightarrow> rat \<Rightarrow> bool" where
  "fequal (Fl a) c = (a = c)"
| "fequal (FInf s) c = False"
| "fequal FNaN c = False"

text \<open>\<open>Math.round\<close>: the nearest integer, halves upwards; an infinity stays.\<close>

fun js_round :: "f32 \<Rightarrow> jsval" where
  "js_round (Fl a) = Num \<lfloor>a + 1 / 2\<rfloor>"
| "js_round (FInf s) = Infinity s"
| "js_round FNaN = NaN"

text \<open>A rank-3 tensor: its shape and its values in row-major order, as
  \<open>tf.tensor3d(flatData, [sizeX, sizeY, sizeZ])\<close> builds it.\<close>

record tensor3 =
  shape :: "nat \<times> nat \<times> nat"
  vals :: "f32 list"

text \<open>Elementwise tensor operations; a boolean tensor is a list of truth values.\<close>

definition tf_greater :: "f32 list \<Rightarrow> rat \<Rightarrow> bool list" where
  "tf_greater t c = map (\<lambda>v. fgreater v c) t"

definition tf_less :: "f32 list \<Rightarrow> rat \<Rightarrow> bool list" where
  "tf_less t c = map (\<lambda>v. fless v c) t"

definition tf_equal :: "f32 list \<Rightarrow> rat \<Rightarrow> bool list" where
  "tf_equal t c = map (\<lambda>v. fequal v c) t"

definition tf_logicalAnd :: "bool list \<Rightarrow> bool list \<Rightarrow> bool list" where
  "tf_logicalAnd a b = map2 (\<and>) a b"

text \<open>\<open>mask.mul(tf.scalar(c))\<close>: the mask is cast to 1 and 0.\<close>

definition tf_mul_scalar :: "bool list \<Rightarrow> rat \<Rightarrow> f32 list" where
  "tf_mul_scalar msk c = map (\<lambda>b. fmul (Fl (if b then 1 else 0)) (Fl c)) msk"

definition tf_add :: "f32 list \<Rightarrow> f32 list \<Rightarrow> f32 list" where
  "tf_add a b = map2 fadd a b"

text \<open>\<open>createConvolutionKernel\<close>: 27 weights, all 1 except the centre.\<close>

definition convKernel :: "f32 list" where
  "convKernel =
     concat (map (\<lambda>x. concat (map (\<lambda>y. map (\<lambda>z.
       if x = 1 \<and> y = 1 \<and> z = 1 then Fl 0 else Fl 1) [0, 1, 2 :: nat]) [0, 1, 2 :: nat]))
       [0, 1, 2 :: nat])"

text \<open>
  \<open>tf.conv3d(x, filter, [1, 1, 1], 'same', 'NDHWC', [1, 1, 1])\<close> on one batch and one
  channel. By the TensorFlow definition of \<open>same\<close> padding, a 3 x 3 x 3 filter with stride
  1 sees one layer of zeros around the input: positions outside the tensor read as 0.
  The 27 products are summed in the order of the filter's elements, every partial sum
  rounded to a 32-bit float; on a grid of cells 0, 1 and 2 every partial sum is exact, so
  there the order of summation makes no difference.
\<close>

definition padded_at :: "tensor3 \<Rightarrow> int \<Rightarrow> int \<Rightarrow> int \<Rightarrow> f32" where
  "padded_at t d h w =
     (case shape t of (sd, sh, sw) \<Rightarrow>
        if 0 \<le> d \<and> d < int sd \<and> 0 \<le> h \<and> h < int sh \<and> 0 \<le> w \<and> w < int sw
        then vals t ! (nat d * sh * sw + nat h * sw + nat w)
        else Fl 0)"

definition conv_at :: "tensor3 \<Rightarrow> f32 list \<Rightarrow> int \<Rightarrow> int \<Rightarrow> int \<Rightarrow> f32" where
  "conv_at t weights d h w =
     fold fadd
       (concat (map (\<lambda>i. concat (map (\<lambda>j. map (\<lambda>k.
          fmul (padded_at t (d + int i - 1) (h + int j - 1) (w + int k - 1))
               (weights ! (i * 9 + j * 3 + k)))
          [0, 1, 2]) [0, 1, 2])) [0, 1, 2]))
       (Fl 0)"

definition conv3d_same :: "tensor3 \<Rightarrow> f32 list \<Rightarrow> f32 list" where
  "conv3d_same t weights =
     (case shape t of (sd, sh, sw) \<Rightarrow>
        concat (map (\<lambda>d. concat (map (\<lambda>h. map (\<lambda>w. conv_at t weights d h w)
          (range0 sw)) (range0 sh))) (range0 sd)))"

text \<open>\<open>birthArray\<close> and \<open>survivalArray\<close> of \<open>processStandardRule\<close>: 27 flags.\<close>

definition rule_flags :: "int list \<Rightarrow> int list" where
  "rule_flags vs =
     fold (\<lambda>v arr. if v \<ge> 0 \<and> v < 27 then arr[nat v := 1] else arr) vs (replicate 27 0)"

definition processStandardRule ::
  "tensor3 \<Rightarrow> int list option \<Rightarrow> int list option \<Rightarrow> error + f32 list" where
  "processStandardRule gridTensor birthValues survivalValues =
     (let neighborCount = conv3d_same gridTensor convKernel;
          currentState = vals gridTensor
      in
      case (birthValues, survivalValues) of
        (Some bv, Some sv) \<Rightarrow>
          let birthArray = rule_flags bv;
              survivalArray = rule_flags sv;
              aliveMask = tf_greater currentState (1 / 2);
              deadMask = tf_less currentState (1 / 2)
          in
          Inr (fold (\<lambda>i newState.
                 let countMask = tf_equal neighborCount (of_nat i);
                     newState1 =
                       (if birthArray ! i > 0
                        then tf_add newState (tf_mul_scalar (tf_logicalAnd deadMask countMask) 1)
                        else newState)
                 in
                 if survivalArray ! i > 0
                 then tf_add newState1 (tf_mul_scalar (tf_logicalAnd aliveMask countMask) 1)
                 else newState1)
               [0..<27] (replicate (length currentState) (Fl 0)))
      | _ \<Rightarrow> Inl TypeError)"

definition processBriansBrainRule :: "tensor3 \<Rightarrow> f32 list" where
  "processBriansBrainRule gridTensor =
     (let neighborCount = conv3d_same gridTensor convKernel;
          currentState = vals gridTensor;
          deadMask = tf_less currentState (1 / 4);
          aliveMask = tf_greater currentState (3 / 4);
          birthNeighborsMask = tf_equal neighborCount 2;
          birthMask = tf_logicalAnd deadMask birthNeighborsMask;
          birthUpdate = tf_mul_scalar birthMask 1;
          dyingUpdate = tf_mul_scalar aliveMask (1 / 2)
      in tf_add birthUpdate dyingUpdate)"

text \<open>\<open>flatData[i]\<close>: a missing element is \<open>undefined\<close>, which compares and rounds as
  \<open>NaN\<close> does.\<close>

definition f32_read :: "f32 list \<Rightarrow> nat \<Rightarrow> f32" where
  "f32_read flatData i = (if i < length flatData then flatData ! i else FNaN)"

text \<open>The read-back loop of the tensor engine's \<open>computeNextGeneration\<close>, in the loop
  nest x, y, z.\<close>

definition tf_read_back :: "string \<Rightarrow> nat \<times> nat \<times> nat \<Rightarrow> f32 list \<Rightarrow> error + grid3" where
  "tf_read_back currentRule sz flatData =
     (case sz of (sizeX, sizeY, sizeZ) \<Rightarrow>
        bindE (for_loop (range0 sizeX) (\<lambda>x.
                 for_loop (range0 sizeY) (\<lambda>y.
                   for_loop (range0 sizeZ) (\<lambda>z s.
                     case s of (result, i) \<Rightarrow>
                       if currentRule = ''briansbrain3d'' then
                         (let value = f32_read flatData i in
                          if fgreater value (3 / 4) then
                            bindE (grid_set result x y z (Num 1)) (\<lambda>r. Inr (r, Suc i))
                          else if fgreater value (1 / 4) then
                            bindE (grid_set result x y z (Num 2)) (\<lambda>r. Inr (r, Suc i))
                          else Inr (result, Suc i))
                       else
                         bindE (grid_set result x y z (js_round (f32_read flatData i)))
                           (\<lambda>r. Inr (r, Suc i)))))
                (createEmpty3DGrid sizeX sizeY sizeZ, 0))
          (\<lambda>s. Inr (fst s)))"

definition tf_computeNextGeneration :: "string \<Rightarrow> tensor3 \<Rightarrow> error + grid3" where
  "tf_computeNextGeneration currentRule gridTensor =
     bindE (if currentRule = ''briansbrain3d'' then Inr (processBriansBrainRule gridTensor)
            else if currentRule = ''checkerboard'' then Inr (vals gridTensor)
            else
              let rule = resolve_rule currentRule
              in processStandardRule gridTensor (rule_birth rule) (rule_survival rule))
       (\<lambda>nextGenTensor. tf_read_back currentRule (shape gridTensor) nextGenTensor)"

definition calculateNextGeneration3DTF :: "grid3 option \<Rightarrow> string \<Rightarrow> error + grid3" where
  "calculateNextGeneration3DTF currentGrid ruleName =
     (if invalid_grid currentGrid then Inr (createEmpty3DGrid 1 1 1)
      else
        let grid = the currentGrid in
        bindE (dims grid) (\<lambda>sz.
          bindE (tf_flat_data grid sz) (\<lambda>flatData.
            tf_computeNextGeneration ruleName \<lparr>shape = sz, vals = flatData\<rparr>)))"



text \<open>What the tensor engine's read-back makes of one flat value.\<close>

definition tf_decode :: "string \<Rightarrow> f32 \<Rightarrow> jsval" where
  "tf_decode currentRule v =
     (if currentRule = ''briansbrain3d''
      then (if fgreater v (3 / 4) then Num 1 else if fgreater v (1 / 4) then Num 2 else Num 0)
      else js_round v)"


text \<open>The read-back loop of \<open>computeNextGenerationWebGPU\<close>:
  \<open>result[x][y][z] = resultData[cellIndex++]\<close> in the loop nest z, y, x.\<close>

definition webgpu_read_back :: "nat \<times> nat \<times> nat \<Rightarrow> nat list \<Rightarrow> error + grid3" where
  "webgpu_read_back gridSize resultData =
     (case gridSize of (sizeX, sizeY, sizeZ) \<Rightarrow>
        bindE (for_loop (range0 sizeZ) (\<lambda>z.
                 for_loop (range0 sizeY) (\<lambda>y.
                   for_loop (range0 sizeX) (\<lambda>x s.
                     case s of (result, cellIndex) \<Rightarrow>
                       bindE (grid_set result x y z
                                (case js_index resultData (int cellIndex) of
                                   Some v \<Rightarrow> Num (int v) | None \<Rightarrow> Undefined))
                         (\<lambda>r. Inr (r, Suc cellIndex)))))
                (createEmpty3DGrid sizeX sizeY sizeZ, 0))
          (\<lambda>s. Inr (fst s)))"

text \<open>What the texture engine's read-back makes of the byte at an index.\<close>

definition gpu_decode :: "nat list \<Rightarrow> nat \<Rightarrow> jsval" where
  "gpu_decode pixelBuffer i =
     (if i < length pixelBuffer \<and> pixelBuffer ! i > 127 then Num 1 else Num 0)"

definition webgpu_decode :: "nat list \<Rightarrow> nat \<Rightarrow> jsval" where
  "webgpu_decode resultData i =
     (if i < length resultData then Num (int (resultData ! i)) else Undefined)"


section \<open>The tensor engine cell by cell\<close>

text \<open>The value \<open>processStandardRule\<close> computes at one position, from the cell's float
  \<open>c\<close> and its convolution sum \<open>n\<close>: the 27 rounds of the loop over \<open>i\<close>.\<close>

definition standard_round :: "int list \<Rightarrow> int list \<Rightarrow> f32 \<Rightarrow> f32 \<Rightarrow> nat \<Rightarrow> f32 \<Rightarrow> f32" where
  "standard_round birthArray survivalArray c n i v =
     (let v1 = (if birthArray ! i > 0
                then fadd v (fmul (Fl (if fless c (1 / 2) \<and> fequal n (of_nat i) then 1 else 0)) (Fl 1))
                else v)
      in if survivalArray ! i > 0
         then fadd v1 (fmul (Fl (if fgreater c (1 / 2) \<and> fequal n (of_nat i) then 1 else 0)) (Fl 1))
         else v1)"

definition standard_value :: "int list \<Rightarrow> int list \<Rightarrow> f32 \<Rightarrow> f32 \<Rightarrow> f32" where
  "standard_value birthArray survivalArray c n =
     fold (standard_round birthArray survivalArray c n) [0..<27] (Fl 0)"

text \<open>The value \<open>processBriansBrainRule\<close> computes at one position.\<close>

definition brain_value :: "f32 \<Rightarrow> f32 \<Rightarrow> f32" where
  "brain_value c n =
     fadd (fmul (Fl (if fless c (1 / 4) \<and> fequal n 2 then 1 else 0)) (Fl 1))
          (fmul (Fl (if fgreater c (3 / 4) then 1 else 0)) (Fl (1 / 2)))"


text \<open>The tensor the tensor engine builds from a grid.\<close>

definition grid_tensor :: "grid3 \<Rightarrow> nat \<Rightarrow> nat \<Rightarrow> nat \<Rightarrow> tensor3" where
  "grid_tensor g sx sy sz =
     \<lparr>shape = (sx, sy, sz), vals = flat3 sx sy sz (\<lambda>x y z. to_float32 (cell_of g x y z))\<rparr>"


text \<open>The cells of the 6 x 6 x 6 sphere shell: squared distance from the centre (3,3,3)
  between 1 and 5.\<close>

definition sphere6_cell :: "int \<Rightarrow> int \<Rightarrow> int \<Rightarrow> jsval" where
  "sphere6_cell x y z =
     (let d2 = (x - 3) * (x - 3) + (y - 3) * (y - 3) + (z - 3) * (z - 3)
      in if 1 \<le> d2 \<and> d2 \<le> 5 then Num 1 else Num 0)"


text \<open>A 4 x 3 x 3 grid with four cells alive in the plane \<open>x = 0\<close>, two in the plane \<open>x = 1\<close>,
  none in the plane \<open>x = 2\<close> and one in the plane \<open>x = 3\<close>.\<close>

definition planes_grid :: grid3 where
  "planes_grid =
     [[[Num 1, Num 1, Num 1], [Num 1, Num 0, Num 0], [Num 0, Num 0, Num 0]],
      [[Num 1, Num 1, Num 0], [Num 0, Num 0, Num 0], [Num 0, Num 0, Num 0]],
      [[Num 0, Num 0, Num 0], [Num 0, Num 0, Num 0], [Num 0, Num 0, Num 0]],
      [[Num 1, Num 0, Num 0], [Num 0, Num 0, Num 0], [Num 0, Num 0, Num 0]]]"

section \<open>Rounding to 32-bit floats\<close>

lemma f32_ulps_nth:
  assumes "i < 254"
  shows "f32_ulps ! i = (if i \<le> 149 then 1 / 2 ^ (149 - i) else 2 ^ (i - 149))"
  using assms by (simp add: f32_ulps_def)

text \<open>A multiple of \<open>2 ^ -j\<close> of magnitude below \<open>2 ^ (24 - j)\<close> is a 32-bit float.\<close>

lemma f32_round_exact:
  assumes j: "j \<le> 149" and b: "\<bar>x\<bar> < 2 ^ 24 / 2 ^ j" and n: "x * 2 ^ j = of_int n"
  shows "f32_round x = Fl x"
proof -
  let ?P = "\<lambda>u. \<bar>x\<bar> < u * 2 ^ 24"
  have l: "length f32_ulps = 254" by (simp add: f32_ulps_def)
  have k: "149 - j < 254" by simp
  have "?P (f32_ulps ! (149 - j))"
    using b j by (simp add: f32_ulps_nth[OF k])
  then have "find ?P f32_ulps \<noteq> None"
    unfolding find_None_iff using k l by (metis nth_mem)
  then obtain u where u: "find ?P f32_ulps = Some u" by auto
  then obtain i where i: "i < 254" "?P (f32_ulps ! i)" "u = f32_ulps ! i"
    "\<forall>k < i. \<not> ?P (f32_ulps ! k)"
    unfolding find_Some_iff l by blast
  have ij: "i \<le> 149 - j"
  proof (rule ccontr)
    assume "\<not> i \<le> 149 - j"
    then have "149 - j < i" by simp
    with i(4) \<open>?P (f32_ulps ! (149 - j))\<close> show False by blast
  qed
  then have uv: "u = 1 / 2 ^ (149 - i)" using i(1,3) by (simp add: f32_ulps_nth)
  have e: "149 - i = j + (149 - i - j)" using ij j by simp
  define k where "k = \<bar>n\<bar> * 2 ^ (149 - i - j)"
  have "\<bar>x\<bar> / u = \<bar>x\<bar> * 2 ^ (149 - i)" by (simp add: uv)
  also have "\<dots> = \<bar>x * 2 ^ j\<bar> * 2 ^ (149 - i - j)"
    by (subst e) (simp add: power_add abs_mult)
  also have "\<dots> = of_int k" by (simp add: n k_def)
  finally have q: "\<bar>x\<bar> / u = of_int k" .
  have upos: "0 < u" by (simp add: uv)
  have bk: "of_int k * u = \<bar>x\<bar>"
    using q upos by (simp add: field_simps)
  have "\<bar>x\<bar> < 2 ^ 24"
  proof -
    have "(2 :: rat) ^ 24 / 2 ^ j \<le> 2 ^ 24" by (simp add: field_simps)
    with b show ?thesis by simp
  qed
  also have "(2 :: rat) ^ 24 < 2 ^ 128" by simp
  finally have small: "\<not> 2 ^ 128 \<le> \<bar>x\<bar>" by simp
  have fl: "\<lfloor>(of_int k :: rat)\<rfloor> = k" by simp
  have m: "(if (of_int k :: rat) - of_int k > 1 / 2 \<or>
               ((of_int k :: rat) - of_int k = 1 / 2 \<and> odd k) then k + 1 else k) = k"
    by simp
  have "f32_round x =
      (if of_int k * u \<ge> 2 ^ 128 then FInf (0 < x) else Fl (sgn x * (of_int k * u)))"
    by (simp only: f32_round_def u option.case q Let_def fl m)
  also have "\<dots> = Fl (sgn x * \<bar>x\<bar>)" by (simp only: bk small if_False)
  also have "sgn x * \<bar>x\<bar> = x" by (simp add: sgn_mult_abs)
  finally show ?thesis .
qed

lemma f32_round_int:
  assumes "\<bar>n\<bar> < 2 ^ 24"
  shows "f32_round (of_int n) = Fl (of_int n)"
proof (rule f32_round_exact[where j = 0 and n = n])
  have "\<bar>(of_int n :: rat)\<bar> = of_int \<bar>n\<bar>" by simp
  also have "\<dots> < of_int (2 ^ 24)" using assms by (simp only: of_int_less_iff)
  finally show "\<bar>(of_int n :: rat)\<bar> < 2 ^ 24 / 2 ^ 0" by simp
qed simp_all

lemma f32_round_half:
  assumes "\<bar>n\<bar> < 2 ^ 24"
  shows "f32_round (of_int n / 2) = Fl (of_int n / 2)"
proof (rule f32_round_exact[where j = 1 and n = n])
  have "\<bar>(of_int n :: rat)\<bar> = of_int \<bar>n\<bar>" by simp
  also have "\<dots> < of_int (2 ^ 24)" using assms by (simp only: of_int_less_iff)
  finally show "\<bar>(of_int n / 2 :: rat)\<bar> < 2 ^ 24 / 2 ^ 1" by simp
qed simp_all

lemma f32_round_nat:
  assumes "n < 2 ^ 24"
  shows "f32_round (of_nat n) = Fl (of_nat n)"
  using f32_round_int[of "int n"] assms by simp

lemma f32_round_small:
  "f32_round 0 = Fl 0"
  "f32_round 1 = Fl 1"
  "f32_round (1 / 2) = Fl (1 / 2)"
  "numeral w < (16777216 :: int) \<Longrightarrow> f32_round (numeral w) = Fl (numeral w)"
  "numeral w < (16777216 :: int) \<Longrightarrow> f32_round (numeral w / 2) = Fl (numeral w / 2)"
  using f32_round_int[of 0] f32_round_int[of 1] f32_round_half[of 1]
    f32_round_int[of "numeral w"] f32_round_half[of "numeral w"]
  by simp_all

lemma to_float32_small:
  assumes "\<bar>n\<bar> < 2 ^ 24"
  shows "to_float32 (Num n) = Fl (of_int n)"
  using f32_round_int[OF assms] by simp

text \<open>Beyond \<open>2 ^ 24\<close> the store rounds: 16777217 lies halfway between the floats 16777216
  and 16777218 and goes to the one with the even significand.\<close>

lemma to_float32_rounds: "to_float32 (Num 16777217) = Fl 16777216"
  by code_simp

lemma to_float32_cell:
  "to_float32 (Num 0) = Fl 0" "to_float32 (Num 1) = Fl 1" "to_float32 (Num 2) = Fl 2"
  using to_float32_small[of 0] to_float32_small[of 1] to_float32_small[of 2] by simp_all

section \<open>Loops, grids and the neighbour count\<close>


lemma bindE_Inr [simp]: "bindE (Inr v) f = f v"
  by (simp add: bindE_def)

lemma bindE_Inl [simp]: "bindE (Inl e) f = Inl e"
  by (simp add: bindE_def)

lemma rect_tab3: "rect (tab3 sx sy sz F) sx sy sz"
  by (auto simp: rect_def tab3_def)

lemma in_rangeD:
  assumes "in_range sx sy sz x y z"
  shows "nat x < sx" "nat y < sy" "nat z < sz" "0 \<le> x" "0 \<le> y" "0 \<le> z"
    "x < int sx" "y < int sy" "z < int sz"
  using assms by (auto simp: in_range_def)

lemma cell_of_tab3:
  assumes "in_range sx sy sz x y z"
  shows "cell_of (tab3 sx sy sz F) x y z = F x y z"
  using in_rangeD[OF assms] by (simp add: cell_of_def tab3_def)

lemma rect_nth:
  assumes "rect g sx sy sz" "i < sx"
  shows "length (g ! i) = sy" and "j < sy \<Longrightarrow> length (g ! i ! j) = sz"
proof -
  have m: "g ! i \<in> set g" using assms by (simp add: rect_def)
  with assms(1) show "length (g ! i) = sy" by (simp add: rect_def)
  assume "j < sy"
  with \<open>length (g ! i) = sy\<close> have "g ! i ! j \<in> set (g ! i)" by simp
  with m assms(1) show "length (g ! i ! j) = sz" by (simp add: rect_def)
qed

lemma rectI:
  assumes "length g = sx"
    and "\<And>i. i < sx \<Longrightarrow> length (g ! i) = sy"
    and "\<And>i j. i < sx \<Longrightarrow> j < sy \<Longrightarrow> length (g ! i ! j) = sz"
  shows "rect g sx sy sz"
  unfolding rect_def
proof (intro conjI ballI)
  show "length g = sx" by (rule assms(1))
next
  fix p assume "p \<in> set g"
  then obtain i where i: "i < sx" "p = g ! i"
    using assms(1) by (auto simp: in_set_conv_nth)
  then show "length p = sy" using assms(2) by simp
  fix c assume "c \<in> set p"
  then obtain j where "j < sy" "c = p ! j"
    using \<open>length p = sy\<close> by (auto simp: in_set_conv_nth)
  then show "length c = sz" using assms(3) i by simp
qed

lemma rect_eq_tab3:
  assumes "rect g sx sy sz"
    and "\<And>x y z. in_range sx sy sz x y z \<Longrightarrow> cell_of g x y z = F x y z"
  shows "g = tab3 sx sy sz F"
proof (rule nth_equalityI)
  show "length g = length (tab3 sx sy sz F)"
    using assms(1) by (simp add: rect_def tab3_def)
next
  fix i assume "i < length g"
  then have i: "i < sx" using assms(1) by (simp add: rect_def)
  show "g ! i = tab3 sx sy sz F ! i"
  proof (rule nth_equalityI)
    show "length (g ! i) = length (tab3 sx sy sz F ! i)"
      using rect_nth(1)[OF assms(1) i] i by (simp add: tab3_def)
  next
    fix j assume "j < length (g ! i)"
    then have j: "j < sy" using rect_nth(1)[OF assms(1) i] by simp
    show "g ! i ! j = tab3 sx sy sz F ! i ! j"
    proof (rule nth_equalityI)
      show "length (g ! i ! j) = length (tab3 sx sy sz F ! i ! j)"
        using rect_nth(2)[OF assms(1) i j] i j by (simp add: tab3_def)
    next
      fix k assume "k < length (g ! i ! j)"
      then have k: "k < sz" using rect_nth(2)[OF assms(1) i j] by simp
      have "in_range sx sy sz (int i) (int j) (int k)"
        using i j k by (simp add: in_range_def)
      from assms(2)[OF this] show "g ! i ! j ! k = tab3 sx sy sz F ! i ! j ! k"
        using i j k by (simp add: cell_of_def tab3_def)
    qed
  qed
qed

lemma grid_get_rect:
  assumes "rect g sx sy sz" "in_range sx sy sz x y z"
  shows "grid_get g x y z = Inr (cell_of g x y z)"
proof -
  note r = in_rangeD[OF assms(2)]
  note x = r(1) and y = r(2) and z = r(3) and nn = r(4-9)
  have lg: "length g = sx" using assms(1) by (simp add: rect_def)
  note l1 = rect_nth(1)[OF assms(1) x] and l2 = rect_nth(2)[OF assms(1) x y]
  show ?thesis
    using x y z nn lg l1 l2 by (simp add: grid_get_def js_index_def cell_of_def)
qed

lemma grid_set_rect:
  assumes "rect g sx sy sz" "in_range sx sy sz x y z"
  shows "\<exists>g'. grid_set g x y z v = Inr g' \<and> rect g' sx sy sz \<and>
           (\<forall>x' y' z'. in_range sx sy sz x' y' z' \<longrightarrow>
              cell_of g' x' y' z' = (if x' = x \<and> y' = y \<and> z' = z then v else cell_of g x' y' z'))"
proof -
  note r = in_rangeD[OF assms(2)]
  note x = r(1) and y = r(2) and z = r(3) and nn = r(4-9)
  have lg: "length g = sx" using assms(1) by (simp add: rect_def)
  note l1 = rect_nth(1)[OF assms(1) x] and l2 = rect_nth(2)[OF assms(1) x y]
  let ?g' = "g[nat x := (g ! nat x)[nat y := (g ! nat x ! nat y)[nat z := v]]]"
  have eq: "grid_set g x y z v = Inr ?g'"
    using x y z nn lg l1 l2 by (simp add: grid_set_def js_index_def array_set_def)
  have r: "rect ?g' sx sy sz"
  proof (rule rectI)
    show "length ?g' = sx" using lg by simp
  next
    fix i assume i: "i < sx"
    have "length (g ! i) = sy" by (rule rect_nth(1)[OF assms(1) i])
    then show "length (?g' ! i) = sy"
      using lg i x y l1 by (simp add: nth_list_update)
  next
    fix i j assume i: "i < sx" and j: "j < sy"
    have "length (g ! i) = sy" by (rule rect_nth(1)[OF assms(1) i])
    moreover have "length (g ! i ! j) = sz" by (rule rect_nth(2)[OF assms(1) i j])
    ultimately show "length (?g' ! i ! j) = sz"
      using lg i j x y z l1 l2 by (simp add: nth_list_update)
  qed
  have c: "cell_of ?g' x' y' z' = (if x' = x \<and> y' = y \<and> z' = z then v else cell_of g x' y' z')"
    if "in_range sx sy sz x' y' z'" for x' y' z'
  proof -
    note r' = in_rangeD[OF that]
    note x' = r'(1) and y' = r'(2) and z' = r'(3) and nn' = r'(4-9)
    show ?thesis
      using x y z nn x' y' z' nn' lg l1 l2 rect_nth(1)[OF assms(1) x'] rect_nth(2)[OF assms(1) x' y']
      by (auto simp: cell_of_def nth_list_update nat_eq_iff)
  qed
  show ?thesis using eq r c by blast
qed

lemma for_loop_level:
  assumes "R s"
    and "\<And>i s. i \<in> set is \<Longrightarrow> R s \<Longrightarrow>
           \<exists>s'. body i s = Inr s' \<and> R s' \<and>
             (\<forall>p. A p \<longrightarrow> val s' p = (if C i p then G p else val s p))"
  shows "\<exists>s'. for_loop is body s = Inr s' \<and> R s' \<and>
           (\<forall>p. A p \<longrightarrow> val s' p = (if (\<exists>i \<in> set is. C i p) then G p else val s p))"
  using assms
proof (induction "is" arbitrary: s)
  case Nil
  then show ?case by simp
next
  case (Cons i rest)
  from Cons.prems(2)[of i s] Cons.prems(1)
  obtain s1 where s1: "body i s = Inr s1" "R s1"
    "\<forall>p. A p \<longrightarrow> val s1 p = (if C i p then G p else val s p)"
    by auto
  have "\<exists>s'. for_loop rest body s1 = Inr s' \<and> R s' \<and>
           (\<forall>p. A p \<longrightarrow> val s' p = (if (\<exists>i \<in> set rest. C i p) then G p else val s1 p))"
    by (rule Cons.IH[OF s1(2)]) (use Cons.prems(2) in auto)
  then obtain s' where s': "for_loop rest body s1 = Inr s'" "R s'"
    "\<forall>p. A p \<longrightarrow> val s' p = (if (\<exists>i \<in> set rest. C i p) then G p else val s1 p)"
    by blast
  have "for_loop (i # rest) body s = Inr s'"
    using s1(1) s'(1) by simp
  moreover have "\<forall>p. A p \<longrightarrow>
      val s' p = (if (\<exists>j \<in> set (i # rest). C j p) then G p else val s p)"
    using s1(3) s'(3) by auto
  ultimately show ?case using s'(2) by blast
qed

lemma rect_createEmpty3DGrid: "rect (createEmpty3DGrid sx sy sz) sx sy sz"
  by (auto simp: rect_def createEmpty3DGrid_def)

lemma cell_of_createEmpty3DGrid:
  assumes "in_range sx sy sz x y z"
  shows "cell_of (createEmpty3DGrid sx sy sz) x y z = Num 0"
  using in_rangeD[OF assms] by (simp add: cell_of_def createEmpty3DGrid_def)

lemma set_range0: "set (range0 n) = {i. 0 \<le> i \<and> i < int n}"
proof -
  have "i \<in> int ` {0..<n}" if "0 \<le> i" "i < int n" for i
    using that by (intro image_eqI[where x = "nat i"]) auto
  then show ?thesis by (auto simp: range0_def)
qed

lemma fill_grid_empty:
  assumes cell: "\<And>x y z. in_range sx sy sz x y z \<Longrightarrow> cell x y z = Inr (r x y z)"
  shows "fill_grid (sx, sy, sz) cell (createEmpty3DGrid sx sy sz) =
           Inr (tab3 sx sy sz (\<lambda>x y z. written (r x y z)))"
proof -
  define A where "A = (\<lambda>p :: int \<times> int \<times> int. case p of (x, y, z) \<Rightarrow> in_range sx sy sz x y z)"
  define val where "val = (\<lambda>(g :: grid3) (p :: int \<times> int \<times> int). case p of (x, y, z) \<Rightarrow> cell_of g x y z)"
  define G where "G = (\<lambda>p :: int \<times> int \<times> int. case p of (x, y, z) \<Rightarrow> written (r x y z))"
  define R where "R = (\<lambda>g. rect g sx sy sz \<and>
     (\<forall>x y z. in_range sx sy sz x y z \<longrightarrow> r x y z = None \<longrightarrow> cell_of g x y z = Num 0))"
  let ?bz = "\<lambda>x y z ng. bindE (cell x y z) (\<lambda>r. case r of None \<Rightarrow> Inr ng | Some v \<Rightarrow> grid_set ng x y z v)"
  have inner: "\<exists>s'. ?bz x y z s = Inr s' \<and> R s' \<and>
      (\<forall>p. A p \<longrightarrow> val s' p = (if p = (x, y, z) then G p else val s p))"
    if "in_range sx sy sz x y z" "R s" for x y z s
  proof (cases "r x y z")
    case None
    then have "?bz x y z s = Inr s" using cell[OF that(1)] by simp
    moreover have "val s (x, y, z) = G (x, y, z)"
      using that None by (simp add: val_def G_def R_def written_def)
    ultimately show ?thesis using that(2) by auto
  next
    case (Some v)
    from that(2) have rs: "rect s sx sy sz" by (simp add: R_def)
    from grid_set_rect[OF rs that(1), of v]
    obtain g' where g': "grid_set s x y z v = Inr g'" "rect g' sx sy sz"
      "\<forall>x' y' z'. in_range sx sy sz x' y' z' \<longrightarrow>
         cell_of g' x' y' z' = (if x' = x \<and> y' = y \<and> z' = z then v else cell_of s x' y' z')"
      by blast
    have "?bz x y z s = Inr g'" using cell[OF that(1)] Some g'(1) by simp
    moreover have "R g'"
      using g'(2,3) that(2) Some by (auto simp: R_def)
    moreover have "\<forall>p. A p \<longrightarrow> val g' p = (if p = (x, y, z) then G p else val s p)"
      using g'(3) Some by (auto simp: A_def val_def G_def written_def)
    ultimately show ?thesis by blast
  qed
  have zloop: "\<exists>s'. for_loop (range0 sz) (?bz x y) s = Inr s' \<and> R s' \<and>
      (\<forall>p. A p \<longrightarrow> val s' p = (if (\<exists>z \<in> set (range0 sz). p = (x, y, z)) then G p else val s p))"
    if "x \<in> set (range0 sx)" "y \<in> set (range0 sy)" "R s" for x y s
  proof (rule for_loop_level[where R = R and A = A and val = val and G = G
        and C = "\<lambda>z p. p = (x, y, z)", OF that(3)])
    fix z s assume "z \<in> set (range0 sz)" "R s"
    then show "\<exists>s'. ?bz x y z s = Inr s' \<and> R s' \<and>
        (\<forall>p. A p \<longrightarrow> val s' p = (if p = (x, y, z) then G p else val s p))"
      using that(1,2) by (intro inner) (auto simp: set_range0 in_range_def)
  qed
  have yloop: "\<exists>s'. for_loop (range0 sy) (\<lambda>y. for_loop (range0 sz) (?bz x y)) s = Inr s' \<and> R s' \<and>
      (\<forall>p. A p \<longrightarrow> val s' p =
         (if (\<exists>y \<in> set (range0 sy). \<exists>z \<in> set (range0 sz). p = (x, y, z)) then G p else val s p))"
    if "x \<in> set (range0 sx)" "R s" for x s
    by (rule for_loop_level[where R = R and A = A and val = val and G = G
        and C = "\<lambda>y p. \<exists>z \<in> set (range0 sz). p = (x, y, z)", OF that(2)])
      (use that(1) in \<open>intro zloop\<close>)
  have xloop: "\<exists>s'. for_loop (range0 sx) (\<lambda>x. for_loop (range0 sy) (\<lambda>y. for_loop (range0 sz) (?bz x y))) s = Inr s' \<and> R s' \<and>
      (\<forall>p. A p \<longrightarrow> val s' p =
         (if (\<exists>x \<in> set (range0 sx). \<exists>y \<in> set (range0 sy). \<exists>z \<in> set (range0 sz). p = (x, y, z))
          then G p else val s p))"
    if "R s" for s
    by (rule for_loop_level[where R = R and A = A and val = val and G = G
        and C = "\<lambda>x p. \<exists>y \<in> set (range0 sy). \<exists>z \<in> set (range0 sz). p = (x, y, z)", OF that])
      (intro yloop)
  have "R (createEmpty3DGrid sx sy sz)"
    by (simp add: R_def rect_createEmpty3DGrid cell_of_createEmpty3DGrid)
  from xloop[OF this] obtain g' where g':
    "for_loop (range0 sx) (\<lambda>x. for_loop (range0 sy) (\<lambda>y. for_loop (range0 sz) (?bz x y)))
       (createEmpty3DGrid sx sy sz) = Inr g'"
    "R g'"
    "\<forall>p. A p \<longrightarrow> val g' p =
         (if (\<exists>x \<in> set (range0 sx). \<exists>y \<in> set (range0 sy). \<exists>z \<in> set (range0 sz). p = (x, y, z))
          then G p else val (createEmpty3DGrid sx sy sz) p)"
    by blast
  have "cell_of g' x y z = written (r x y z)" if "in_range sx sy sz x y z" for x y z
  proof -
    have "A (x, y, z)" using that by (simp add: A_def)
    moreover have "\<exists>x' \<in> set (range0 sx). \<exists>y' \<in> set (range0 sy). \<exists>z' \<in> set (range0 sz).
        (x, y, z) = (x', y', z')"
      using that by (simp add: set_range0 in_range_def)
    ultimately have "val g' (x, y, z) = G (x, y, z)" using g'(3) by simp
    then show ?thesis by (simp add: val_def G_def)
  qed
  with g'(2) have "g' = tab3 sx sy sz (\<lambda>x y z. written (r x y z))"
    by (intro rect_eq_tab3) (auto simp: R_def)
  with g'(1) show ?thesis by (simp add: fill_grid_def)
qed

lemma dims_valid:
  assumes "valid_grid g sx sy sz"
  shows "dims g = Inr (sx, sy, sz)"
proof -
  from assms have r: "rect g sx sy sz" and p: "0 < sx" "0 < sy" by (auto simp: valid_grid_def)
  have lg: "length g = sx" using r by (simp add: rect_def)
  with p obtain plane rest where g: "g = plane # rest" by (cases g) auto
  have "length (g ! 0) = sy" by (rule rect_nth(1)[OF r p(1)])
  with g p obtain col rest' where pl: "plane = col # rest'" by (cases plane) auto
  have "length (g ! 0 ! 0) = sz" by (rule rect_nth(2)[OF r p(1) p(2)])
  with g pl lg \<open>length (g ! 0) = sy\<close> show ?thesis by (simp add: dims_def)
qed

lemma js_rem_nonneg:
  assumes "0 \<le> a" "0 < b"
  shows "js_rem a b = a mod b"
proof (cases "a = 0")
  case True
  then show ?thesis by (simp add: js_rem_def)
next
  case False
  with assms have "sgn a = 1" by simp
  with assms show ?thesis by (simp add: js_rem_def)
qed

lemma for_loop_sum:
  fixes c :: int
  assumes "\<And>i c. i \<in> set is \<Longrightarrow> body i c = Inr (c + w i)"
  shows "for_loop is body c = Inr (c + sum_list (map w is))"
  using assms
proof (induction "is" arbitrary: c)
  case Nil
  then show ?case by simp
next
  case (Cons i rest)
  have "body i c = Inr (c + w i)" using Cons.prems by simp
  moreover have "for_loop rest body (c + w i) = Inr (c + w i + sum_list (map w rest))"
    by (rule Cons.IH) (use Cons.prems in simp)
  ultimately show ?case by (simp add: add.assoc)
qed

lemma neighbor_loop_valid:
  assumes v: "valid_grid g sx sy sz" and r: "in_range sx sy sz x y z"
  shows "neighbor_loop g (sx, sy, sz) x y z =
           Inr (\<Sum>dx\<leftarrow>[-1, 0, 1]. \<Sum>dy\<leftarrow>[-1, 0, 1]. \<Sum>dz\<leftarrow>[-1, 0, 1].
                  neighbor_weight g sx sy sz x y z dx dy dz)"
proof -
  from v have rg: "rect g sx sy sz" and pos: "0 < sx" "0 < sy" "0 < sz"
    by (auto simp: valid_grid_def)
  note rr = in_rangeD[OF r]
  let ?body = "\<lambda>dx dy dz (count :: int).
     if dx = 0 \<and> dy = 0 \<and> dz = 0 then Inr count
     else bindE (grid_get g (js_rem (x + dx + int sx) (int sx))
                    (js_rem (y + dy + int sy) (int sy))
                    (js_rem (z + dz + int sz) (int sz)))
            (\<lambda>v. Inr (if v = Num 1 then count + 1 else count))"
  have body: "?body dx dy dz c = Inr (c + neighbor_weight g sx sy sz x y z dx dy dz)"
    if "dx \<in> set [-1, 0, 1]" "dy \<in> set [-1, 0, 1]" "dz \<in> set [-1, 0, 1]" for dx dy dz c
  proof -
    have nn: "0 \<le> x + dx + int sx" "0 \<le> y + dy + int sy" "0 \<le> z + dz + int sz"
      using that rr pos by auto
    have jx: "js_rem (x + dx + int sx) (int sx) = (x + dx) mod int sx"
      using js_rem_nonneg[OF nn(1)] pos by simp
    have jy: "js_rem (y + dy + int sy) (int sy) = (y + dy) mod int sy"
      using js_rem_nonneg[OF nn(2)] pos by simp
    have jz: "js_rem (z + dz + int sz) (int sz) = (z + dz) mod int sz"
      using js_rem_nonneg[OF nn(3)] pos by simp
    have "in_range sx sy sz ((x + dx) mod int sx) ((y + dy) mod int sy) ((z + dz) mod int sz)"
      using pos by (simp add: in_range_def)
    from grid_get_rect[OF rg this] show ?thesis
      by (simp add: jx jy jz neighbor_weight_def wrapped_alive_def)
  qed
  have lz: "for_loop [-1, 0, 1] (?body dx dy) c =
      Inr (c + (\<Sum>dz\<leftarrow>[-1, 0, 1]. neighbor_weight g sx sy sz x y z dx dy dz))"
    if "dx \<in> set [-1, 0, 1]" "dy \<in> set [-1, 0, 1]" for dx dy c
    by (rule for_loop_sum) (rule body[OF that])
  have ly: "for_loop [-1, 0, 1] (\<lambda>dy. for_loop [-1, 0, 1] (?body dx dy)) c =
      Inr (c + (\<Sum>dy\<leftarrow>[-1, 0, 1]. \<Sum>dz\<leftarrow>[-1, 0, 1]. neighbor_weight g sx sy sz x y z dx dy dz))"
    if "dx \<in> set [-1, 0, 1]" for dx c
    by (rule for_loop_sum) (rule lz[OF that])
  have lx: "for_loop [-1, 0, 1] (\<lambda>dx. for_loop [-1, 0, 1] (\<lambda>dy. for_loop [-1, 0, 1] (?body dx dy))) c =
      Inr (c + (\<Sum>dx\<leftarrow>[-1, 0, 1]. \<Sum>dy\<leftarrow>[-1, 0, 1]. \<Sum>dz\<leftarrow>[-1, 0, 1].
              neighbor_weight g sx sy sz x y z dx dy dz))" for c
    by (rule for_loop_sum) (rule ly)
  show ?thesis
    unfolding neighbor_loop_def prod.case by (simp only: lx) simp
qed

lemma length_filter_sum:
  "int (length (filter P xs)) = (\<Sum>x\<leftarrow>xs. if P x then 1 else 0)"
  by (induction xs) auto

lemma neighbor_sum_eq_count:
  "(\<Sum>dx\<leftarrow>[-1, 0, 1]. \<Sum>dy\<leftarrow>[-1, 0, 1]. \<Sum>dz\<leftarrow>[-1, 0, 1].
       neighbor_weight g sx sy sz x y z dx dy dz) = toroidal_live_count g sx sy sz x y z"
  unfolding toroidal_live_count_def length_filter_sum neighbor_offsets_def
  by (simp add: neighbor_weight_def)

lemma neighbor_loop_count:
  assumes "valid_grid g sx sy sz" "in_range sx sy sz x y z"
  shows "neighbor_loop g (sx, sy, sz) x y z = Inr (toroidal_live_count g sx sy sz x y z)"
  by (simp only: neighbor_loop_valid[OF assms] neighbor_sum_eq_count)

lemma countLiveNeighbors3D_valid:
  assumes "valid_grid g sx sy sz" "in_range sx sy sz x y z"
  shows "countLiveNeighbors3D g x y z = Inr (toroidal_live_count g sx sy sz x y z)"
  by (simp only: countLiveNeighbors3D_def dims_valid[OF assms(1)] bindE_Inr
      neighbor_loop_valid[OF assms] neighbor_sum_eq_count)

lemma valid_not_invalid:
  assumes "valid_grid g sx sy sz"
  shows "\<not> invalid_grid (Some g)"
proof -
  from assms have r: "rect g sx sy sz" and p: "0 < sx" "0 < sy" "0 < sz"
    by (auto simp: valid_grid_def)
  have lg: "length g = sx" using r by (simp add: rect_def)
  with p obtain plane rest where g: "g = plane # rest" by (cases g) auto
  have l1: "length (g ! 0) = sy" by (rule rect_nth(1)[OF r p(1)])
  with g p obtain col rest' where pl: "plane = col # rest'" by (cases plane) auto
  have "length (g ! 0 ! 0) = sz" by (rule rect_nth(2)[OF r p(1) p(2)])
  with g pl p obtain c rest'' where "col = c # rest''" by (cases col) auto
  with g pl show ?thesis by simp
qed

lemma step_bs_valid:
  assumes v: "valid_grid g sx sy sz"
    and rule: "resolve_rule ruleName = BS birth survival"
  shows "calculateNextGeneration3D (Some g) ruleName =
           Inr (tab3 sx sy sz (\<lambda>x y z.
                  bs_next birth survival (cell_of g x y z) (toroidal_live_count g sx sy sz x y z)))"
proof -
  have n1: "ruleName \<noteq> ''briansbrain3d''" and n2: "ruleName \<noteq> ''checkerboard''"
    using rule by (auto simp: resolve_rule_def rule_lookup_def RULE_DEFINITIONS_def)
  from v have rg: "rect g sx sy sz" by (simp add: valid_grid_def)
  let ?cell = "\<lambda>x y z.
     bindE (countLiveNeighbors3D g x y z) (\<lambda>liveNeighbors.
       bindE (grid_get g x y z) (\<lambda>c.
         if c = Num 1 then
           bindE (js_includes (rule_survival (BS birth survival)) liveNeighbors) (\<lambda>b.
             Inr (Some (if b then Num 1 else Num 0)))
         else
           bindE (js_includes (rule_birth (BS birth survival)) liveNeighbors) (\<lambda>b.
             Inr (Some (if b then Num 1 else Num 0)))))"
  have cell: "?cell x y z =
      Inr (Some (bs_next birth survival (cell_of g x y z) (toroidal_live_count g sx sy sz x y z)))"
    if "in_range sx sy sz x y z" for x y z
    by (simp add: countLiveNeighbors3D_valid[OF v that] grid_get_rect[OF rg that]
        js_includes_def bs_next_def)
  have "fill_grid (sx, sy, sz) ?cell (createEmpty3DGrid sx sy sz) =
      Inr (tab3 sx sy sz (\<lambda>x y z. written (Some (bs_next birth survival (cell_of g x y z)
             (toroidal_live_count g sx sy sz x y z)))))"
    by (rule fill_grid_empty) (rule cell)
  then show ?thesis
    using valid_not_invalid[OF v] n1 n2
    by (simp add: calculateNextGeneration3D_def Let_def rule dims_valid[OF v] written_def)
qed

lemma step_static_valid:
  assumes v: "valid_grid g sx sy sz"
  shows "calculateNextGeneration3D (Some g) ''checkerboard'' = Inr g"
proof -
  from v have rg: "rect g sx sy sz" by (simp add: valid_grid_def)
  let ?cell = "\<lambda>x y z. bindE (grid_get g x y z) (\<lambda>v. Inr (Some v))"
  have "fill_grid (sx, sy, sz) ?cell (createEmpty3DGrid sx sy sz) =
      Inr (tab3 sx sy sz (\<lambda>x y z. written (Some (cell_of g x y z))))"
    by (rule fill_grid_empty) (simp add: grid_get_rect[OF rg])
  moreover have "g = tab3 sx sy sz (\<lambda>x y z. written (Some (cell_of g x y z)))"
    by (rule rect_eq_tab3[OF rg]) (simp add: written_def)
  ultimately show ?thesis
    using valid_not_invalid[OF v]
    by (simp add: calculateNextGeneration3D_def dims_valid[OF v])
qed

lemma step_brain_valid:
  assumes v: "valid_grid g sx sy sz"
  shows "calculateNextGeneration3D (Some g) ''briansbrain3d'' =
           Inr (tab3 sx sy sz (\<lambda>x y z.
                  brain_next (cell_of g x y z) (toroidal_live_count g sx sy sz x y z)))"
proof -
  from v have rg: "rect g sx sy sz" by (simp add: valid_grid_def)
  let ?cell = "\<lambda>x y z.
     bindE (grid_get g x y z) (\<lambda>cellState.
       if cellState = Num 0 then
         bindE (neighbor_loop g (sx, sy, sz) x y z) (\<lambda>onNeighbors.
           Inr (Some (if onNeighbors = 2 then Num 1 else Num 0)))
       else if cellState = Num 1 then Inr (Some (Num 2))
       else if cellState = Num 2 then Inr (Some (Num 0))
       else Inr None)"
  let ?r = "\<lambda>x y z.
       if cell_of g x y z = Num 0 then
           Some (if toroidal_live_count g sx sy sz x y z = 2 then Num 1 else Num 0)
       else if cell_of g x y z = Num 1 then Some (Num 2)
       else if cell_of g x y z = Num 2 then Some (Num 0)
       else None"
  have cell: "?cell x y z = Inr (?r x y z)" if "in_range sx sy sz x y z" for x y z
    by (simp add: grid_get_rect[OF rg that] neighbor_loop_count[OF v that])
  have "fill_grid (sx, sy, sz) ?cell (createEmpty3DGrid sx sy sz) =
      Inr (tab3 sx sy sz (\<lambda>x y z. written (?r x y z)))"
    by (rule fill_grid_empty) (rule cell)
  moreover have "written (?r x y z) =
      brain_next (cell_of g x y z) (toroidal_live_count g sx sy sz x y z)" for x y z
    by (simp add: written_def brain_next_def)
  ultimately show ?thesis
    using valid_not_invalid[OF v]
    by (simp add: calculateNextGeneration3D_def calculateBriansBrain3D_def dims_valid[OF v])
qed


lemma rule_table_birth_survival:
  "resolve_rule ''conway3d'' = BS [5, 6, 7] [4, 5, 6]"
  "resolve_rule ''life3d'' = BS [4, 5] [5, 6, 7]"
  "resolve_rule ''stability'' = BS [4, 5, 6, 7] [3, 4, 5, 6]"
  "resolve_rule ''crystal'' = BS [5, 6, 7, 8] [5, 6, 7, 8]"
  "resolve_rule ''pyroclastic'' = BS [4, 5, 6, 7] [6, 7, 8]"
  "resolve_rule ''diamoeba3d'' = BS [5, 6, 7, 8] [5, 6, 7, 8, 9, 10]"
  "resolve_rule ''hyper'' = BS [5, 6, 7] [5, 6, 7, 8, 9, 10]"
  by (simp_all add: resolve_rule_def rule_lookup_def RULE_DEFINITIONS_def)

lemma resolve_rule_table:
  assumes "map_of RULE_DEFINITIONS ruleName = Some r"
  shows "resolve_rule ruleName = r"
  using assms by (simp add: resolve_rule_def rule_lookup_def)

lemma valid_planes_grid: "valid_grid planes_grid 4 3 3"
  by (simp add: valid_grid_def rect_def planes_grid_def)

lemma planes_grid_counts:
  "toroidal_live_count planes_grid 4 3 3 0 0 0 = 6"
  "toroidal_live_count planes_grid 4 3 3 3 0 0 = 4"
  "toroidal_live_count planes_grid 4 3 3 3 1 1 = 5"
  "toroidal_live_count planes_grid 4 3 3 2 0 0 = 3"
  by code_simp+

lemma planes_grid_step:
  "calculateNextGeneration3D (Some planes_grid) ''life3d'' =
     Inr [[[Num 1, Num 1, Num 1], [Num 1, Num 0, Num 0], [Num 0, Num 0, Num 0]],
          [[Num 1, Num 1, Num 0], [Num 0, Num 0, Num 0], [Num 0, Num 0, Num 0]],
          [[Num 0, Num 0, Num 0], [Num 0, Num 0, Num 0], [Num 0, Num 0, Num 0]],
          [[Num 0, Num 1, Num 1], [Num 1, Num 1, Num 1], [Num 1, Num 1, Num 1]]]"
  by code_simp

text \<open>
  Claim C1. For a valid grid (rectangular, every dimension positive) and a rule identifier
  whose entry in the rule table is a Birth/Survival entry, the CPU step returns a grid of
  the same dimensions, computed with the birth and survival lists of that entry: a cell
  that was 1 is 1 exactly when its toroidal live-neighbour count is in the survival list,
  a cell that was not 1 is 1 exactly when that count is in the birth list, and every cell
  that is not 1 is 0.
\<close>

theorem calculateNextGeneration3D_birth_survival:
  assumes "valid_grid g sx sy sz"
    and "map_of RULE_DEFINITIONS ruleName = Some (BS birth survival)"
  shows "\<exists>g'. calculateNextGeneration3D (Some g) ruleName = Inr g' \<and> rect g' sx sy sz \<and>
           (\<forall>x y z. in_range sx sy sz x y z \<longrightarrow>
              (cell_of g' x y z = Num 1 \<longleftrightarrow>
                 (if cell_of g x y z = Num 1
                  then toroidal_live_count g sx sy sz x y z \<in> set survival
                  else toroidal_live_count g sx sy sz x y z \<in> set birth)) \<and>
              (cell_of g' x y z \<noteq> Num 1 \<longrightarrow> cell_of g' x y z = Num 0))"
proof -
  let ?g' = "tab3 sx sy sz (\<lambda>x y z.
     bs_next birth survival (cell_of g x y z) (toroidal_live_count g sx sy sz x y z))"
  have "calculateNextGeneration3D (Some g) ruleName = Inr ?g'"
    by (rule step_bs_valid[OF assms(1) resolve_rule_table[OF assms(2)]])
  moreover have "rect ?g' sx sy sz" by (rule rect_tab3)
  moreover have "cell_of ?g' x y z =
      bs_next birth survival (cell_of g x y z) (toroidal_live_count g sx sy sz x y z)"
    if "in_range sx sy sz x y z" for x y z
    by (rule cell_of_tab3[OF that])
  ultimately show ?thesis
    by (intro exI[of _ ?g']) (simp add: bs_next_def)
qed

theorem calculateNextGeneration3D_birth_survival_witness:
  "valid_grid planes_grid 4 3 3 \<and>
   map_of RULE_DEFINITIONS ''life3d'' = Some (BS [4, 5] [5, 6, 7]) \<and>
   calculateNextGeneration3D (Some planes_grid) ''life3d'' =
     Inr [[[Num 1, Num 1, Num 1], [Num 1, Num 0, Num 0], [Num 0, Num 0, Num 0]],
          [[Num 1, Num 1, Num 0], [Num 0, Num 0, Num 0], [Num 0, Num 0, Num 0]],
          [[Num 0, Num 0, Num 0], [Num 0, Num 0, Num 0], [Num 0, Num 0, Num 0]],
          [[Num 0, Num 1, Num 1], [Num 1, Num 1, Num 1], [Num 1, Num 1, Num 1]]] \<and>
   (\<exists>g'. calculateNextGeneration3D (Some planes_grid) ''life3d'' = Inr g' \<and> rect g' 4 3 3 \<and>
      cell_of planes_grid 0 0 0 = Num 1 \<and> toroidal_live_count planes_grid 4 3 3 0 0 0 = 6 \<and>
      cell_of g' 0 0 0 = Num 1 \<and>
      cell_of planes_grid 3 0 0 = Num 1 \<and> toroidal_live_count planes_grid 4 3 3 3 0 0 = 4 \<and>
      cell_of g' 3 0 0 = Num 0 \<and>
      cell_of planes_grid 3 1 1 = Num 0 \<and> toroidal_live_count planes_grid 4 3 3 3 1 1 = 5 \<and>
      cell_of g' 3 1 1 = Num 1 \<and>
      cell_of planes_grid 2 0 0 = Num 0 \<and> toroidal_live_count planes_grid 4 3 3 2 0 0 = 3 \<and>
      cell_of g' 2 0 0 = Num 0)"
proof -
  have m: "map_of RULE_DEFINITIONS ''life3d'' = Some (BS [4, 5] [5, 6, 7])"
    by (simp add: RULE_DEFINITIONS_def)
  have i: "in_range 4 3 3 0 0 0" "in_range 4 3 3 3 0 0" "in_range 4 3 3 3 1 1"
    "in_range 4 3 3 2 0 0"
    by (simp_all add: in_range_def)
  have c: "cell_of planes_grid 0 0 0 = Num 1" "cell_of planes_grid 3 0 0 = Num 1"
    "cell_of planes_grid 3 1 1 = Num 0" "cell_of planes_grid 2 0 0 = Num 0"
    by (simp_all add: cell_of_def planes_grid_def)
  from calculateNextGeneration3D_birth_survival[OF valid_planes_grid m]
  obtain g' where a: "calculateNextGeneration3D (Some planes_grid) ''life3d'' = Inr g' \<and>
      rect g' 4 3 3 \<and>
      (\<forall>x y z. in_range 4 3 3 x y z \<longrightarrow>
              (cell_of g' x y z = Num 1 \<longleftrightarrow>
                 (if cell_of planes_grid x y z = Num 1
                  then toroidal_live_count planes_grid 4 3 3 x y z \<in> set [5, 6, 7]
                  else toroidal_live_count planes_grid 4 3 3 x y z \<in> set [4, 5])) \<and>
              (cell_of g' x y z \<noteq> Num 1 \<longrightarrow> cell_of g' x y z = Num 0))" ..
  note g' = a[THEN conjunct1] a[THEN conjunct2, THEN conjunct1]
  note n = a[THEN conjunct2, THEN conjunct2]
  have r1: "cell_of g' 0 0 0 = Num 1"
    using n[rule_format, OF i(1), unfolded c planes_grid_counts] by simp
  have r2: "cell_of g' 3 0 0 = Num 0"
    using n[rule_format, OF i(2), unfolded c planes_grid_counts] by simp
  have r3: "cell_of g' 3 1 1 = Num 1"
    using n[rule_format, OF i(3), unfolded c planes_grid_counts] by simp
  have r4: "cell_of g' 2 0 0 = Num 0"
    using n[rule_format, OF i(4), unfolded c planes_grid_counts] by simp
  note r = r1 r2 r3 r4
  from g' r c planes_grid_counts valid_planes_grid m planes_grid_step show ?thesis
    by (intro conjI exI[of _ g']) (simp_all only:)
qed


lemma wrap_zero_iff:
  fixes x :: int
  assumes "0 \<le> x" "x < int n" "3 \<le> n"
  shows "((x + (- 1)) mod int n = 0) = (x = 1)"
    and "((x + 0) mod int n = 0) = (x = 0)"
    and "((x + 1) mod int n = 0) = (x = int n - 1)"
proof -
  show "((x + (- 1)) mod int n = 0) = (x = 1)"
  proof (cases "x = 0")
    case True
    have "(- 1) mod int n = int n - 1" using assms(3)
      by (simp add: zmod_minus1)
    with True assms show ?thesis by simp
  next
    case False
    with assms have "(x - 1) mod int n = x - 1" by simp
    then show ?thesis by simp
  qed
  show "((x + 0) mod int n = 0) = (x = 0)" using assms by simp
  show "((x + 1) mod int n = 0) = (x = int n - 1)"
  proof (cases "x = int n - 1")
    case True
    then show ?thesis by simp
  next
    case False
    with assms have "(x + 1) mod int n = x + 1" by simp
    with False assms show ?thesis by simp
  qed
qed

lemma wrapped_alive_corner:
  assumes v: "valid_grid g n n n"
    and corner: "\<forall>x y z. in_range n n n x y z \<longrightarrow>
                   (cell_of g x y z = Num 1) = (x = 0 \<and> y = 0 \<and> z = 0)"
  shows "wrapped_alive g n n n x y z (dx, dy, dz) =
           ((x + dx) mod int n = 0 \<and> (y + dy) mod int n = 0 \<and> (z + dz) mod int n = 0)"
proof -
  from v have "0 < n" by (simp add: valid_grid_def)
  then have "in_range n n n ((x + dx) mod int n) ((y + dy) mod int n) ((z + dz) mod int n)"
    by (simp add: in_range_def)
  with corner show ?thesis by (simp add: wrapped_alive_def)
qed

lemma set_neighbor_offsets:
  "d \<in> set neighbor_offsets \<longleftrightarrow>
     (case d of (dx, dy, dz) \<Rightarrow>
        dx \<in> {-1, 0, 1} \<and> dy \<in> {-1, 0, 1} \<and> dz \<in> {-1, 0, 1} \<and> \<not> (dx = 0 \<and> dy = 0 \<and> dz = 0))"
proof (cases d)
  case (fields dx dy dz)
  show ?thesis
    unfolding neighbor_offsets_def fields
    by (simp only: set_filter set_product mem_Collect_eq mem_Sigma_iff prod.case list.set
        conj_assoc)
qed

lemma distinct_neighbor_offsets: "distinct neighbor_offsets"
  unfolding neighbor_offsets_def
  by (intro distinct_filter distinct_product) simp_all

lemma offset_mod:
  assumes "3 \<le> n" "d \<in> {-1, 0, 1}"
  shows "d mod int n = near_corner n d"
  using assms by (auto simp: near_corner_def zmod_minus1)

lemma near_corner_inj:
  assumes "3 \<le> n" "d \<in> {-1, 0, 1}" "e \<in> {-1, 0, 1}" "near_corner n d = near_corner n e"
  shows "d = e"
  using assms by (auto simp: near_corner_def split: if_splits)

lemma near_corner_neg:
  assumes "3 \<le> n" "0 \<le> x" "x < int n" "d \<in> {-1, 0, 1}"
  shows "((x + d) mod int n = 0) = (x = near_corner n (- d))"
proof -
  note w = wrap_zero_iff[OF assms(2,3,1)]
  consider "d = - 1" | "d = 0" | "d = 1" using assms(4) by auto
  then show ?thesis
  proof cases
    case 1
    then show ?thesis using w(1) by (simp add: near_corner_def)
  next
    case 2
    then show ?thesis using w(2) by (simp add: near_corner_def)
  next
    case 3
    then show ?thesis using w(3) by (simp add: near_corner_def)
  qed
qed

lemma indicator_sum_unique:
  assumes "distinct xs"
    and "\<And>a b. a \<in> set xs \<Longrightarrow> b \<in> set xs \<Longrightarrow> P a \<Longrightarrow> P b \<Longrightarrow> a = b"
  shows "int (length (filter P xs)) = (if \<exists>a \<in> set xs. P a then 1 else 0)"
proof (cases "\<exists>a \<in> set xs. P a")
  case False
  then have "filter P xs = []" by (simp add: filter_empty_conv)
  with False show ?thesis by simp
next
  case True
  then obtain a where a: "a \<in> set xs" "P a" by blast
  have "set (filter P xs) = {a}" using a assms(2) by auto
  moreover have "distinct (filter P xs)" using assms(1) by simp
  ultimately have "length (filter P xs) = 1"
    using distinct_card[of "filter P xs"] by simp
  with True show ?thesis by simp
qed

lemma neg_offset:
  assumes "(dx, dy, dz) \<in> set neighbor_offsets"
  shows "(- dx, - dy, - dz) \<in> set neighbor_offsets"
  using assms unfolding set_neighbor_offsets by auto

lemma offset_coords:
  assumes "(dx, dy, dz) \<in> set neighbor_offsets"
  shows "dx \<in> {-1, 0, 1}" "dy \<in> {-1, 0, 1}" "dz \<in> {-1, 0, 1}"
  using assms unfolding set_neighbor_offsets by auto

lemma wrapped_alive_corner_offset:
  assumes v: "valid_grid g n n n" and n: "3 \<le> n"
    and corner: "\<forall>x y z. in_range n n n x y z \<longrightarrow>
                   (cell_of g x y z = Num 1) = (x = 0 \<and> y = 0 \<and> z = 0)"
    and r: "in_range n n n x y z"
    and d: "(dx, dy, dz) \<in> set neighbor_offsets"
  shows "wrapped_alive g n n n x y z (dx, dy, dz) =
           (x = near_corner n (- dx) \<and> y = near_corner n (- dy) \<and> z = near_corner n (- dz))"
proof -
  note rr = in_rangeD[OF r]
  note c = offset_coords[OF d]
  show ?thesis
    by (simp only: wrapped_alive_corner[OF v corner]
        near_corner_neg[OF n rr(4) rr(7) c(1)]
        near_corner_neg[OF n rr(5) rr(8) c(2)]
        near_corner_neg[OF n rr(6) rr(9) c(3)])
qed

lemma corner_count:
  assumes v: "valid_grid g n n n" and n: "3 \<le> n"
    and corner: "\<forall>x y z. in_range n n n x y z \<longrightarrow>
                   (cell_of g x y z = Num 1) = (x = 0 \<and> y = 0 \<and> z = 0)"
    and r: "in_range n n n x y z"
  shows "toroidal_live_count g n n n x y z = (if reachable_from_corner n x y z then 1 else 0)"
proof -
  let ?P = "wrapped_alive g n n n x y z"
  note wa = wrapped_alive_corner_offset[OF v n corner r]
  have uniq: "a = b" if "a \<in> set neighbor_offsets" "b \<in> set neighbor_offsets" "?P a" "?P b" for a b
  proof -
    obtain dx dy dz where a: "a = (dx, dy, dz)" by (cases a)
    obtain ex ey ez where b: "b = (ex, ey, ez)" by (cases b)
    note ca = offset_coords[OF that(1)[unfolded a]]
    note cb = offset_coords[OF that(2)[unfolded b]]
    from that(3) have pa: "x = near_corner n (- dx)" "y = near_corner n (- dy)" "z = near_corner n (- dz)"
      using wa[OF that(1)[unfolded a]] by (simp_all add: a)
    from that(4) have pb: "x = near_corner n (- ex)" "y = near_corner n (- ey)" "z = near_corner n (- ez)"
      using wa[OF that(2)[unfolded b]] by (simp_all add: b)
    have "- dx = - ex"
      by (rule near_corner_inj[OF n]) (use ca(1) cb(1) pa(1) pb(1) in auto)
    moreover have "- dy = - ey"
      by (rule near_corner_inj[OF n]) (use ca(2) cb(2) pa(2) pb(2) in auto)
    moreover have "- dz = - ez"
      by (rule near_corner_inj[OF n]) (use ca(3) cb(3) pa(3) pb(3) in auto)
    ultimately show ?thesis by (simp add: a b)
  qed
  have ex: "(\<exists>a \<in> set neighbor_offsets. ?P a) = reachable_from_corner n x y z"
  proof
    assume "\<exists>a \<in> set neighbor_offsets. ?P a"
    then obtain dx dy dz where d: "(dx, dy, dz) \<in> set neighbor_offsets" "?P (dx, dy, dz)"
      by auto
    note nd = neg_offset[OF d(1)]
    note c = offset_coords[OF nd]
    from d(2) have "x = near_corner n (- dx)" "y = near_corner n (- dy)" "z = near_corner n (- dz)"
      using wa[OF d(1)] by simp_all
    then have "x = (- dx) mod int n \<and> y = (- dy) mod int n \<and> z = (- dz) mod int n"
      by (simp only: offset_mod[OF n c(1)] offset_mod[OF n c(2)] offset_mod[OF n c(3)])
    with nd show "reachable_from_corner n x y z"
      unfolding reachable_from_corner_def by (intro bexI[of _ "(- dx, - dy, - dz)"]) simp_all
  next
    assume "reachable_from_corner n x y z"
    then obtain ex ey ez where e: "(ex, ey, ez) \<in> set neighbor_offsets"
      "x = ex mod int n" "y = ey mod int n" "z = ez mod int n"
      unfolding reachable_from_corner_def by auto
    note c = offset_coords[OF e(1)]
    note nd = neg_offset[OF e(1)]
    have "x = near_corner n (- (- ex))" "y = near_corner n (- (- ey))" "z = near_corner n (- (- ez))"
      using e(2-4) by (simp_all only: offset_mod[OF n c(1)] offset_mod[OF n c(2)]
          offset_mod[OF n c(3)] minus_minus)
    then have "?P (- ex, - ey, - ez)" using wa[OF nd] by simp
    with nd show "\<exists>a \<in> set neighbor_offsets. ?P a" by blast
  qed
  show ?thesis
    unfolding toroidal_live_count_def
    by (simp only: indicator_sum_unique[of neighbor_offsets ?P, OF distinct_neighbor_offsets uniq] ex)
qed

lemma valid_corner_grid: "0 < n \<Longrightarrow> valid_grid (corner_grid n) n n n"
  by (simp add: valid_grid_def corner_grid_def rect_tab3)

lemma corner_grid_cells:
  "\<forall>x y z. in_range n n n x y z \<longrightarrow>
     (cell_of (corner_grid n) x y z = Num 1) = (x = 0 \<and> y = 0 \<and> z = 0)"
  by (simp add: corner_grid_def cell_of_tab3)

text \<open>
  Claim C6, amended to grids of side at least 3. In an N x N x N grid whose only cell with
  value 1 is the corner (0,0,0), the neighbour count of a cell is 1 when the cell is
  reached from the corner by one of the 26 offsets with wraparound, and 0 for every other
  cell; the far corner (N-1,N-1,N-1) is among the cells reached, the corner itself is not.
\<close>

theorem countLiveNeighbors3D_single_corner:
  assumes "valid_grid g n n n" and "3 \<le> n"
    and "\<forall>x y z. in_range n n n x y z \<longrightarrow>
           (cell_of g x y z = Num 1) = (x = 0 \<and> y = 0 \<and> z = 0)"
    and "in_range n n n x y z"
  shows "countLiveNeighbors3D g x y z = Inr (if reachable_from_corner n x y z then 1 else 0) \<and>
         reachable_from_corner n (int n - 1) (int n - 1) (int n - 1) \<and>
         \<not> reachable_from_corner n 0 0 0"
proof -
  have "countLiveNeighbors3D g x y z = Inr (if reachable_from_corner n x y z then 1 else 0)"
    by (simp only: countLiveNeighbors3D_valid[OF assms(1,4)] corner_count[OF assms])
  moreover have "reachable_from_corner n (int n - 1) (int n - 1) (int n - 1)"
  proof -
    have d: "(- 1, - 1, - 1) \<in> set neighbor_offsets" by (simp add: set_neighbor_offsets)
    have "(- 1) mod int n = int n - 1" using assms(2) by (simp add: zmod_minus1)
    then show ?thesis
      unfolding reachable_from_corner_def by (intro bexI[OF _ d]) simp
  qed
  moreover have "\<not> reachable_from_corner n 0 0 0"
  proof
    assume "reachable_from_corner n 0 0 0"
    then obtain dx dy dz where d: "(dx, dy, dz) \<in> set neighbor_offsets"
      "0 = dx mod int n" "0 = dy mod int n" "0 = dz mod int n"
      unfolding reachable_from_corner_def by auto
    note c = offset_coords[OF d(1)]
    have z: "e = 0" if "e \<in> {-1, 0, 1}" "0 = e mod int n" for e
      using offset_mod[OF assms(2) that(1)] that assms(2)
      by (auto simp: near_corner_def split: if_splits)
    have "dx = 0" "dy = 0" "dz = 0"
      using z[OF c(1) d(2)] z[OF c(2) d(3)] z[OF c(3) d(4)] by simp_all
    with d(1) show False by (simp add: set_neighbor_offsets)
  qed
  ultimately show ?thesis by blast
qed

theorem countLiveNeighbors3D_single_corner_witness:
  "valid_grid (corner_grid 3) 3 3 3 \<and> in_range 3 3 3 2 0 0 \<and> reachable_from_corner 3 2 0 0 \<and>
   countLiveNeighbors3D (corner_grid 3) 2 0 0 = Inr 1"
proof -
  have v: "valid_grid (corner_grid 3) 3 3 3" by (rule valid_corner_grid) simp
  have n: "(3::nat) \<le> 3" by simp
  have r: "in_range 3 3 3 2 0 0" by (simp add: in_range_def)
  have d: "(- 1, 0, 0) \<in> set neighbor_offsets" by (simp add: set_neighbor_offsets)
  have re: "reachable_from_corner 3 2 0 0"
    unfolding reachable_from_corner_def by (intro bexI[OF _ d]) simp
  from countLiveNeighbors3D_single_corner[OF v n corner_grid_cells r] re
  have "countLiveNeighbors3D (corner_grid 3) 2 0 0 = Inr 1" by simp
  with v r re show ?thesis by blast
qed

theorem countLiveNeighbors3D_single_corner_counterexample:
  "valid_grid (corner_grid 2) 2 2 2 \<and> reachable_from_corner 2 1 0 0 \<and>
   countLiveNeighbors3D (corner_grid 2) 1 0 0 = Inr 2 \<and>
   countLiveNeighbors3D (corner_grid 2) 1 1 1 = Inr 8"
proof -
  have v: "valid_grid (corner_grid 2) 2 2 2" by (rule valid_corner_grid) simp
  have d: "(1, 0, 0) \<in> set neighbor_offsets" by (simp add: set_neighbor_offsets)
  have re: "reachable_from_corner 2 1 0 0"
    unfolding reachable_from_corner_def by (intro bexI[OF _ d]) simp
  have "countLiveNeighbors3D (corner_grid 2) 1 0 0 = Inr 2" by code_simp
  moreover have "countLiveNeighbors3D (corner_grid 2) 1 1 1 = Inr 8" by code_simp
  ultimately show ?thesis using v re by blast
qed





text \<open>
  Claim C9 at an identifier that is no key of the rule table but a property name inherited
  from \<open>Object.prototype\<close>: the lookup finds a truthy value without \<open>birth\<close> and
  \<open>survival\<close>, the fallback is not taken, and the step throws where the step with
  \<open>conway3d\<close> returns a grid.
\<close>

theorem calculateNextGeneration3D_inherited_name:
  "map_of RULE_DEFINITIONS ''constructor'' = None \<and>
   calculateNextGeneration3D (Some [[[Num 0]]]) ''constructor'' = Inl TypeError \<and>
   calculateNextGeneration3D (Some [[[Num 0]]]) ''conway3d'' = Inr [[[Num 0]]]"
  by code_simp

lemma resolve_rule_unknown:
  assumes "ruleName \<notin> fst ` set RULE_DEFINITIONS" "ruleName \<notin> set object_prototype_names"
  shows "resolve_rule ruleName = BS [5, 6, 7] [4, 5, 6]"
proof -
  have "map_of RULE_DEFINITIONS ruleName = None"
    using assms(1) by (simp add: map_of_eq_None_iff)
  with assms(2) show ?thesis by (simp add: resolve_rule_def rule_lookup_def)
qed

lemma step_unknown_rule:
  assumes "ruleName \<notin> fst ` set RULE_DEFINITIONS" "ruleName \<notin> set object_prototype_names"
  shows "calculateNextGeneration3D g ruleName = calculateNextGeneration3D g ''conway3d''"
proof -
  have n: "ruleName \<noteq> ''briansbrain3d''" "ruleName \<noteq> ''checkerboard''"
    using assms(1) by (auto simp: RULE_DEFINITIONS_def)
  have "resolve_rule ruleName = resolve_rule ''conway3d''"
    using resolve_rule_unknown[OF assms]
    by (simp add: resolve_rule_def rule_lookup_def RULE_DEFINITIONS_def)
  with n show ?thesis by (simp add: calculateNextGeneration3D_def)
qed


lemma range0_simps: "range0 0 = []" "range0 (Suc n) = range0 n @ [int n]"
  by (simp_all add: range0_def)

lemma for_loop_append:
  "for_loop (xs @ ys) body s = bindE (for_loop xs body s) (for_loop ys body)"
  by (induction xs arbitrary: s) (auto simp: bindE_def split: sum.splits)

lemma grid_set_negative_plane:
  "x < 0 \<Longrightarrow> grid_set g x y z v = Inl TypeError"
  by (simp add: grid_set_def js_index_def)

lemma grid_set_negative_column:
  "y < 0 \<Longrightarrow> grid_set g x y z v = Inl TypeError"
  by (simp add: grid_set_def js_index_def split: option.splits)

text \<open>
  Claim C10, amended in its example. \<open>createInitial3DGrid\<close> is not total on positive
  dimensions: with a pattern name other than the five it knows and \<open>sizeX < 4\<close> (so
  1 x 1 x 1 too) the composite pattern writes the plane \<open>centerX - 2 < 0\<close> and throws; with
  the pattern \<open>cross\<close> the arm comes from \<open>sizeX\<close> alone, and the call throws as soon as
  the arm is longer than \<open>centerY\<close>.
\<close>

theorem createInitial3DGrid_throws:
  "(p \<notin> {''checkerboard'', ''default'', ''cross'', ''random'', ''sphere''} \<and> sizeX < 4 \<longrightarrow>
      createInitial3DGrid random sizeX sizeY sizeZ (Some p) = Inl TypeError) \<and>
   (4 \<le> sizeX \<and> int sizeY div 2 < min 3 (int sizeX div 4) \<longrightarrow>
      createInitial3DGrid random sizeX sizeY sizeZ (Some ''cross'') = Inl TypeError)"
proof (intro conjI impI)
  assume a: "p \<notin> {''checkerboard'', ''default'', ''cross'', ''random'', ''sphere''} \<and> sizeX < 4"
  then have "int sizeX < 4" by simp
  then have "int sizeX div 2 + - 2 < 0" by linarith
  then have "grid_set g (int sizeX div 2 + - 2) y z v = Inl TypeError" for g y z v
    by (rule grid_set_negative_plane)
  then show "createInitial3DGrid random sizeX sizeY sizeZ (Some p) = Inl TypeError"
    using a by (simp add: createInitial3DGrid_def js_default_def cross_lines_def Let_def)
next
  assume a: "4 \<le> sizeX \<and> int sizeY div 2 < min 3 (int sizeX div 4)"
  define arm where "arm = min 3 (int sizeX div 4)"
  have "0 \<le> int sizeY div 2" by simp
  with a have "1 \<le> arm" unfolding arm_def by linarith
  then have l: "[- arm..arm] = (- arm) # [- arm + 1..arm]"
    by (subst upto.simps) simp
  have "int sizeY div 2 - arm < 0" using a unfolding arm_def by linarith
  then have w: "grid_set g x (int sizeY div 2 - arm) z v = Inl TypeError" for g x z v
    by (rule grid_set_negative_column)
  have "cross_lines g (int sizeX div 2) (int sizeY div 2) (int sizeZ div 2) [- arm..arm] =
      Inl TypeError" for g
  proof (cases "grid_set g (int sizeX div 2 - arm) (int sizeY div 2) (int sizeZ div 2) (Num 1)")
    case (Inl e)
    then show ?thesis unfolding l cross_lines_def by (cases e) simp
  next
    case (Inr g1)
    then show ?thesis unfolding l cross_lines_def by (simp add: w)
  qed
  then show "createInitial3DGrid random sizeX sizeY sizeZ (Some ''cross'') = Inl TypeError"
    by (simp add: createInitial3DGrid_def js_default_def Let_def arm_def)
qed

theorem createInitial3DGrid_throws_witness:
  "createInitial3DGrid (fixed_random 0) 1 1 1 (Some ''glider'') = Inl TypeError \<and>
   createInitial3DGrid (fixed_random 0) 4 1 1 (Some ''cross'') = Inl TypeError"
  using createInitial3DGrid_throws[of "''glider''" 1 "fixed_random 0" 1 1]
    createInitial3DGrid_throws[of "''glider''" 4 "fixed_random 0" 1 1]
  by simp

text \<open>An omitted pattern argument takes the parameter's default \<open>checkerboard\<close>, not the
  composite pattern: on 1 x 1 x 1 the call returns the grid holding 1.\<close>

theorem createInitial3DGrid_omitted_pattern_counterexample:
  "createInitial3DGrid (fixed_random 0) 1 1 1 None = Inr [[[Num 1]]]"
  by (simp add: createInitial3DGrid_def js_default_def fill_grid_def createEmpty3DGrid_def
      range0_def grid_set_def js_index_def array_set_def js_rem_def)


lemma counter_blocks:
  assumes "\<And>x arr i. x \<in> set xs \<Longrightarrow> i + length (blk x) \<le> length arr \<Longrightarrow>
             body x (arr, i) =
               Inr (take i arr @ blk x @ drop (i + length (blk x)) arr, i + length (blk x))"
    and "i + length (concat (map blk xs)) \<le> length arr"
  shows "for_loop xs body (arr, i) =
           Inr (take i arr @ concat (map blk xs) @ drop (i + length (concat (map blk xs))) arr,
                i + length (concat (map blk xs)))"
  using assms
proof (induction xs arbitrary: arr i)
  case Nil
  then show ?case by simp
next
  case (Cons x xs)
  let ?l = "length (blk x)"
  let ?r = "length (concat (map blk xs))"
  let ?arr1 = "take i arr @ blk x @ drop (i + ?l) arr"
  from Cons.prems(2) have fit: "i + ?l + ?r \<le> length arr" by simp
  have b: "body x (arr, i) = Inr (?arr1, i + ?l)"
    by (rule Cons.prems(1)) (use fit in simp_all)
  have len1: "length ?arr1 = length arr" using fit by simp
  have ih: "for_loop xs body (?arr1, i + ?l) =
      Inr (take (i + ?l) ?arr1 @ concat (map blk xs) @ drop (i + ?l + ?r) ?arr1, i + ?l + ?r)"
    by (rule Cons.IH) (use Cons.prems(1) fit len1 in auto)
  have t: "take (i + ?l) ?arr1 = take i arr @ blk x" using fit by simp
  have d: "drop (i + ?l + ?r) ?arr1 = drop (i + ?l + ?r) arr" using fit by (simp add: ac_simps)
  have "for_loop (x # xs) body (arr, i) =
      Inr (take i arr @ blk x @ concat (map blk xs) @ drop (i + ?l + ?r) arr, i + ?l + ?r)"
    by (simp only: for_loop.simps b bindE_Inr ih t d append_assoc)
  then show ?case by (simp add: add.assoc)
qed

lemma length_concat_uniform:
  assumes "\<And>b. b \<in> set bs \<Longrightarrow> length b = m"
  shows "length (concat bs) = length bs * m"
  using assms by (induction bs) simp_all

lemma length_concat_map:
  assumes "\<And>x. x \<in> set xs \<Longrightarrow> length (f x) = m"
  shows "length (concat (map f xs)) = length xs * m"
  using assms by (induction xs) simp_all

lemma nth_concat_uniform:
  assumes "\<And>b. b \<in> set bs \<Longrightarrow> length b = m" "i < length bs" "j < m"
  shows "concat bs ! (i * m + j) = bs ! i ! j"
  using assms
proof (induction bs arbitrary: i)
  case Nil
  then show ?case by simp
next
  case (Cons b bs)
  have lb: "length b = m" using Cons.prems(1) by simp
  show ?case
  proof (cases i)
    case 0
    then show ?thesis using lb Cons.prems(3) by (simp add: nth_append)
  next
    case (Suc i')
    have "concat bs ! (i' * m + j) = bs ! i' ! j"
      by (rule Cons.IH) (use Cons.prems Suc in auto)
    then show ?thesis using lb Suc by (simp add: nth_append)
  qed
qed

lemma length_range0 [simp]: "length (range0 n) = n"
  by (simp add: range0_def)

lemma nth_range0 [simp]: "i < n \<Longrightarrow> range0 n ! i = int i"
  by (simp add: range0_def)

lemma length_flat3: "length (flat3 na nb nc val) = na * nb * nc"
proof -
  have 1: "length (concat (map (\<lambda>b. map (val a b) (range0 nc)) (range0 nb))) = nb * nc" for a
    by (subst length_concat_map[where m = nc]) simp_all
  have "length (flat3 na nb nc val) = na * (nb * nc)"
    unfolding flat3_def
    by (subst length_concat_map[where m = "nb * nc"]) (simp_all add: 1)
  then show ?thesis by (simp add: mult.assoc)
qed

lemma nth_flat3:
  assumes "a < na" "b < nb" "c < nc"
  shows "flat3 na nb nc val ! (a * nb * nc + b * nc + c) = val (int a) (int b) (int c)"
proof -
  let ?inner = "\<lambda>a. map (\<lambda>b. map (val a b) (range0 nc)) (range0 nb)"
  let ?outer = "map (\<lambda>a. concat (?inner a)) (range0 na)"
  have li: "length (concat (?inner a')) = nb * nc" for a'
    by (subst length_concat_map[where m = nc]) simp_all
  have bc: "b * nc + c < nb * nc"
  proof -
    have "b * nc + c < b * nc + nc" using assms(3) by simp
    also have "\<dots> = Suc b * nc" by simp
    also have "\<dots> \<le> nb * nc" using assms(2) by (intro mult_le_mono1) simp
    finally show ?thesis .
  qed
  have "concat ?outer ! (a * (nb * nc) + (b * nc + c)) = ?outer ! a ! (b * nc + c)"
    by (rule nth_concat_uniform) (use li assms(1) bc in auto)
  also have "\<dots> = concat (?inner (int a)) ! (b * nc + c)"
    using assms(1) by simp
  also have "\<dots> = ?inner (int a) ! b ! c"
    by (rule nth_concat_uniform) (use assms in auto)
  also have "\<dots> = val (int a) (int b) (int c)"
    using assms by simp
  finally show ?thesis by (simp add: flat3_def mult.assoc add.assoc)
qed

lemma concat_map_singleton: "concat (map (\<lambda>x. [f x]) xs) = map f xs"
  by (induction xs) simp_all

lemma counter_fill3:
  fixes val :: "int \<Rightarrow> int \<Rightarrow> int \<Rightarrow> 'a"
    and body :: "int \<Rightarrow> int \<Rightarrow> int \<Rightarrow> 'a list \<times> nat \<Rightarrow> error + 'a list \<times> nat"
    and arr0 :: "'a list"
  assumes body: "\<And>a b c arr i. a \<in> set (range0 na) \<Longrightarrow> b \<in> set (range0 nb) \<Longrightarrow>
                  c \<in> set (range0 nc) \<Longrightarrow> i < length arr \<Longrightarrow>
                  body a b c (arr, i) = Inr (arr[i := val a b c], Suc i)"
    and len: "length arr0 = na * nb * nc"
  shows "for_loop (range0 na) (\<lambda>a. for_loop (range0 nb) (\<lambda>b. for_loop (range0 nc) (body a b)))
           (arr0, 0) = Inr (flat3 na nb nc val, na * nb * nc)"
proof -
  have l1: "for_loop (range0 nc) (body a b) (arr, i) =
      Inr (take i arr @ map (val a b) (range0 nc) @ drop (i + nc) arr, i + nc)"
    if "a \<in> set (range0 na)" "b \<in> set (range0 nb)" "i + nc \<le> length arr" for a b arr i
  proof -
    have "for_loop (range0 nc) (body a b) (arr, i) =
      Inr (take i arr @ concat (map (\<lambda>c. [val a b c]) (range0 nc)) @
           drop (i + length (concat (map (\<lambda>c. [val a b c]) (range0 nc)))) arr,
           i + length (concat (map (\<lambda>c. [val a b c]) (range0 nc))))"
    proof (rule counter_blocks)
      fix c and arr' :: "'a list" and i'
      assume "c \<in> set (range0 nc)" "i' + length [val a b c] \<le> length arr'"
      then show "body a b c (arr', i') =
          Inr (take i' arr' @ [val a b c] @ drop (i' + length [val a b c]) arr',
               i' + length [val a b c])"
        using body[OF that(1,2), where c = c and arr = arr' and i = i'] by (simp add: upd_conv_take_nth_drop)
    next
      show "i + length (concat (map (\<lambda>c. [val a b c]) (range0 nc))) \<le> length arr"
        using that(3) by (simp add: concat_map_singleton)
    qed
    then show ?thesis by (simp add: concat_map_singleton)
  qed
  let ?blk1 = "\<lambda>a b. map (val a b) (range0 nc)"
  have lb1: "length (concat (map (?blk1 a) (range0 nb))) = nb * nc" for a
    by (subst length_concat_map[where m = nc]) simp_all
  have l2: "for_loop (range0 nb) (\<lambda>b. for_loop (range0 nc) (body a b)) (arr, i) =
      Inr (take i arr @ concat (map (?blk1 a) (range0 nb)) @ drop (i + nb * nc) arr, i + nb * nc)"
    if "a \<in> set (range0 na)" "i + nb * nc \<le> length arr" for a arr i
  proof -
    have "for_loop (range0 nb) (\<lambda>b. for_loop (range0 nc) (body a b)) (arr, i) =
      Inr (take i arr @ concat (map (?blk1 a) (range0 nb)) @
           drop (i + length (concat (map (?blk1 a) (range0 nb)))) arr,
           i + length (concat (map (?blk1 a) (range0 nb))))"
    proof (rule counter_blocks)
      fix b and arr' :: "'a list" and i'
      assume "b \<in> set (range0 nb)" "i' + length (?blk1 a b) \<le> length arr'"
      then show "for_loop (range0 nc) (body a b) (arr', i') =
          Inr (take i' arr' @ ?blk1 a b @ drop (i' + length (?blk1 a b)) arr',
               i' + length (?blk1 a b))"
        using l1[OF that(1), where b = b and arr = arr' and i = i'] by simp
    next
      show "i + length (concat (map (?blk1 a) (range0 nb))) \<le> length arr"
        using that(2) by (simp only: lb1)
    qed
    then show ?thesis by (simp only: lb1)
  qed
  let ?blk2 = "\<lambda>a. concat (map (?blk1 a) (range0 nb))"
  have lb2: "length (concat (map ?blk2 (range0 na))) = na * nb * nc"
    using length_flat3[of na nb nc val] by (simp add: flat3_def)
  have "for_loop (range0 na) (\<lambda>a. for_loop (range0 nb) (\<lambda>b. for_loop (range0 nc) (body a b)))
      (arr0, 0) =
      Inr (take 0 arr0 @ concat (map ?blk2 (range0 na)) @
           drop (0 + length (concat (map ?blk2 (range0 na)))) arr0,
           0 + length (concat (map ?blk2 (range0 na))))"
  proof (rule counter_blocks)
    fix a and arr' :: "'a list" and i'
    assume "a \<in> set (range0 na)" "i' + length (?blk2 a) \<le> length arr'"
    then show "for_loop (range0 nb) (\<lambda>b. for_loop (range0 nc) (body a b)) (arr', i') =
        Inr (take i' arr' @ ?blk2 a @ drop (i' + length (?blk2 a)) arr', i' + length (?blk2 a))"
      using l2[where a = a and arr = arr' and i = i'] by (simp only: lb1)
  next
    show "0 + length (concat (map ?blk2 (range0 na))) \<le> length arr0"
      using len by (simp only: lb2)
  qed
  then show ?thesis
    using len by (simp add: lb2 flat3_def)
qed

lemma tf_flat_data_valid:
  assumes v: "valid_grid g sx sy sz"
  shows "tf_flat_data g (sx, sy, sz) =
           Inr (flat3 sx sy sz (\<lambda>x y z. to_float32 (cell_of g x y z)))"
proof -
  from v have rg: "rect g sx sy sz" by (simp add: valid_grid_def)
  let ?body = "\<lambda>x y z (s :: f32 list \<times> nat). case s of (flatData, i) \<Rightarrow>
     bindE (grid_get g x y z) (\<lambda>v. Inr (flatData[i := to_float32 v], Suc i))"
  have "for_loop (range0 sx) (\<lambda>x. for_loop (range0 sy) (\<lambda>y. for_loop (range0 sz) (?body x y)))
      (replicate (sx * sy * sz) (Fl 0), 0) =
      Inr (flat3 sx sy sz (\<lambda>x y z. to_float32 (cell_of g x y z)), sx * sy * sz)"
  proof (rule counter_fill3)
    fix a b c and arr :: "f32 list" and i
    assume "a \<in> set (range0 sx)" "b \<in> set (range0 sy)" "c \<in> set (range0 sz)"
    then have "in_range sx sy sz a b c" by (simp add: set_range0 in_range_def)
    from grid_get_rect[OF rg this]
    show "?body a b c (arr, i) = Inr (arr[i := to_float32 (cell_of g a b c)], Suc i)" by simp
  qed simp
  then show ?thesis by (simp add: tf_flat_data_def)
qed

lemma webgpu_cell_data_valid:
  assumes v: "valid_grid g sx sy sz"
  shows "webgpu_cell_data g (sx, sy, sz) =
           Inr (flat3 sz sy sx (\<lambda>z y x. to_uint32 (cell_of g x y z)))"
proof -
  from v have rg: "rect g sx sy sz" by (simp add: valid_grid_def)
  let ?body = "\<lambda>z y x (s :: nat list \<times> nat). case s of (cellStateArray, cellIndex) \<Rightarrow>
     bindE (grid_get g x y z) (\<lambda>v. Inr (cellStateArray[cellIndex := to_uint32 v], Suc cellIndex))"
  have "for_loop (range0 sz) (\<lambda>z. for_loop (range0 sy) (\<lambda>y. for_loop (range0 sx) (?body z y)))
      (replicate (sx * sy * sz) 0, 0) =
      Inr (flat3 sz sy sx (\<lambda>z y x. to_uint32 (cell_of g x y z)), sz * sy * sx)"
  proof (rule counter_fill3)
    fix a b c and arr :: "nat list" and i
    assume "a \<in> set (range0 sz)" "b \<in> set (range0 sy)" "c \<in> set (range0 sx)"
    then have "in_range sx sy sz c b a" by (simp add: set_range0 in_range_def)
    from grid_get_rect[OF rg this]
    show "?body a b c (arr, i) = Inr (arr[i := to_uint32 (cell_of g c b a)], Suc i)" by simp
  qed (simp add: ac_simps)
  then show ?thesis by (simp add: webgpu_cell_data_def)
qed


lemma index3_inj:
  fixes a b c a' b' c' nb nc :: nat
  assumes "b < nb" "c < nc" "b' < nb" "c' < nc"
    and e: "a * nb * nc + b * nc + c = a' * nb * nc + b' * nc + c'"
  shows "a = a' \<and> b = b' \<and> c = c'"
proof -
  have e1: "(a * nb + b) * nc + c = (a' * nb + b') * nc + c'"
    using e by (simp add: algebra_simps)
  have "((a * nb + b) * nc + c) mod nc = c" "((a' * nb + b') * nc + c') mod nc = c'"
    using assms(2,4) by simp_all
  with e1 have c: "c = c'" by simp
  have "((a * nb + b) * nc + c) div nc = a * nb + b" "((a' * nb + b') * nc + c') div nc = a' * nb + b'"
    using assms(2,4) by simp_all
  with e1 have e2: "a * nb + b = a' * nb + b'" by simp
  have "(a * nb + b) mod nb = b" "(a' * nb + b') mod nb = b'"
    using assms(1,3) by simp_all
  with e2 have b: "b = b'" by simp
  have "(a * nb + b) div nb = a" "(a' * nb + b') div nb = a'"
    using assms(1,3) by simp_all
  with e2 have "a = a'" by simp
  with b c show ?thesis by simp
qed

lemma index3_less:
  fixes a b c na nb nc :: nat
  assumes "a < na" "b < nb" "c < nc"
  shows "a * nb * nc + b * nc + c < na * nb * nc"
proof -
  have "a * nb * nc + b * nc + c < a * nb * nc + b * nc + nc" using assms(3) by simp
  also have "\<dots> = (a * nb + Suc b) * nc" by (simp add: algebra_simps)
  also have "\<dots> \<le> (a * nb + nb) * nc" using assms(2) by (intro mult_le_mono1) simp
  also have "\<dots> = Suc a * nb * nc" by (simp add: algebra_simps)
  also have "\<dots> \<le> na * nb * nc" using assms(1) by (intro mult_le_mono1) simp
  finally show ?thesis .
qed

lemma z_major_index_inj:
  assumes "in_range sx sy sz x y z" "in_range sx sy sz x' y' z'"
    and "z_major_index sx sy x y z = z_major_index sx sy x' y' z'"
  shows "x = x' \<and> y = y' \<and> z = z'"
proof -
  note r = in_rangeD[OF assms(1)] and r' = in_rangeD[OF assms(2)]
  have "nat z = nat z' \<and> nat y = nat y' \<and> nat x = nat x'"
    by (rule index3_inj[OF r(2) r(1) r'(2) r'(1)]) (use assms(3) in \<open>simp add: z_major_index_def\<close>)
  with r(4-6) r'(4-6) show ?thesis by (simp add: eq_nat_nat_iff)
qed

lemma z_major_index_less:
  assumes "in_range sx sy sz x y z"
  shows "z_major_index sx sy x y z < sx * sy * sz"
proof -
  note r = in_rangeD[OF assms]
  have "nat z * sy * sx + nat y * sx + nat x < sz * sy * sx"
    by (rule index3_less[OF r(3) r(2) r(1)])
  then show ?thesis by (simp add: z_major_index_def ac_simps)
qed

lemma texture_data_valid:
  assumes v: "valid_grid g sx sy sz"
  shows "\<exists>data. texture_data g (sx, sy, sz) = Inr data \<and> length data = sx * sy * sz * 4 \<and>
           (\<forall>x y z. in_range sx sy sz x y z \<longrightarrow>
              data ! (z_major_index sx sy x y z * 4) = to_uint8 (js_times (cell_of g x y z) 255) \<and>
              data ! (z_major_index sx sy x y z * 4 + 1) = 0 \<and>
              data ! (z_major_index sx sy x y z * 4 + 2) = 0 \<and>
              data ! (z_major_index sx sy x y z * 4 + 3) = 255)"
proof -
  from v have rg: "rect g sx sy sz" by (simp add: valid_grid_def)
  define A where "A = (\<lambda>p :: int \<times> int \<times> int. case p of (x, y, z) \<Rightarrow> in_range sx sy sz x y z)"
  define ix where "ix = (\<lambda>p :: int \<times> int \<times> int. case p of (x, y, z) \<Rightarrow> z_major_index sx sy x y z * 4)"
  define val where "val = (\<lambda>(d :: nat list) p. (d ! ix p, d ! (ix p + 1), d ! (ix p + 2), d ! (ix p + 3)))"
  define G where "G = (\<lambda>p :: int \<times> int \<times> int. case p of (x, y, z) \<Rightarrow>
      (to_uint8 (js_times (cell_of g x y z) 255), 0 :: nat, 0 :: nat, 255 :: nat))"
  define R where "R = (\<lambda>d :: nat list. length d = sx * sy * sz * 4)"
  let ?bx = "\<lambda>z y x (data :: nat list).
     let index = nat ((z * int (sx * sy) + y * int sx + x) * 4) in
     bindE (grid_get g x y z) (\<lambda>v.
       Inr (data[index := to_uint8 (js_times v 255), index + 1 := 0, index + 2 := 0,
                 index + 3 := 255]))"
  have inner: "\<exists>s'. ?bx z y x s = Inr s' \<and> R s' \<and>
      (\<forall>p. A p \<longrightarrow> val s' p = (if p = (x, y, z) then G p else val s p))"
    if r: "in_range sx sy sz x y z" and "R s" for x y z s
  proof -
    note rr = in_rangeD[OF r]
    have i: "nat ((z * int (sx * sy) + y * int sx + x) * 4) = ix (x, y, z)"
      using rr by (simp add: ix_def z_major_index_def nat_add_distrib nat_mult_distrib ac_simps)
    let ?i = "ix (x, y, z)"
    let ?s' = "s[?i := to_uint8 (js_times (cell_of g x y z) 255), ?i + 1 := 0, ?i + 2 := 0,
                 ?i + 3 := 255]"
    have b: "?bx z y x s = Inr ?s'"
      unfolding Let_def i by (simp only: grid_get_rect[OF rg r] bindE_Inr)
    have l: "?i + 3 < length s"
      using z_major_index_less[OF r] \<open>R s\<close> by (simp add: R_def ix_def)
    have same: "val ?s' (x, y, z) = G (x, y, z)"
      using l by (simp add: val_def G_def)
    have other: "val ?s' p = val s p" if "A p" "p \<noteq> (x, y, z)" for p
    proof -
      obtain x' y' z' where p: "p = (x', y', z')" by (cases p)
      from that have r': "in_range sx sy sz x' y' z'" by (simp add: A_def p)
      have "z_major_index sx sy x' y' z' \<noteq> z_major_index sx sy x y z"
        using z_major_index_inj[OF r' r] that(2) p by auto
      then have "\<And>k k'. k < 4 \<Longrightarrow> k' < 4 \<Longrightarrow> ix p + k \<noteq> ?i + k'"
        by (simp add: ix_def p)
      from this[of 0 0] this[of 0 1] this[of 0 2] this[of 0 3]
        this[of 1 0] this[of 1 1] this[of 1 2] this[of 1 3]
        this[of 2 0] this[of 2 1] this[of 2 2] this[of 2 3]
        this[of 3 0] this[of 3 1] this[of 3 2] this[of 3 3]
      show ?thesis by (simp add: val_def)
    qed
    have "R ?s'" using \<open>R s\<close> by (simp add: R_def)
    with b same other show ?thesis by (intro exI[of _ ?s']) auto
  qed
  have xloop: "\<exists>s'. for_loop (range0 sx) (?bx z y) s = Inr s' \<and> R s' \<and>
      (\<forall>p. A p \<longrightarrow> val s' p = (if (\<exists>x \<in> set (range0 sx). p = (x, y, z)) then G p else val s p))"
    if "z \<in> set (range0 sz)" "y \<in> set (range0 sy)" "R s" for z y s
  proof (rule for_loop_level[where R = R and A = A and val = val and G = G
        and C = "\<lambda>x p. p = (x, y, z)", OF that(3)])
    fix x s assume "x \<in> set (range0 sx)" "R s"
    then show "\<exists>s'. ?bx z y x s = Inr s' \<and> R s' \<and>
        (\<forall>p. A p \<longrightarrow> val s' p = (if p = (x, y, z) then G p else val s p))"
      using that(1,2) by (intro inner) (auto simp: set_range0 in_range_def)
  qed
  have yloop: "\<exists>s'. for_loop (range0 sy) (\<lambda>y. for_loop (range0 sx) (?bx z y)) s = Inr s' \<and> R s' \<and>
      (\<forall>p. A p \<longrightarrow> val s' p =
         (if (\<exists>y \<in> set (range0 sy). \<exists>x \<in> set (range0 sx). p = (x, y, z)) then G p else val s p))"
    if "z \<in> set (range0 sz)" "R s" for z s
    by (rule for_loop_level[where R = R and A = A and val = val and G = G
        and C = "\<lambda>y p. \<exists>x \<in> set (range0 sx). p = (x, y, z)", OF that(2)])
      (use that(1) in \<open>intro xloop\<close>)
  have zloop: "\<exists>s'. for_loop (range0 sz) (\<lambda>z. for_loop (range0 sy) (\<lambda>y. for_loop (range0 sx) (?bx z y))) s = Inr s' \<and> R s' \<and>
      (\<forall>p. A p \<longrightarrow> val s' p =
         (if (\<exists>z \<in> set (range0 sz). \<exists>y \<in> set (range0 sy). \<exists>x \<in> set (range0 sx). p = (x, y, z))
          then G p else val s p))"
    if "R s" for s
    by (rule for_loop_level[where R = R and A = A and val = val and G = G
        and C = "\<lambda>z p. \<exists>y \<in> set (range0 sy). \<exists>x \<in> set (range0 sx). p = (x, y, z)", OF that])
      (intro yloop)
  have "R (replicate (sx * sy * sz * 4) 0)" by (simp add: R_def)
  from zloop[OF this] obtain data where d:
    "for_loop (range0 sz) (\<lambda>z. for_loop (range0 sy) (\<lambda>y. for_loop (range0 sx) (?bx z y)))
       (replicate (sx * sy * sz * 4) 0) = Inr data"
    "R data"
    "\<forall>p. A p \<longrightarrow> val data p =
         (if (\<exists>z \<in> set (range0 sz). \<exists>y \<in> set (range0 sy). \<exists>x \<in> set (range0 sx). p = (x, y, z))
          then G p else val (replicate (sx * sy * sz * 4) 0) p)"
    by blast
  have "val data (x, y, z) = G (x, y, z)" if "in_range sx sy sz x y z" for x y z
  proof -
    have "A (x, y, z)" using that by (simp add: A_def)
    moreover have "\<exists>z' \<in> set (range0 sz). \<exists>y' \<in> set (range0 sy). \<exists>x' \<in> set (range0 sx).
        (x, y, z) = (x', y', z')"
      using that by (simp add: set_range0 in_range_def)
    ultimately show ?thesis using d(3) by simp
  qed
  then have "\<forall>x y z. in_range sx sy sz x y z \<longrightarrow>
              data ! (z_major_index sx sy x y z * 4) = to_uint8 (js_times (cell_of g x y z) 255) \<and>
              data ! (z_major_index sx sy x y z * 4 + 1) = 0 \<and>
              data ! (z_major_index sx sy x y z * 4 + 2) = 0 \<and>
              data ! (z_major_index sx sy x y z * 4 + 3) = 255"
    by (simp add: val_def G_def ix_def)
  moreover have "texture_data g (sx, sy, sz) = Inr data"
    using d(1) by (simp add: texture_data_def Let_def)
  moreover have "length data = sx * sy * sz * 4" using d(2) by (simp add: R_def)
  ultimately show ?thesis by blast
qed


lemma for_loop_level3:
  assumes "R s0"
    and inner: "\<And>a b c s. a \<in> set as \<Longrightarrow> b \<in> set bs \<Longrightarrow> c \<in> set cs \<Longrightarrow> R s \<Longrightarrow>
           \<exists>s'. body a b c s = Inr s' \<and> R s' \<and>
             (\<forall>p. A p \<longrightarrow> val s' p = (if p = P a b c then G p else val s p))"
  shows "\<exists>s'. for_loop as (\<lambda>a. for_loop bs (\<lambda>b. for_loop cs (body a b))) s0 = Inr s' \<and> R s' \<and>
           (\<forall>p. A p \<longrightarrow> val s' p =
              (if (\<exists>a \<in> set as. \<exists>b \<in> set bs. \<exists>c \<in> set cs. p = P a b c) then G p else val s0 p))"
proof -
  have l1: "\<exists>s'. for_loop cs (body a b) s = Inr s' \<and> R s' \<and>
      (\<forall>p. A p \<longrightarrow> val s' p = (if (\<exists>c \<in> set cs. p = P a b c) then G p else val s p))"
    if "a \<in> set as" "b \<in> set bs" "R s" for a b s
    by (rule for_loop_level[where R = R and A = A and val = val and G = G
          and C = "\<lambda>c p. p = P a b c", OF that(3)])
      (use that(1,2) in \<open>intro inner\<close>)
  have l2: "\<exists>s'. for_loop bs (\<lambda>b. for_loop cs (body a b)) s = Inr s' \<and> R s' \<and>
      (\<forall>p. A p \<longrightarrow> val s' p =
         (if (\<exists>b \<in> set bs. \<exists>c \<in> set cs. p = P a b c) then G p else val s p))"
    if "a \<in> set as" "R s" for a s
    by (rule for_loop_level[where R = R and A = A and val = val and G = G
          and C = "\<lambda>b p. \<exists>c \<in> set cs. p = P a b c", OF that(2)])
      (use that(1) in \<open>intro l1\<close>)
  show ?thesis
    by (rule for_loop_level[where R = R and A = A and val = val and G = G
          and C = "\<lambda>a p. \<exists>b \<in> set bs. \<exists>c \<in> set cs. p = P a b c", OF assms(1)])
      (intro l2)
qed

lemma for_loop_counter_level:
  fixes m i0 :: nat
  assumes "R s"
    and step: "\<And>k s. k < n \<Longrightarrow> R s \<Longrightarrow>
           \<exists>s'. body (int k) (s, i0 + k * m) = Inr (s', i0 + k * m + m) \<and> R s' \<and>
             (\<forall>p. A p \<longrightarrow> val s' p = (if C (int k) p then G p else val s p))"
  shows "\<exists>s'. for_loop (range0 n) body (s, i0) = Inr (s', i0 + n * m) \<and> R s' \<and>
           (\<forall>p. A p \<longrightarrow> val s' p = (if (\<exists>k < n. C (int k) p) then G p else val s p))"
  using step
proof (induction n)
  case 0
  then show ?case using assms(1) by (simp add: range0_simps)
next
  case (Suc n)
  have "\<exists>s'. for_loop (range0 n) body (s, i0) = Inr (s', i0 + n * m) \<and> R s' \<and>
      (\<forall>p. A p \<longrightarrow> val s' p = (if (\<exists>k < n. C (int k) p) then G p else val s p))"
    by (rule Suc.IH) (use Suc.prems in auto)
  then obtain s1 where s1: "for_loop (range0 n) body (s, i0) = Inr (s1, i0 + n * m)" "R s1"
    "\<forall>p. A p \<longrightarrow> val s1 p = (if (\<exists>k < n. C (int k) p) then G p else val s p)"
    by blast
  from Suc.prems[of n s1] s1(2)
  obtain s' where s': "body (int n) (s1, i0 + n * m) = Inr (s', i0 + n * m + m)" "R s'"
    "\<forall>p. A p \<longrightarrow> val s' p = (if C (int n) p then G p else val s1 p)"
    by auto
  have "for_loop (range0 (Suc n)) body (s, i0) = body (int n) (s1, i0 + n * m)"
    by (simp add: range0_simps for_loop_append s1(1) bindE_def split: sum.splits)
  also have "\<dots> = Inr (s', i0 + n * m + m)" by (rule s'(1))
  finally have "for_loop (range0 (Suc n)) body (s, i0) = Inr (s', i0 + Suc n * m)"
    by (simp add: ac_simps)
  moreover have "\<forall>p. A p \<longrightarrow> val s' p = (if (\<exists>k < Suc n. C (int k) p) then G p else val s p)"
    using s1(3) s'(3) by (auto simp: less_Suc_eq)
  ultimately show ?case using s'(2) by blast
qed

lemma for_loop_counter_level3:
  fixes na nb nc :: nat
  assumes "R s0"
    and inner: "\<And>a b c s. a < na \<Longrightarrow> b < nb \<Longrightarrow> c < nc \<Longrightarrow> R s \<Longrightarrow>
           \<exists>s'. body (int a) (int b) (int c) (s, a * nb * nc + b * nc + c) =
                  Inr (s', Suc (a * nb * nc + b * nc + c)) \<and> R s' \<and>
             (\<forall>p. A p \<longrightarrow> val s' p = (if p = P a b c then G p else val s p))"
  shows "\<exists>s'. for_loop (range0 na) (\<lambda>a. for_loop (range0 nb) (\<lambda>b. for_loop (range0 nc) (body a b)))
                (s0, 0) = Inr (s', na * nb * nc) \<and> R s' \<and>
           (\<forall>p. A p \<longrightarrow> val s' p =
              (if (\<exists>a < na. \<exists>b < nb. \<exists>c < nc. p = P a b c) then G p else val s0 p))"
proof -
  have l1: "\<exists>s'. for_loop (range0 nc) (body (int a) (int b)) (s, a * nb * nc + b * nc) =
        Inr (s', a * nb * nc + b * nc + nc) \<and> R s' \<and>
      (\<forall>p. A p \<longrightarrow> val s' p = (if (\<exists>c < nc. p = P a b c) then G p else val s p))"
    if ab: "a < na" "b < nb" and "R s" for a b s
  proof -
    have "\<exists>s'. for_loop (range0 nc) (body (int a) (int b)) (s, a * nb * nc + b * nc) =
          Inr (s', a * nb * nc + b * nc + nc * 1) \<and> R s' \<and>
        (\<forall>p. A p \<longrightarrow> val s' p = (if (\<exists>k < nc. p = P a b (nat (int k))) then G p else val s p))"
    proof (rule for_loop_counter_level[where R = R and A = A and val = val and G = G
          and C = "\<lambda>c p. p = P a b (nat c)", OF \<open>R s\<close>])
      fix k s assume "k < nc" "R s"
      from inner[OF ab this]
      show "\<exists>s'. body (int a) (int b) (int k) (s, a * nb * nc + b * nc + k * 1) =
                  Inr (s', a * nb * nc + b * nc + k * 1 + 1) \<and> R s' \<and>
             (\<forall>p. A p \<longrightarrow> val s' p = (if p = P a b (nat (int k)) then G p else val s p))"
        by simp
    qed
    then show ?thesis by simp
  qed
  have l2: "\<exists>s'. for_loop (range0 nb) (\<lambda>b. for_loop (range0 nc) (body (int a) b)) (s, a * nb * nc) =
        Inr (s', a * nb * nc + nb * nc) \<and> R s' \<and>
      (\<forall>p. A p \<longrightarrow> val s' p = (if (\<exists>b < nb. \<exists>c < nc. p = P a b c) then G p else val s p))"
    if a: "a < na" and "R s" for a s
  proof -
    have "\<exists>s'. for_loop (range0 nb) (\<lambda>b. for_loop (range0 nc) (body (int a) b)) (s, a * nb * nc) =
          Inr (s', a * nb * nc + nb * nc) \<and> R s' \<and>
        (\<forall>p. A p \<longrightarrow> val s' p =
           (if (\<exists>k < nb. \<exists>c < nc. p = P a (nat (int k)) c) then G p else val s p))"
    proof (rule for_loop_counter_level[where R = R and A = A and val = val and G = G
          and C = "\<lambda>b p. \<exists>c < nc. p = P a (nat b) c", OF \<open>R s\<close>])
      fix k s assume "k < nb" "R s"
      from l1[OF a this]
      show "\<exists>s'. for_loop (range0 nc) (body (int a) (int k)) (s, a * nb * nc + k * nc) =
                Inr (s', a * nb * nc + k * nc + nc) \<and> R s' \<and>
            (\<forall>p. A p \<longrightarrow> val s' p =
               (if \<exists>c < nc. p = P a (nat (int k)) c then G p else val s p))"
        by simp
    qed
    then show ?thesis by simp
  qed
  have "\<exists>s'. for_loop (range0 na) (\<lambda>a. for_loop (range0 nb) (\<lambda>b. for_loop (range0 nc) (body a b)))
        (s0, 0) = Inr (s', 0 + na * (nb * nc)) \<and> R s' \<and>
      (\<forall>p. A p \<longrightarrow> val s' p =
         (if (\<exists>k < na. \<exists>b < nb. \<exists>c < nc. p = P (nat (int k)) b c) then G p else val s0 p))"
  proof (rule for_loop_counter_level[where R = R and A = A and val = val and G = G
          and C = "\<lambda>a p. \<exists>b < nb. \<exists>c < nc. p = P (nat a) b c", OF assms(1)])
    fix k s assume "k < na" "R s"
    from l2[OF this]
    show "\<exists>s'. for_loop (range0 nb) (\<lambda>b. for_loop (range0 nc) (body (int k) b))
               (s, 0 + k * (nb * nc)) = Inr (s', 0 + k * (nb * nc) + nb * nc) \<and> R s' \<and>
          (\<forall>p. A p \<longrightarrow> val s' p =
             (if \<exists>b < nb. \<exists>c < nc. p = P (nat (int k)) b c then G p else val s p))"
      by (simp add: mult.assoc)
  qed
  then show ?thesis by (simp add: mult.assoc)
qed


lemma x_major_index_eq:
  "x_major_index sy sz (int a) (int b) (int c) = a * sy * sz + b * sz + c"
  by (simp add: x_major_index_def)

lemma in_range_nat_ex:
  assumes "in_range sx sy sz x y z"
  shows "\<exists>a < sx. \<exists>b < sy. \<exists>c < sz. (x, y, z) = (int a, int b, int c)"
proof -
  note rr = in_rangeD[OF assms]
  have "(x, y, z) = (int (nat x), int (nat y), int (nat z))" using rr by simp
  with rr(1-3) show ?thesis by blast
qed

lemma tf_read_back_tab3:
  "tf_read_back currentRule (sx, sy, sz) flatData =
     Inr (tab3 sx sy sz (\<lambda>x y z.
            tf_decode currentRule (f32_read flatData (x_major_index sy sz x y z))))"
proof -
  define A where "A = (\<lambda>p :: int \<times> int \<times> int. case p of (x, y, z) \<Rightarrow> in_range sx sy sz x y z)"
  define val where "val = (\<lambda>(g :: grid3) (p :: int \<times> int \<times> int). case p of (x, y, z) \<Rightarrow> cell_of g x y z)"
  define G where "G = (\<lambda>p :: int \<times> int \<times> int. case p of (x, y, z) \<Rightarrow>
      tf_decode currentRule (f32_read flatData (x_major_index sy sz x y z)))"
  define R where "R = (\<lambda>g. rect g sx sy sz \<and>
     (\<forall>x y z. in_range sx sy sz x y z \<longrightarrow> cell_of g x y z \<noteq> Num 0 \<longrightarrow> cell_of g x y z = G (x, y, z)))"
  let ?body = "\<lambda>x y z (s :: grid3 \<times> nat). case s of (result, i) \<Rightarrow>
       if currentRule = ''briansbrain3d'' then
         (let value = f32_read flatData i in
          if fgreater value (3 / 4) then
            bindE (grid_set result x y z (Num 1)) (\<lambda>r. Inr (r, Suc i))
          else if fgreater value (1 / 4) then
            bindE (grid_set result x y z (Num 2)) (\<lambda>r. Inr (r, Suc i))
          else Inr (result, Suc i))
       else
         bindE (grid_set result x y z (js_round (f32_read flatData i)))
           (\<lambda>r. Inr (r, Suc i))"
  have inner: "\<exists>s'. ?body (int a) (int b) (int c) (s, a * sy * sz + b * sz + c) =
        Inr (s', Suc (a * sy * sz + b * sz + c)) \<and> R s' \<and>
      (\<forall>p. A p \<longrightarrow> val s' p = (if p = (int a, int b, int c) then G p else val s p))"
    if abc: "a < sx" "b < sy" "c < sz" and "R s" for a b c s
  proof -
    let ?i = "a * sy * sz + b * sz + c"
    let ?v = "f32_read flatData ?i"
    have r: "in_range sx sy sz (int a) (int b) (int c)" using abc by (simp add: in_range_def)
    from \<open>R s\<close> have rs: "rect s sx sy sz" by (simp add: R_def)
    have Gp: "G (int a, int b, int c) = tf_decode currentRule ?v"
      by (simp add: G_def x_major_index_eq)
    have wr: "\<exists>s'. grid_set s (int a) (int b) (int c) (G (int a, int b, int c)) = Inr s' \<and> R s' \<and>
        (\<forall>p. A p \<longrightarrow> val s' p = (if p = (int a, int b, int c) then G p else val s p))"
    proof -
      from grid_set_rect[OF rs r, of "G (int a, int b, int c)"]
      obtain g' where g': "grid_set s (int a) (int b) (int c) (G (int a, int b, int c)) = Inr g'"
        "rect g' sx sy sz"
        "\<forall>x' y' z'. in_range sx sy sz x' y' z' \<longrightarrow> cell_of g' x' y' z' =
           (if x' = int a \<and> y' = int b \<and> z' = int c then G (int a, int b, int c)
            else cell_of s x' y' z')"
        by blast
      have "R g'" using g'(2,3) \<open>R s\<close> by (auto simp: R_def)
      moreover have "\<forall>p. A p \<longrightarrow> val g' p = (if p = (int a, int b, int c) then G p else val s p)"
        using g'(3) by (auto simp: A_def val_def)
      ultimately show ?thesis using g'(1) by blast
    qed
    show ?thesis
    proof (cases "currentRule = ''briansbrain3d'' \<and> \<not> fgreater ?v (3 / 4) \<and> \<not> fgreater ?v (1 / 4)")
      case True
      then have b: "?body (int a) (int b) (int c) (s, ?i) = Inr (s, Suc ?i)" by simp
      have g0: "G (int a, int b, int c) = Num 0" using True by (simp add: Gp tf_decode_def)
      have "val s (int a, int b, int c) = G (int a, int b, int c)"
      proof (cases "cell_of s (int a) (int b) (int c) = Num 0")
        case True
        then show ?thesis by (simp add: val_def g0)
      next
        case False
        with \<open>R s\<close> r show ?thesis by (simp add: R_def val_def)
      qed
      then have "\<forall>p. A p \<longrightarrow> val s p = (if p = (int a, int b, int c) then G p else val s p)"
        by simp
      with b \<open>R s\<close> show ?thesis by blast
    next
      case False
      from wr obtain s' where s': "grid_set s (int a) (int b) (int c) (G (int a, int b, int c)) = Inr s'"
        "R s'" "\<forall>p. A p \<longrightarrow> val s' p = (if p = (int a, int b, int c) then G p else val s p)"
        by blast
      have "?body (int a) (int b) (int c) (s, ?i) = Inr (s', Suc ?i)"
        using False s'(1) by (auto simp: Gp tf_decode_def Let_def)
      with s'(2,3) show ?thesis by blast
    qed
  qed
  have "R (createEmpty3DGrid sx sy sz)"
    by (simp add: R_def rect_createEmpty3DGrid cell_of_createEmpty3DGrid)
  from for_loop_counter_level3[where R = R and A = A and val = val and G = G and body = ?body
      and P = "\<lambda>a b c. (int a, int b, int c)" and na = sx and nb = sy and nc = sz, OF this inner]
  obtain g' where g':
    "for_loop (range0 sx) (\<lambda>x. for_loop (range0 sy) (\<lambda>y. for_loop (range0 sz) (?body x y)))
       (createEmpty3DGrid sx sy sz, 0) = Inr (g', sx * sy * sz)"
    "R g'"
    "\<forall>p. A p \<longrightarrow> val g' p =
       (if (\<exists>a < sx. \<exists>b < sy. \<exists>c < sz. p = (int a, int b, int c)) then G p
        else val (createEmpty3DGrid sx sy sz) p)"
    by blast
  have "cell_of g' x y z = G (x, y, z)" if "in_range sx sy sz x y z" for x y z
  proof -
    note rr = in_rangeD[OF that]
    have "A (x, y, z)" using that by (simp add: A_def)
    moreover have "\<exists>a < sx. \<exists>b < sy. \<exists>c < sz. (x, y, z) = (int a, int b, int c)"
      by (rule in_range_nat_ex[OF that])
    ultimately have "val g' (x, y, z) = G (x, y, z)" using g'(3) by simp
    then show ?thesis by (simp add: val_def)
  qed
  with g'(2) have "g' = tab3 sx sy sz (\<lambda>x y z.
      tf_decode currentRule (f32_read flatData (x_major_index sy sz x y z)))"
    by (intro rect_eq_tab3) (auto simp: R_def G_def)
  with g'(1) show ?thesis by (simp add: tf_read_back_def)
qed


lemma js_index_nat:
  "js_index xs (int i) = (if i < length xs then Some (xs ! i) else None)"
  by (simp add: js_index_def)

lemma z_major_index_eq:
  "z_major_index sx sy (int c) (int b) (int a) = a * sy * sx + b * sx + c"
  by (simp add: z_major_index_def)

lemma gpu_read_back_tab3:
  "gpu_read_back (sx, sy, sz) pixelBuffer =
     Inr (tab3 sx sy sz (\<lambda>x y z. gpu_decode pixelBuffer (z_major_index sx sy x y z * 4)))"
proof -
  define A where "A = (\<lambda>p :: int \<times> int \<times> int. case p of (x, y, z) \<Rightarrow> in_range sx sy sz x y z)"
  define val where "val = (\<lambda>(g :: grid3) (p :: int \<times> int \<times> int). case p of (x, y, z) \<Rightarrow> cell_of g x y z)"
  define G where "G = (\<lambda>p :: int \<times> int \<times> int. case p of (x, y, z) \<Rightarrow>
      gpu_decode pixelBuffer (z_major_index sx sy x y z * 4))"
  define R where "R = (\<lambda>g :: grid3. rect g sx sy sz)"
  let ?body = "\<lambda>z y x (result :: grid3).
     let index = (z * int (sx * sy) + y * int sx + x) * 4 in
     grid_set result x y z
       (case js_index pixelBuffer index of
          Some b \<Rightarrow> if b > 127 then Num 1 else Num 0
        | None \<Rightarrow> Num 0)"
  have inner: "\<exists>s'. ?body z y x s = Inr s' \<and> R s' \<and>
      (\<forall>p. A p \<longrightarrow> val s' p = (if p = (x, y, z) then G p else val s p))"
    if "z \<in> set (range0 sz)" "y \<in> set (range0 sy)" "x \<in> set (range0 sx)" "R s" for z y x s
  proof -
    from that have r: "in_range sx sy sz x y z" by (simp add: set_range0 in_range_def)
    note rr = in_rangeD[OF r]
    have i: "(z * int (sx * sy) + y * int sx + x) * 4 = int (z_major_index sx sy x y z * 4)"
      using rr by (simp add: z_major_index_def ac_simps)
    have v: "(case js_index pixelBuffer ((z * int (sx * sy) + y * int sx + x) * 4) of
          Some b \<Rightarrow> if b > 127 then Num 1 else Num 0
        | None \<Rightarrow> Num 0) = G (x, y, z)"
      unfolding i js_index_nat by (simp add: G_def gpu_decode_def)
    from \<open>R s\<close> have rs: "rect s sx sy sz" by (simp add: R_def)
    from grid_set_rect[OF rs r, of "G (x, y, z)"]
    obtain g' where g': "grid_set s x y z (G (x, y, z)) = Inr g'" "rect g' sx sy sz"
      "\<forall>x' y' z'. in_range sx sy sz x' y' z' \<longrightarrow> cell_of g' x' y' z' =
         (if x' = x \<and> y' = y \<and> z' = z then G (x, y, z) else cell_of s x' y' z')"
      by blast
    have "?body z y x s = Inr g'" unfolding Let_def v by (rule g'(1))
    moreover have "\<forall>p. A p \<longrightarrow> val g' p = (if p = (x, y, z) then G p else val s p)"
      using g'(3) by (auto simp: A_def val_def)
    ultimately show ?thesis using g'(2) by (auto simp: R_def)
  qed
  have "R (createEmpty3DGrid sx sy sz)" by (simp add: R_def rect_createEmpty3DGrid)
  from for_loop_level3[where R = R and A = A and val = val and G = G and body = ?body
      and P = "\<lambda>z y x. (x, y, z)" and as = "range0 sz" and bs = "range0 sy" and cs = "range0 sx",
      OF this inner]
  obtain g' where g':
    "for_loop (range0 sz) (\<lambda>z. for_loop (range0 sy) (\<lambda>y. for_loop (range0 sx) (?body z y)))
       (createEmpty3DGrid sx sy sz) = Inr g'"
    "R g'"
    "\<forall>p. A p \<longrightarrow> val g' p =
       (if (\<exists>z \<in> set (range0 sz). \<exists>y \<in> set (range0 sy). \<exists>x \<in> set (range0 sx). p = (x, y, z))
        then G p else val (createEmpty3DGrid sx sy sz) p)"
    by blast
  have "cell_of g' x y z = G (x, y, z)" if "in_range sx sy sz x y z" for x y z
  proof -
    have "A (x, y, z)" using that by (simp add: A_def)
    moreover have "\<exists>z' \<in> set (range0 sz). \<exists>y' \<in> set (range0 sy). \<exists>x' \<in> set (range0 sx).
        (x, y, z) = (x', y', z')"
      using that by (simp add: set_range0 in_range_def)
    ultimately have "val g' (x, y, z) = G (x, y, z)" using g'(3) by simp
    then show ?thesis by (simp add: val_def)
  qed
  with g'(2) have "g' = tab3 sx sy sz (\<lambda>x y z. gpu_decode pixelBuffer (z_major_index sx sy x y z * 4))"
    by (intro rect_eq_tab3) (auto simp: R_def G_def)
  with g'(1) show ?thesis by (simp add: gpu_read_back_def Let_def)
qed

lemma webgpu_read_back_tab3:
  "webgpu_read_back (sx, sy, sz) resultData =
     Inr (tab3 sx sy sz (\<lambda>x y z. webgpu_decode resultData (z_major_index sx sy x y z)))"
proof -
  define A where "A = (\<lambda>p :: int \<times> int \<times> int. case p of (x, y, z) \<Rightarrow> in_range sx sy sz x y z)"
  define val where "val = (\<lambda>(g :: grid3) (p :: int \<times> int \<times> int). case p of (x, y, z) \<Rightarrow> cell_of g x y z)"
  define G where "G = (\<lambda>p :: int \<times> int \<times> int. case p of (x, y, z) \<Rightarrow>
      webgpu_decode resultData (z_major_index sx sy x y z))"
  define R where "R = (\<lambda>g :: grid3. rect g sx sy sz)"
  let ?body = "\<lambda>z y x (s :: grid3 \<times> nat). case s of (result, cellIndex) \<Rightarrow>
       bindE (grid_set result x y z
                (case js_index resultData (int cellIndex) of
                   Some v \<Rightarrow> Num (int v) | None \<Rightarrow> Undefined))
         (\<lambda>r. Inr (r, Suc cellIndex))"
  have inner: "\<exists>s'. ?body (int a) (int b) (int c) (s, a * sy * sx + b * sx + c) =
        Inr (s', Suc (a * sy * sx + b * sx + c)) \<and> R s' \<and>
      (\<forall>p. A p \<longrightarrow> val s' p = (if p = (int c, int b, int a) then G p else val s p))"
    if abc: "a < sz" "b < sy" "c < sx" and "R s" for a b c s
  proof -
    let ?i = "a * sy * sx + b * sx + c"
    have r: "in_range sx sy sz (int c) (int b) (int a)" using abc by (simp add: in_range_def)
    have v: "(case js_index resultData (int ?i) of Some v \<Rightarrow> Num (int v) | None \<Rightarrow> Undefined) =
        G (int c, int b, int a)"
      unfolding js_index_nat by (simp add: G_def webgpu_decode_def z_major_index_eq)
    from \<open>R s\<close> have rs: "rect s sx sy sz" by (simp add: R_def)
    from grid_set_rect[OF rs r, of "G (int c, int b, int a)"]
    obtain g' where g': "grid_set s (int c) (int b) (int a) (G (int c, int b, int a)) = Inr g'"
      "rect g' sx sy sz"
      "\<forall>x' y' z'. in_range sx sy sz x' y' z' \<longrightarrow> cell_of g' x' y' z' =
         (if x' = int c \<and> y' = int b \<and> z' = int a then G (int c, int b, int a)
          else cell_of s x' y' z')"
      by blast
    have "?body (int a) (int b) (int c) (s, ?i) = Inr (g', Suc ?i)"
      unfolding prod.case v by (simp add: g'(1))
    moreover have "\<forall>p. A p \<longrightarrow> val g' p = (if p = (int c, int b, int a) then G p else val s p)"
      using g'(3) by (auto simp: A_def val_def)
    ultimately show ?thesis using g'(2) by (auto simp: R_def)
  qed
  have "R (createEmpty3DGrid sx sy sz)" by (simp add: R_def rect_createEmpty3DGrid)
  from for_loop_counter_level3[where R = R and A = A and val = val and G = G and body = ?body
      and P = "\<lambda>a b c. (int c, int b, int a)" and na = sz and nb = sy and nc = sx, OF this inner]
  obtain g' where g':
    "for_loop (range0 sz) (\<lambda>z. for_loop (range0 sy) (\<lambda>y. for_loop (range0 sx) (?body z y)))
       (createEmpty3DGrid sx sy sz, 0) = Inr (g', sz * sy * sx)"
    "R g'"
    "\<forall>p. A p \<longrightarrow> val g' p =
       (if (\<exists>a < sz. \<exists>b < sy. \<exists>c < sx. p = (int c, int b, int a)) then G p
        else val (createEmpty3DGrid sx sy sz) p)"
    by blast
  have "cell_of g' x y z = G (x, y, z)" if "in_range sx sy sz x y z" for x y z
  proof -
    note rr = in_rangeD[OF that]
    have "A (x, y, z)" using that by (simp add: A_def)
    moreover have "(x, y, z) = (int (nat x), int (nat y), int (nat z))" using rr by simp
    with rr(1-3) have "\<exists>a < sz. \<exists>b < sy. \<exists>c < sx. (x, y, z) = (int c, int b, int a)"
      by blast
    ultimately have "val g' (x, y, z) = G (x, y, z)" using g'(3) by simp
    then show ?thesis by (simp add: val_def)
  qed
  with g'(2) have "g' = tab3 sx sy sz (\<lambda>x y z. webgpu_decode resultData (z_major_index sx sy x y z))"
    by (intro rect_eq_tab3) (auto simp: R_def G_def)
  with g'(1) show ?thesis by (simp add: webgpu_read_back_def)
qed


lemma nth_flat3_x_major:
  assumes "in_range sx sy sz x y z"
  shows "flat3 sx sy sz val ! x_major_index sy sz x y z = val x y z"
proof -
  note rr = in_rangeD[OF assms]
  from nth_flat3[OF rr(1-3), of val] rr(4-6) show ?thesis
    by (simp add: x_major_index_def)
qed

lemma nth_flat3_z_major:
  assumes "in_range sx sy sz x y z"
  shows "flat3 sz sy sx val ! z_major_index sx sy x y z = val z y x"
proof -
  note rr = in_rangeD[OF assms]
  from nth_flat3[OF rr(3) rr(2) rr(1), of val] rr(4-6) show ?thesis
    by (simp add: z_major_index_def)
qed

text \<open>
  Claim C7, amended for the tensor engine. For a valid grid and a cell (x,y,z) in range:
  the compute-buffer engine stores the cell at flat index z*sizeY*sizeX + y*sizeX + x and
  reads it back from there; the texture engine stores its byte at four times that index
  and reads it back from there; the tensor engine stores the cell at
  x*sizeY*sizeZ + y*sizeZ + z, the row-major position for the shape
  (sizeX, sizeY, sizeZ), and reads it back from there.
\<close>

theorem flat_buffer_orders:
  assumes "valid_grid g sx sy sz" and "in_range sx sy sz x y z"
  shows "(\<exists>buf. webgpu_cell_data g (sx, sy, sz) = Inr buf \<and>
            buf ! z_major_index sx sy x y z = to_uint32 (cell_of g x y z)) \<and>
         (\<exists>data. texture_data g (sx, sy, sz) = Inr data \<and>
            data ! (z_major_index sx sy x y z * 4) = to_uint8 (js_times (cell_of g x y z) 255)) \<and>
         (\<exists>flat. tf_flat_data g (sx, sy, sz) = Inr flat \<and>
            flat ! x_major_index sy sz x y z = to_float32 (cell_of g x y z)) \<and>
         (\<forall>resultData. \<exists>r. webgpu_read_back (sx, sy, sz) resultData = Inr r \<and>
            cell_of r x y z = webgpu_decode resultData (z_major_index sx sy x y z)) \<and>
         (\<forall>pixelBuffer. \<exists>r. gpu_read_back (sx, sy, sz) pixelBuffer = Inr r \<and>
            cell_of r x y z = gpu_decode pixelBuffer (z_major_index sx sy x y z * 4)) \<and>
         (\<forall>rule flatData. \<exists>r. tf_read_back rule (sx, sy, sz) flatData = Inr r \<and>
            cell_of r x y z = tf_decode rule (f32_read flatData (x_major_index sy sz x y z)))"
proof (intro conjI allI)
  show "\<exists>buf. webgpu_cell_data g (sx, sy, sz) = Inr buf \<and>
            buf ! z_major_index sx sy x y z = to_uint32 (cell_of g x y z)"
    using webgpu_cell_data_valid[OF assms(1)] nth_flat3_z_major[OF assms(2)] by simp
next
  from texture_data_valid[OF assms(1)] assms(2)
  show "\<exists>data. texture_data g (sx, sy, sz) = Inr data \<and>
            data ! (z_major_index sx sy x y z * 4) = to_uint8 (js_times (cell_of g x y z) 255)"
    by blast
next
  show "\<exists>flat. tf_flat_data g (sx, sy, sz) = Inr flat \<and>
            flat ! x_major_index sy sz x y z = to_float32 (cell_of g x y z)"
    using tf_flat_data_valid[OF assms(1)] nth_flat3_x_major[OF assms(2)] by simp
next
  fix resultData
  show "\<exists>r. webgpu_read_back (sx, sy, sz) resultData = Inr r \<and>
            cell_of r x y z = webgpu_decode resultData (z_major_index sx sy x y z)"
    by (simp add: webgpu_read_back_tab3 cell_of_tab3[OF assms(2)])
next
  fix pixelBuffer
  show "\<exists>r. gpu_read_back (sx, sy, sz) pixelBuffer = Inr r \<and>
            cell_of r x y z = gpu_decode pixelBuffer (z_major_index sx sy x y z * 4)"
    by (simp add: gpu_read_back_tab3 cell_of_tab3[OF assms(2)])
next
  fix rule flatData
  show "\<exists>r. tf_read_back rule (sx, sy, sz) flatData = Inr r \<and>
            cell_of r x y z = tf_decode rule (f32_read flatData (x_major_index sy sz x y z))"
    by (simp add: tf_read_back_tab3 cell_of_tab3[OF assms(2)])
qed

theorem flat_buffer_orders_witness:
  "valid_grid [[[Num 0, Num 1]], [[Num 0, Num 0]]] 2 1 2 \<and> in_range 2 1 2 0 0 1 \<and>
   (\<exists>buf. webgpu_cell_data [[[Num 0, Num 1]], [[Num 0, Num 0]]] (2, 1, 2) = Inr buf \<and>
      buf ! 2 = 1) \<and>
   (\<exists>data. texture_data [[[Num 0, Num 1]], [[Num 0, Num 0]]] (2, 1, 2) = Inr data \<and>
      data ! 8 = 255) \<and>
   (\<exists>flat. tf_flat_data [[[Num 0, Num 1]], [[Num 0, Num 0]]] (2, 1, 2) = Inr flat \<and>
      flat ! 1 = Fl 1)"
proof -
  have v: "valid_grid [[[Num 0, Num 1]], [[Num 0, Num 0]]] 2 1 2"
    by (simp add: valid_grid_def rect_def)
  have r: "in_range 2 1 2 0 0 1" by (simp add: in_range_def)
  have i: "z_major_index 2 1 0 0 1 = 2" "x_major_index 1 2 0 0 1 = 1"
    by (simp_all add: z_major_index_def x_major_index_def)
  have c: "cell_of [[[Num 0, Num 1]], [[Num 0, Num 0]]] 0 0 1 = Num 1"
    by (simp add: cell_of_def)
  have e: "to_uint32 (Num 1) = 1" "to_uint8 (js_times (Num 1) 255) = 255"
    "to_float32 (Num 1) = Fl 1" "(2::nat) * 4 = 8"
    by (simp_all add: f32_round_small)
  note t = flat_buffer_orders[OF v r, unfolded i c e]
  with v r show ?thesis by blast
qed

text \<open>In the tensor engine's flat data the cell (0,0,1) of a 2 x 1 x 2 grid is at index 1,
  not at the z-major index 2.\<close>

theorem tf_flat_data_counterexample:
  "tf_flat_data [[[Num 0, Num 1]], [[Num 0, Num 0]]] (2, 1, 2) = Inr [Fl 0, Fl 1, Fl 0, Fl 0] \<and>
   z_major_index 2 1 0 0 1 = 2 \<and>
   [Fl 0, Fl 1, Fl 0, Fl 0] ! 2 \<noteq> to_float32 (cell_of [[[Num 0, Num 1]], [[Num 0, Num 0]]] 0 0 1)"
proof -
  have v: "valid_grid [[[Num 0, Num 1]], [[Num 0, Num 0]]] 2 1 2"
    by (simp add: valid_grid_def rect_def)
  have "tf_flat_data [[[Num 0, Num 1]], [[Num 0, Num 0]]] (2, 1, 2) =
      Inr [Fl 0, Fl 1, Fl 0, Fl 0]"
    unfolding tf_flat_data_valid[OF v]
    by (simp add: flat3_def range0_def upt_rec cell_of_def f32_round_small)
  moreover have "z_major_index 2 1 0 0 1 = 2" by (simp add: z_major_index_def)
  moreover have "[Fl 0, Fl 1, Fl 0, Fl 0] ! 2 \<noteq>
      to_float32 (cell_of [[[Num 0, Num 1]], [[Num 0, Num 0]]] 0 0 1)"
    by (simp add: cell_of_def f32_round_small)
  ultimately show ?thesis by (intro conjI)
qed


lemma length_tf_ops [simp]:
  "length (tf_greater t c) = length t"
  "length (tf_less t c) = length t"
  "length (tf_equal t c) = length t"
  "length (tf_logicalAnd a b) = min (length a) (length b)"
  "length (tf_mul_scalar m c) = length m"
  "length (tf_add u w) = min (length u) (length w)"
  by (simp_all add: tf_greater_def tf_less_def tf_equal_def tf_logicalAnd_def
      tf_mul_scalar_def tf_add_def)

lemma nth_tf_ops:
  "j < length t \<Longrightarrow> tf_greater t c ! j = fgreater (t ! j) c"
  "j < length t \<Longrightarrow> tf_less t c ! j = fless (t ! j) c"
  "j < length t \<Longrightarrow> tf_equal t c ! j = fequal (t ! j) c"
  "j < length a \<Longrightarrow> j < length b \<Longrightarrow> tf_logicalAnd a b ! j = (a ! j \<and> b ! j)"
  "j < length m \<Longrightarrow> tf_mul_scalar m c ! j = fmul (Fl (if m ! j then 1 else 0)) (Fl c)"
  "j < length u \<Longrightarrow> j < length w \<Longrightarrow> tf_add u w ! j = fadd (u ! j) (w ! j)"
  by (simp_all add: tf_greater_def tf_less_def tf_equal_def tf_logicalAnd_def
      tf_mul_scalar_def tf_add_def)

lemma fold_lists_pointwise:
  assumes "\<And>i acc. length acc = n \<Longrightarrow>
             length (F i acc) = n \<and> (\<forall>j < n. F i acc ! j = f j i (acc ! j))"
    and "length acc = n"
  shows "length (fold F is acc) = n \<and> (\<forall>j < n. fold F is acc ! j = fold (f j) is (acc ! j))"
  using assms(2)
proof (induction "is" arbitrary: acc)
  case Nil
  then show ?case by simp
next
  case (Cons i rest)
  from assms(1)[OF Cons.prems, of i]
  have 1: "length (F i acc) = n" "\<forall>j < n. F i acc ! j = f j i (acc ! j)" by simp_all
  from Cons.IH[OF 1(1)] 1(2) show ?case by simp
qed

lemma processStandardRule_pointwise:
  assumes "length (vals t) = n" "length (conv3d_same t convKernel) = n"
  shows "\<exists>next. processStandardRule t (Some bv) (Some sv) = Inr next \<and> length next = n \<and>
           (\<forall>j < n. next ! j =
              standard_value (rule_flags bv) (rule_flags sv) (vals t ! j)
                (conv3d_same t convKernel ! j))"
proof -
  let ?nc = "conv3d_same t convKernel"
  let ?cs = "vals t"
  let ?F = "\<lambda>i newState.
     let countMask = tf_equal ?nc (of_nat i);
         newState1 =
           (if rule_flags bv ! i > 0
            then tf_add newState (tf_mul_scalar (tf_logicalAnd (tf_less ?cs (1 / 2)) countMask) 1)
            else newState)
     in
     if rule_flags sv ! i > 0
     then tf_add newState1 (tf_mul_scalar (tf_logicalAnd (tf_greater ?cs (1 / 2)) countMask) 1)
     else newState1"
  let ?f = "\<lambda>j. standard_round (rule_flags bv) (rule_flags sv) (?cs ! j) (?nc ! j)"
  have step: "length (?F i acc) = n \<and> (\<forall>j < n. ?F i acc ! j = ?f j i (acc ! j))"
    if "length acc = n" for i acc
    using that assms by (simp add: Let_def nth_tf_ops standard_round_def)
  have "length (fold ?F [0..<27] (replicate n (Fl 0))) = n \<and>
      (\<forall>j < n. fold ?F [0..<27] (replicate n (Fl 0)) ! j =
         fold (?f j) [0..<27] (replicate n (Fl 0) ! j))"
    by (rule fold_lists_pointwise[where F = ?F and f = ?f, OF step]) simp_all
  then have "length (fold ?F [0..<27] (replicate n (Fl 0))) = n \<and>
      (\<forall>j < n. fold ?F [0..<27] (replicate n (Fl 0)) ! j =
         standard_value (rule_flags bv) (rule_flags sv) (?cs ! j) (?nc ! j))"
    by (simp add: standard_value_def)
  moreover have "processStandardRule t (Some bv) (Some sv) =
      Inr (fold ?F [0..<27] (replicate n (Fl 0)))"
    using assms(1) by (simp add: processStandardRule_def Let_def)
  ultimately show ?thesis by blast
qed

lemma processBriansBrainRule_pointwise:
  assumes "length (vals t) = n" "length (conv3d_same t convKernel) = n"
  shows "length (processBriansBrainRule t) = n \<and>
         (\<forall>j < n. processBriansBrainRule t ! j =
            brain_value (vals t ! j) (conv3d_same t convKernel ! j))"
  using assms by (simp add: processBriansBrainRule_def Let_def nth_tf_ops brain_value_def)


lemma tab3_cong:
  assumes "\<And>x y z. in_range sx sy sz x y z \<Longrightarrow> F x y z = F' x y z"
  shows "tab3 sx sy sz F = tab3 sx sy sz F'"
  by (rule rect_eq_tab3[OF rect_tab3]) (simp add: cell_of_tab3 assms)

lemma x_major_index_less:
  assumes "in_range sx sy sz x y z"
  shows "x_major_index sy sz x y z < sx * sy * sz"
proof -
  note r = in_rangeD[OF assms]
  show ?thesis unfolding x_major_index_def by (rule index3_less[OF r(1) r(2) r(3)])
qed

lemma conv3d_same_grid_tensor:
  "conv3d_same (grid_tensor g sx sy sz) weights =
     flat3 sx sy sz (conv_at (grid_tensor g sx sy sz) weights)"
  by (simp add: conv3d_same_def grid_tensor_def flat3_def)

lemma padded_at_grid_tensor:
  "padded_at (grid_tensor g sx sy sz) d h w =
     (if in_range sx sy sz d h w then to_float32 (cell_of g d h w) else Fl 0)"
proof (cases "in_range sx sy sz d h w")
  case True
  from nth_flat3_x_major[OF True, of "\<lambda>x y z. to_float32 (cell_of g x y z)"] True
  show ?thesis by (simp add: padded_at_def grid_tensor_def x_major_index_def in_range_def)
next
  case False
  then show ?thesis by (auto simp: padded_at_def grid_tensor_def in_range_def)
qed

lemma tf_step_unfold:
  assumes v: "valid_grid g sx sy sz"
  shows "calculateNextGeneration3DTF (Some g) ruleName =
           tf_computeNextGeneration ruleName (grid_tensor g sx sy sz)"
  using valid_not_invalid[OF v]
  by (simp add: calculateNextGeneration3DTF_def dims_valid[OF v] tf_flat_data_valid[OF v]
      grid_tensor_def)

lemma tf_step_static_valid:
  assumes v: "valid_grid g sx sy sz"
  shows "calculateNextGeneration3DTF (Some g) ''checkerboard'' =
           Inr (tab3 sx sy sz (\<lambda>x y z. js_round (to_float32 (cell_of g x y z))))"
proof -
  have "calculateNextGeneration3DTF (Some g) ''checkerboard'' =
      Inr (tab3 sx sy sz (\<lambda>x y z. tf_decode ''checkerboard''
        (f32_read (vals (grid_tensor g sx sy sz)) (x_major_index sy sz x y z))))"
    by (simp add: tf_step_unfold[OF v] tf_computeNextGeneration_def tf_read_back_tab3
        grid_tensor_def)
  also have "tab3 sx sy sz (\<lambda>x y z. tf_decode ''checkerboard''
        (f32_read (vals (grid_tensor g sx sy sz)) (x_major_index sy sz x y z))) =
      tab3 sx sy sz (\<lambda>x y z. js_round (to_float32 (cell_of g x y z)))"
    by (rule tab3_cong)
      (simp add: tf_decode_def f32_read_def grid_tensor_def length_flat3 x_major_index_less
        nth_flat3_x_major)
  finally show ?thesis .
qed

lemma tf_step_brain_valid:
  assumes v: "valid_grid g sx sy sz"
  shows "calculateNextGeneration3DTF (Some g) ''briansbrain3d'' =
           Inr (tab3 sx sy sz (\<lambda>x y z. tf_decode ''briansbrain3d''
                  (brain_value (to_float32 (cell_of g x y z))
                     (conv_at (grid_tensor g sx sy sz) convKernel x y z))))"
proof -
  let ?t = "grid_tensor g sx sy sz"
  have l: "length (vals ?t) = sx * sy * sz" "length (conv3d_same ?t convKernel) = sx * sy * sz"
    by (simp_all add: conv3d_same_grid_tensor length_flat3) (simp add: grid_tensor_def length_flat3)
  note pw = processBriansBrainRule_pointwise[OF l]
  have "calculateNextGeneration3DTF (Some g) ''briansbrain3d'' =
      Inr (tab3 sx sy sz (\<lambda>x y z. tf_decode ''briansbrain3d''
        (f32_read (processBriansBrainRule ?t) (x_major_index sy sz x y z))))"
    by (simp add: tf_step_unfold[OF v] tf_computeNextGeneration_def)
      (simp add: grid_tensor_def tf_read_back_tab3)
  also have "tab3 sx sy sz (\<lambda>x y z. tf_decode ''briansbrain3d''
        (f32_read (processBriansBrainRule ?t) (x_major_index sy sz x y z))) =
      tab3 sx sy sz (\<lambda>x y z. tf_decode ''briansbrain3d''
                  (brain_value (to_float32 (cell_of g x y z))
                     (conv_at ?t convKernel x y z)))"
  proof (rule tab3_cong)
    fix x y z assume r: "in_range sx sy sz x y z"
    note i = x_major_index_less[OF r]
    have "f32_read (processBriansBrainRule ?t) (x_major_index sy sz x y z) =
        brain_value (vals ?t ! x_major_index sy sz x y z)
          (conv3d_same ?t convKernel ! x_major_index sy sz x y z)"
      using pw i by (simp add: f32_read_def)
    also have "vals ?t ! x_major_index sy sz x y z = to_float32 (cell_of g x y z)"
      by (simp add: grid_tensor_def nth_flat3_x_major[OF r])
    also have "conv3d_same ?t convKernel ! x_major_index sy sz x y z = conv_at ?t convKernel x y z"
      by (simp add: conv3d_same_grid_tensor nth_flat3_x_major[OF r])
    finally show "tf_decode ''briansbrain3d''
        (f32_read (processBriansBrainRule ?t) (x_major_index sy sz x y z)) =
      tf_decode ''briansbrain3d'' (brain_value (to_float32 (cell_of g x y z))
        (conv_at ?t convKernel x y z))" by simp
  qed
  finally show ?thesis .
qed

lemma tf_step_bs_valid:
  assumes v: "valid_grid g sx sy sz"
    and rule: "resolve_rule ruleName = BS birth survival"
  shows "calculateNextGeneration3DTF (Some g) ruleName =
           Inr (tab3 sx sy sz (\<lambda>x y z. js_round
                  (standard_value (rule_flags birth) (rule_flags survival)
                     (to_float32 (cell_of g x y z))
                     (conv_at (grid_tensor g sx sy sz) convKernel x y z))))"
proof -
  have n1: "ruleName \<noteq> ''briansbrain3d''" and n2: "ruleName \<noteq> ''checkerboard''"
    using rule by (auto simp: resolve_rule_def rule_lookup_def RULE_DEFINITIONS_def)
  let ?t = "grid_tensor g sx sy sz"
  have l: "length (vals ?t) = sx * sy * sz" "length (conv3d_same ?t convKernel) = sx * sy * sz"
    by (simp_all add: conv3d_same_grid_tensor length_flat3) (simp add: grid_tensor_def length_flat3)
  from processStandardRule_pointwise[OF l, of birth survival]
  obtain nxt where nxt: "processStandardRule ?t (Some birth) (Some survival) = Inr nxt"
    "length nxt = sx * sy * sz"
    "\<forall>j < sx * sy * sz. nxt ! j =
       standard_value (rule_flags birth) (rule_flags survival) (vals ?t ! j)
         (conv3d_same ?t convKernel ! j)" by blast
  have "calculateNextGeneration3DTF (Some g) ruleName =
      Inr (tab3 sx sy sz (\<lambda>x y z. tf_decode ruleName
        (f32_read nxt (x_major_index sy sz x y z))))"
    using n1 n2 nxt(1)
    by (simp add: tf_step_unfold[OF v] tf_computeNextGeneration_def rule)
      (simp add: grid_tensor_def tf_read_back_tab3)
  also have "tab3 sx sy sz (\<lambda>x y z. tf_decode ruleName
        (f32_read nxt (x_major_index sy sz x y z))) =
      tab3 sx sy sz (\<lambda>x y z. js_round
                  (standard_value (rule_flags birth) (rule_flags survival)
                     (to_float32 (cell_of g x y z))
                     (conv_at ?t convKernel x y z)))"
  proof (rule tab3_cong)
    fix x y z assume r: "in_range sx sy sz x y z"
    note i = x_major_index_less[OF r]
    have "f32_read nxt (x_major_index sy sz x y z) =
        standard_value (rule_flags birth) (rule_flags survival)
          (vals ?t ! x_major_index sy sz x y z)
          (conv3d_same ?t convKernel ! x_major_index sy sz x y z)"
      using nxt(2,3) i by (simp add: f32_read_def)
    also have "vals ?t ! x_major_index sy sz x y z = to_float32 (cell_of g x y z)"
      by (simp add: grid_tensor_def nth_flat3_x_major[OF r])
    also have "conv3d_same ?t convKernel ! x_major_index sy sz x y z = conv_at ?t convKernel x y z"
      by (simp add: conv3d_same_grid_tensor nth_flat3_x_major[OF r])
    finally show "tf_decode ruleName (f32_read nxt (x_major_index sy sz x y z)) =
      js_round (standard_value (rule_flags birth) (rule_flags survival)
        (to_float32 (cell_of g x y z)) (conv_at ?t convKernel x y z))"
      using n1 by (simp add: tf_decode_def)
  qed
  finally show ?thesis .
qed


lemma sqrt_band:
  "\<bar>sqrt (real_of_int n) - 3 / 2\<bar> < 4 / 5 \<longleftrightarrow> 1 \<le> n \<and> n \<le> 5"
proof -
  have a: "sqrt (49 / 100) = 7 / 10" by (rule real_sqrt_unique) (simp_all add: power2_eq_square)
  have b: "sqrt (529 / 100) = 23 / 10" by (rule real_sqrt_unique) (simp_all add: power2_eq_square)
  have "\<bar>sqrt (real_of_int n) - 3 / 2\<bar> < 4 / 5 \<longleftrightarrow>
      7 / 10 < sqrt (real_of_int n) \<and> sqrt (real_of_int n) < 23 / 10" by linarith
  also have "\<dots> \<longleftrightarrow> sqrt (49 / 100) < sqrt (real_of_int n) \<and> sqrt (real_of_int n) < sqrt (529 / 100)"
    by (simp only: a b)
  also have "\<dots> \<longleftrightarrow> 49 / 100 < real_of_int n \<and> real_of_int n < 529 / 100"
    by (simp only: real_sqrt_less_iff)
  also have "\<dots> \<longleftrightarrow> 1 \<le> n \<and> n \<le> 5" by linarith
  finally show ?thesis .
qed

lemma sphere6_seed:
  "createInitial3DGrid random 6 6 6 (Some ''sphere'') = Inr (tab3 6 6 6 sphere6_cell)"
proof -
  let ?cell = "\<lambda>x y z :: int.
     let dx = x - 3; dy = y - 3; dz = z - 3;
         distance = sqrt (real_of_int (dx * dx + dy * dy + dz * dz))
     in (Inr (if \<bar>distance - 3 / 2\<bar> < 4 / 5 then Some (Num 1) else None) :: error + jsval option)"
  let ?r = "\<lambda>x y z :: int.
     if 1 \<le> (x - 3) * (x - 3) + (y - 3) * (y - 3) + (z - 3) * (z - 3) \<and>
        (x - 3) * (x - 3) + (y - 3) * (y - 3) + (z - 3) * (z - 3) \<le> 5
     then Some (Num 1) else None"
  have "fill_grid (6, 6, 6) ?cell (createEmpty3DGrid 6 6 6) =
      Inr (tab3 6 6 6 (\<lambda>x y z. written (?r x y z)))"
    by (rule fill_grid_empty) (simp only: Let_def sqrt_band)
  moreover have "(\<lambda>x y z. written (?r x y z)) = sphere6_cell"
    by (intro ext) (simp add: written_def sphere6_cell_def Let_def)
  moreover have "createInitial3DGrid random 6 6 6 (Some ''sphere'') =
      fill_grid (6, 6, 6) ?cell (createEmpty3DGrid 6 6 6)"
    by (simp add: createInitial3DGrid_def js_default_def Let_def)
  ultimately show ?thesis by simp
qed

lemma valid_tab3:
  assumes "0 < sx" "0 < sy" "0 < sz"
  shows "valid_grid (tab3 sx sy sz F) sx sy sz"
  using assms by (simp add: valid_grid_def rect_tab3)

lemma rule_flags_fold:
  assumes "length arr = 27" "k < 27"
  shows "length (fold (\<lambda>v arr. if v \<ge> 0 \<and> v < 27 then arr[nat v := 1] else arr) vs arr) = 27 \<and>
         (fold (\<lambda>v arr. if v \<ge> 0 \<and> v < 27 then arr[nat v := 1] else arr) vs arr ! k > (0 :: int)
            \<longleftrightarrow> arr ! k > 0 \<or> int k \<in> set vs)"
  using assms
proof (induction vs arbitrary: arr)
  case Nil
  then show ?case by simp
next
  case (Cons v vs)
  show ?case
  proof (cases "v \<ge> 0 \<and> v < 27")
    case True
    then have n: "nat v < 27" by linarith
    have l: "length (arr[nat v := 1]) = 27" using Cons.prems by simp
    have e: "(k = nat v) = (int k = v)" using True by auto
    have "arr[nat v := 1] ! k > 0 \<longleftrightarrow> arr ! k > 0 \<or> int k = v"
      using Cons.prems n e by (auto simp: nth_list_update)
    with Cons.IH[OF l Cons.prems(2)] True show ?thesis by auto
  next
    case False
    then have "int k \<noteq> v" using Cons.prems(2) by auto
    with Cons.IH[OF Cons.prems] False show ?thesis by auto
  qed
qed

lemma rule_flags_pos:
  assumes "k < 27"
  shows "(rule_flags vs ! k > 0) = (int k \<in> set vs)"
  using rule_flags_fold[of "replicate 27 0" k vs] assms by (simp add: rule_flags_def)

lemma sum_list_single_nat:
  "sum_list (map (\<lambda>i. if i = k then (G :: nat) else 0) [0..<n]) = (if k < n then G else 0)"
  by (induction n) auto

lemma fadd_nat:
  assumes "a + b < 2 ^ 24"
  shows "fadd (Fl (of_nat a)) (Fl (of_nat b)) = Fl (of_nat (a + b))"
  using f32_round_nat[OF assms] by simp

lemma fmul_flag: "fmul (Fl (if c then 1 else 0)) (Fl 1) = Fl (of_nat (if c then 1 else 0))"
  by (simp add: f32_round_small)

lemma standard_round_nat:
  assumes "a + 2 < 2 ^ 24"
  shows "standard_round ba sa (Fl q) (Fl r) i (Fl (of_nat a)) =
           Fl (of_nat (a + ((if ba ! i > 0 \<and> q < 1 / 2 \<and> r = of_nat i then 1 else 0) +
                            (if sa ! i > 0 \<and> q > 1 / 2 \<and> r = of_nat i then 1 else 0))))"
proof -
  let ?b = "fless (Fl q) (1 / 2) \<and> fequal (Fl r) (of_nat i)"
  let ?s = "fgreater (Fl q) (1 / 2) \<and> fequal (Fl r) (of_nat i)"
  have 1: "fadd (Fl (of_nat n)) (Fl (of_nat (if c then 1 else 0))) =
      Fl (of_nat (n + (if c then 1 else 0)))" if "n + 1 < 2 ^ 24" for n c
    by (rule fadd_nat) (use that in simp)
  have 2: "a + (if ?b then 1 else 0) + 1 < 2 ^ 24" "a + 1 < 2 ^ 24" using assms by simp_all
  show ?thesis
    unfolding standard_round_def Let_def fmul_flag
    by (cases "ba ! i > 0"; cases "sa ! i > 0") (simp_all only: if_True if_False 1[OF 2(1)] 1[OF 2(2)], simp_all)
qed

lemma fold_standard_round:
  assumes "a + 2 * length ns + 2 < 2 ^ 24"
  shows "fold (standard_round ba sa (Fl q) (Fl r)) ns (Fl (of_nat a)) =
     Fl (of_nat (a + sum_list (map (\<lambda>i.
           (if ba ! i > 0 \<and> q < 1 / 2 \<and> r = of_nat i then 1 else 0) +
           (if sa ! i > 0 \<and> q > 1 / 2 \<and> r = of_nat i then 1 else 0)) ns)))"
  using assms
proof (induction ns arbitrary: a)
  case Nil
  then show ?case by simp
next
  case (Cons i ns)
  let ?g = "(if ba ! i > 0 \<and> q < 1 / 2 \<and> r = of_nat i then 1 else 0) +
            (if sa ! i > 0 \<and> q > 1 / 2 \<and> r = of_nat i then 1 else (0 :: nat))"
  have g: "?g \<le> 2" by simp
  have a: "a + 2 < 2 ^ 24" using Cons.prems by simp
  have b: "(a + ?g) + 2 * length ns + 2 < 2 ^ 24" using Cons.prems g by simp
  show ?case
    by (simp only: fold_simps standard_round_nat[OF a] Cons.IH[OF b] list.map sum_list.Cons
        add.assoc)
qed

lemma standard_value_count:
  assumes "k < 27"
  shows "standard_value (rule_flags birth) (rule_flags survival) (Fl q) (Fl (of_nat k)) =
           Fl ((if q < 1 / 2 \<and> int k \<in> set birth then 1 else 0) +
               (if q > 1 / 2 \<and> int k \<in> set survival then 1 else 0))"
proof -
  let ?G = "(if rule_flags birth ! k > 0 \<and> q < 1 / 2 then 1 else 0) +
            (if rule_flags survival ! k > 0 \<and> q > 1 / 2 then (1 :: nat) else 0)"
  have f: "(\<lambda>i. (if rule_flags birth ! i > 0 \<and> q < 1 / 2 \<and> (of_nat k :: rat) = of_nat i then 1 else 0) +
           (if rule_flags survival ! i > 0 \<and> q > 1 / 2 \<and> (of_nat k :: rat) = of_nat i then 1 else 0)) =
        (\<lambda>i. if i = k then ?G else 0)"
    by (intro ext) auto
  have s: "sum_list (map (\<lambda>i. if i = k then ?G else 0) [0..<27]) = ?G"
    using assms by (simp only: sum_list_single_nat) simp
  have "standard_value (rule_flags birth) (rule_flags survival) (Fl q) (Fl (of_nat k)) =
      fold (standard_round (rule_flags birth) (rule_flags survival) (Fl q) (Fl (of_nat k)))
        [0..<27] (Fl (of_nat 0))"
    by (simp add: standard_value_def)
  also have "\<dots> = Fl (of_nat (0 + sum_list (map (\<lambda>i. if i = k then ?G else 0) [0..<27])))"
    by (subst fold_standard_round) (simp_all only: f, simp)
  also have "\<dots> = Fl (of_nat ?G)" by (simp only: s add_0)
  also have "of_nat ?G = (if q < 1 / 2 \<and> int k \<in> set birth then 1 else 0) +
               (if q > 1 / 2 \<and> int k \<in> set survival then (1 :: rat) else 0)"
    by (simp add: rule_flags_pos[OF assms])
  finally show ?thesis .
qed

lemma sphere6_cpu_count: "toroidal_live_count (tab3 6 6 6 sphere6_cell) 6 6 6 0 3 3 = 10"
  by (simp add: toroidal_live_count_def neighbor_offsets_def wrapped_alive_def cell_of_tab3
      in_range_def sphere6_cell_def)

lemma sphere6_tf_count:
  "conv_at (grid_tensor (tab3 6 6 6 sphere6_cell) 6 6 6) convKernel 0 3 3 = Fl 5"
  by (simp add: conv_at_def padded_at_grid_tensor convKernel_def cell_of_tab3
      in_range_def sphere6_cell_def f32_round_small)

lemma js_round_int: "js_round (Fl (of_int n)) = Num n"
proof -
  have "\<lfloor>(of_int n :: rat) + 1 / 2\<rfloor> = n" by (rule floor_unique) simp_all
  then show ?thesis by simp
qed

lemma resolve_rule_conway3d: "resolve_rule ''conway3d'' = BS [5, 6, 7] [4, 5, 6]"
  by (simp add: resolve_rule_def rule_lookup_def RULE_DEFINITIONS_def)

text \<open>
  Claim C2. Seed the 6 x 6 x 6 grid with the sphere pattern and step it once under
  \<open>conway3d\<close> (born on 5, 6, 7; survives on 4, 5, 6). The cell (0,3,3) lies on the face
  \<open>x = 0\<close> and is dead in the seed. The CPU engine counts its neighbours with wraparound and
  finds 10 alive, so the cell stays dead; the convolution of the tensor engine sees zeros
  beyond the face and sums to 5, so the tensor engine gives birth to it. The two engines
  disagree on the set of alive cells after one generation.
\<close>

theorem tensor_engine_sphere_step:
  "\<forall>random. \<exists>seed cpu tf.
     createInitial3DGrid random 6 6 6 (Some ''sphere'') = Inr seed \<and>
     cell_of seed 0 3 3 = Num 0 \<and>
     countLiveNeighbors3D seed 0 3 3 = Inr 10 \<and>
     conv_at (grid_tensor seed 6 6 6) convKernel 0 3 3 = Fl 5 \<and>
     calculateNextGeneration3D (Some seed) ''conway3d'' = Inr cpu \<and>
     calculateNextGeneration3DTF (Some seed) ''conway3d'' = Inr tf \<and>
     cell_of cpu 0 3 3 = Num 0 \<and> cell_of tf 0 3 3 = Num 1"
proof (intro allI)
  fix random :: "nat \<Rightarrow> real"
  let ?seed = "tab3 6 6 6 sphere6_cell"
  have v: "valid_grid ?seed 6 6 6" by (rule valid_tab3) simp_all
  have r: "in_range 6 6 6 0 3 3" by (simp add: in_range_def)
  have c0: "sphere6_cell 0 3 3 = Num 0" by (simp add: sphere6_cell_def)
  have c: "cell_of ?seed 0 3 3 = Num 0"
    by (simp only: cell_of_tab3[OF r] c0)
  have n: "countLiveNeighbors3D ?seed 0 3 3 = Inr 10"
    by (simp only: countLiveNeighbors3D_valid[OF v r] sphere6_cpu_count)
  have s: "standard_value (rule_flags [5, 6, 7]) (rule_flags [4, 5, 6]) (Fl 0) (Fl 5) = Fl 1"
    using standard_value_count[of 5 "[5, 6, 7]" "[4, 5, 6]" 0] by simp
  have r1: "js_round (Fl 1) = Num 1" using js_round_int[of 1] by simp
  have cpu: "cell_of (tab3 6 6 6 (\<lambda>x y z. bs_next [5, 6, 7] [4, 5, 6] (cell_of ?seed x y z)
      (toroidal_live_count ?seed 6 6 6 x y z))) 0 3 3 = Num 0"
    by (simp only: cell_of_tab3[OF r] c0 sphere6_cpu_count) (simp add: bs_next_def)
  have tf: "cell_of (tab3 6 6 6 (\<lambda>x y z. js_round
      (standard_value (rule_flags [5, 6, 7]) (rule_flags [4, 5, 6])
         (to_float32 (cell_of ?seed x y z))
         (conv_at (grid_tensor ?seed 6 6 6) convKernel x y z)))) 0 3 3 = Num 1"
    by (simp only: cell_of_tab3[OF r] c0 sphere6_tf_count to_float32_cell s r1)
  from sphere6_seed[of random] c n sphere6_tf_count
    step_bs_valid[OF v resolve_rule_conway3d] tf_step_bs_valid[OF v resolve_rule_conway3d]
    cpu tf
  show "\<exists>seed cpu tf.
     createInitial3DGrid random 6 6 6 (Some ''sphere'') = Inr seed \<and>
     cell_of seed 0 3 3 = Num 0 \<and>
     countLiveNeighbors3D seed 0 3 3 = Inr 10 \<and>
     conv_at (grid_tensor seed 6 6 6) convKernel 0 3 3 = Fl 5 \<and>
     calculateNextGeneration3D (Some seed) ''conway3d'' = Inr cpu \<and>
     calculateNextGeneration3DTF (Some seed) ''conway3d'' = Inr tf \<and>
     cell_of cpu 0 3 3 = Num 0 \<and> cell_of tf 0 3 3 = Num 1"
    by blast
qed


lemma gpu_decode_binary: "gpu_decode pixelBuffer i = Num 0 \<or> gpu_decode pixelBuffer i = Num 1"
  by (simp add: gpu_decode_def)

lemma gpu_step_valid:
  assumes v: "valid_grid g sx sy sz"
  shows "calculateNextGeneration3DGPU gpu (Some g) ruleName = Inl TypeError \<or>
         (\<exists>pixelBuffer. calculateNextGeneration3DGPU gpu (Some g) ruleName =
            Inr (tab3 sx sy sz (\<lambda>x y z.
                   gpu_decode pixelBuffer (z_major_index sx sy x y z * 4))))"
proof -
  from texture_data_valid[OF v] obtain data where d: "texture_data g (sx, sy, sz) = Inr data"
    by blast
  have u: "calculateNextGeneration3DGPU gpu (Some g) ruleName =
      gpu_computeNextGeneration gpu ruleName (sx, sy, sz) data"
    using valid_not_invalid[OF v]
    by (simp add: calculateNextGeneration3DGPU_def dims_valid[OF v] d)
  let ?m = "if ruleName = ''briansbrain3d'' then Inr BriansBrainShader
            else if ruleName = ''checkerboard'' then Inr CopyShader
            else setRule ruleName"
  show ?thesis
  proof (cases ?m)
    case (Inl e)
    then have "gpu_computeNextGeneration gpu ruleName (sx, sy, sz) data = Inl e"
      by (simp add: gpu_computeNextGeneration_def)
    moreover have "e = TypeError" by (cases e) simp
    ultimately show ?thesis using u by simp
  next
    case (Inr m)
    then have "gpu_computeNextGeneration gpu ruleName (sx, sy, sz) data =
        Inr (tab3 sx sy sz (\<lambda>x y z.
          gpu_decode (gpu m (sx, sy, sz) data) (z_major_index sx sy x y z * 4)))"
      by (simp add: gpu_computeNextGeneration_def gpu_read_back_tab3)
    with u show ?thesis by auto
  qed
qed

lemma gpu_step_binary:
  assumes v: "valid_grid g sx sy sz"
    and s: "calculateNextGeneration3DGPU gpu (Some g) ruleName = Inr result"
    and r: "in_range sx sy sz x y z"
  shows "cell_of result x y z = Num 0 \<or> cell_of result x y z = Num 1"
proof -
  from gpu_step_valid[OF v, of gpu ruleName] s obtain pixelBuffer where
    "result = tab3 sx sy sz (\<lambda>x y z. gpu_decode pixelBuffer (z_major_index sx sy x y z * 4))"
    by auto
  then show ?thesis using gpu_decode_binary by (simp add: cell_of_tab3[OF r])
qed

lemma valid_single: "valid_grid [[[c]]] 1 1 1"
  by (simp add: valid_grid_def rect_def)

lemma gpu_step_single:
  "calculateNextGeneration3DGPU gpu (Some [[[c]]]) ruleName \<noteq> Inr [[[Num 2]]]"
proof
  assume a: "calculateNextGeneration3DGPU gpu (Some [[[c]]]) ruleName = Inr [[[Num 2]]]"
  have "in_range 1 1 1 0 0 0" by (simp add: in_range_def)
  from gpu_step_binary[OF valid_single a this] show False by (simp add: cell_of_def)
qed

lemma tf_static_identity:
  assumes v: "valid_grid g sx sy sz"
    and n: "\<And>x y z. in_range sx sy sz x y z \<Longrightarrow>
              \<exists>k. \<bar>k\<bar> < 2 ^ 24 \<and> cell_of g x y z = Num k"
  shows "calculateNextGeneration3DTF (Some g) ''checkerboard'' = Inr g"
proof -
  from v have rg: "rect g sx sy sz" by (simp add: valid_grid_def)
  have "g = tab3 sx sy sz (\<lambda>x y z. js_round (to_float32 (cell_of g x y z)))"
  proof (rule rect_eq_tab3[OF rg])
    fix x y z assume "in_range sx sy sz x y z"
    from n[OF this] obtain k where b: "\<bar>k\<bar> < 2 ^ 24" and k: "cell_of g x y z = Num k"
      by blast
    show "cell_of g x y z = js_round (to_float32 (cell_of g x y z))"
      by (simp only: k to_float32_small[OF b] js_round_int)
  qed
  with tf_step_static_valid[OF v] show ?thesis by simp
qed

lemma gpu_read_back_single:
  "gpu_read_back (1, 1, 1) pixelBuffer = Inr [[[gpu_decode pixelBuffer 0]]]"
  by (simp add: gpu_read_back_tab3 tab3_def z_major_index_def)

text \<open>
  Claim C3. Step the 1 x 1 x 1 grid whose cell is 2 (dying) under \<open>checkerboard\<close>. The CPU
  engine and the tensor engine return the grid unchanged. The texture engine uploads the
  cell as the byte 2 * 255 reduced to eight bits, 254, and reads every byte back as 0 or
  1: whatever the render pass computes, the grid it returns is not the grid it was given.
\<close>

theorem static_step_dying_cell:
  "calculateNextGeneration3D (Some [[[Num 2]]]) ''checkerboard'' = Inr [[[Num 2]]] \<and>
   calculateNextGeneration3DTF (Some [[[Num 2]]]) ''checkerboard'' = Inr [[[Num 2]]] \<and>
   texture_data [[[Num 2]]] (1, 1, 1) = Inr [254, 0, 0, 255] \<and>
   (\<forall>gpu. calculateNextGeneration3DGPU gpu (Some [[[Num 2]]]) ''checkerboard'' \<noteq>
      Inr [[[Num 2]]])"
proof (intro conjI allI)
  show "calculateNextGeneration3D (Some [[[Num 2]]]) ''checkerboard'' = Inr [[[Num 2]]]"
    by (rule step_static_valid[OF valid_single])
  show "calculateNextGeneration3DTF (Some [[[Num 2]]]) ''checkerboard'' = Inr [[[Num 2]]]"
    by (rule tf_static_identity[OF valid_single]) (simp add: cell_of_def in_range_def)
  show "texture_data [[[Num 2]]] (1, 1, 1) = Inr [254, 0, 0, 255]"
    by code_simp
  show "calculateNextGeneration3DGPU gpu (Some [[[Num 2]]]) ''checkerboard'' \<noteq> Inr [[[Num 2]]]"
    for gpu by (rule gpu_step_single)
qed

lemma tf_brain_single_alive:
  "calculateNextGeneration3DTF (Some [[[Num 1]]]) ''briansbrain3d'' = Inr [[[Num 2]]]"
  unfolding tf_step_brain_valid[OF valid_single]
  by (simp add: tab3_def cell_of_def conv_at_def padded_at_grid_tensor in_range_def
      convKernel_def brain_value_def tf_decode_def f32_round_small)

lemma tf_brain_single_dying:
  "calculateNextGeneration3DTF (Some [[[Num 2]]]) ''briansbrain3d'' = Inr [[[Num 2]]]"
  unfolding tf_step_brain_valid[OF valid_single]
  by (simp add: tab3_def cell_of_def conv_at_def padded_at_grid_tensor in_range_def
      convKernel_def brain_value_def tf_decode_def f32_round_small)

lemma tf_brain_dying_neighbour:
  "calculateNextGeneration3DTF (Some [[[Num 0]], [[Num 2]], [[Num 0]]]) ''briansbrain3d'' =
     Inr [[[Num 1]], [[Num 2]], [[Num 1]]]"
proof -
  have v: "valid_grid [[[Num 0]], [[Num 2]], [[Num 0]]] 3 1 1"
    by (simp add: valid_grid_def rect_def)
  show ?thesis
    unfolding tf_step_brain_valid[OF v]
    by (simp add: tab3_def upt_rec cell_of_def conv_at_def padded_at_grid_tensor in_range_def
        convKernel_def brain_value_def tf_decode_def f32_round_small)
qed

text \<open>
  Claim C4. Under \<open>briansbrain3d\<close> the CPU engine takes a lone alive cell to dying and a
  lone dying cell to dead, and a dying neighbour does not count: in the 3 x 1 x 1 grid
  0, 2, 0 every cell is dead after the step. The tensor engine takes the alive cell to
  dying too, but it uploads the dying cell as 2.0, which passes its alive test (above
  0.75): the dying cell is dying again after the step and never dies. The same 2.0 enters
  the convolution sum, so in the grid 0, 2, 0 the two dead cells see a neighbour sum of 2
  and are born. The texture engine cannot return a 2 at all: the lone alive cell does not
  come back as dying, whatever the render pass computes.
\<close>

theorem brians_brain_cycle_engines:
  "calculateNextGeneration3D (Some [[[Num 1]]]) ''briansbrain3d'' = Inr [[[Num 2]]] \<and>
   calculateNextGeneration3D (Some [[[Num 2]]]) ''briansbrain3d'' = Inr [[[Num 0]]] \<and>
   calculateNextGeneration3D (Some [[[Num 0]], [[Num 2]], [[Num 0]]]) ''briansbrain3d'' =
     Inr [[[Num 0]], [[Num 0]], [[Num 0]]] \<and>
   calculateNextGeneration3DTF (Some [[[Num 1]]]) ''briansbrain3d'' = Inr [[[Num 2]]] \<and>
   calculateNextGeneration3DTF (Some [[[Num 2]]]) ''briansbrain3d'' = Inr [[[Num 2]]] \<and>
   calculateNextGeneration3DTF (Some [[[Num 0]], [[Num 2]], [[Num 0]]]) ''briansbrain3d'' =
     Inr [[[Num 1]], [[Num 2]], [[Num 1]]] \<and>
   (\<forall>gpu. calculateNextGeneration3DGPU gpu (Some [[[Num 1]]]) ''briansbrain3d'' \<noteq>
      Inr [[[Num 2]]])"
proof (intro conjI allI)
  show "calculateNextGeneration3D (Some [[[Num 1]]]) ''briansbrain3d'' = Inr [[[Num 2]]]"
    by code_simp
  show "calculateNextGeneration3D (Some [[[Num 2]]]) ''briansbrain3d'' = Inr [[[Num 0]]]"
    by code_simp
  show "calculateNextGeneration3D (Some [[[Num 0]], [[Num 2]], [[Num 0]]]) ''briansbrain3d'' =
     Inr [[[Num 0]], [[Num 0]], [[Num 0]]]"
    by code_simp
  show "calculateNextGeneration3DTF (Some [[[Num 1]]]) ''briansbrain3d'' = Inr [[[Num 2]]]"
    by (rule tf_brain_single_alive)
  show "calculateNextGeneration3DTF (Some [[[Num 2]]]) ''briansbrain3d'' = Inr [[[Num 2]]]"
    by (rule tf_brain_single_dying)
  show "calculateNextGeneration3DTF (Some [[[Num 0]], [[Num 2]], [[Num 0]]]) ''briansbrain3d'' =
     Inr [[[Num 1]], [[Num 2]], [[Num 1]]]"
    by (rule tf_brain_dying_neighbour)
  show "calculateNextGeneration3DGPU gpu (Some [[[Num 1]]]) ''briansbrain3d'' \<noteq> Inr [[[Num 2]]]"
    for gpu by (rule gpu_step_single)
qed

text \<open>
  Claim C5. The tensor engine decodes its internal 0.5 to 2: the read-back of the flat
  value 0.5 is a grid holding 2, and the step of a lone alive cell under \<open>briansbrain3d\<close>
  returns 2. The texture engine does not: its read-back maps every byte to 0 or 1, so no
  pixel buffer decodes to a cell 2, and the cell that is dying after the step of a lone
  alive cell comes back as 0 or 1, whatever the render pass computes.
\<close>

theorem dying_state_decoding:
  "tf_read_back ''briansbrain3d'' (1, 1, 1) [Fl (1 / 2)] = Inr [[[Num 2]]] \<and>
   calculateNextGeneration3DTF (Some [[[Num 1]]]) ''briansbrain3d'' = Inr [[[Num 2]]] \<and>
   (\<forall>pixelBuffer. gpu_read_back (1, 1, 1) pixelBuffer = Inr [[[Num 0]]] \<or>
      gpu_read_back (1, 1, 1) pixelBuffer = Inr [[[Num 1]]]) \<and>
   (\<forall>gpu. calculateNextGeneration3DGPU gpu (Some [[[Num 1]]]) ''briansbrain3d'' \<noteq>
      Inr [[[Num 2]]])"
proof (intro conjI allI)
  show "tf_read_back ''briansbrain3d'' (1, 1, 1) [Fl (1 / 2)] = Inr [[[Num 2]]]"
    by code_simp
  show "calculateNextGeneration3DTF (Some [[[Num 1]]]) ''briansbrain3d'' = Inr [[[Num 2]]]"
    by (rule tf_brain_single_alive)
  show "gpu_read_back (1, 1, 1) pixelBuffer = Inr [[[Num 0]]] \<or>
      gpu_read_back (1, 1, 1) pixelBuffer = Inr [[[Num 1]]]" for pixelBuffer
    unfolding gpu_read_back_single using gpu_decode_binary[of pixelBuffer 0] by blast
  show "calculateNextGeneration3DGPU gpu (Some [[[Num 1]]]) ''briansbrain3d'' \<noteq> Inr [[[Num 2]]]"
    for gpu by (rule gpu_step_single)
qed

end
